(* ===== verification/Prelude.thy ===== *)
theory Prelude
  imports
    Main
    "HOL-Library.Word"
    "HOL-Library.Char_ord"
    "HOL-Library.List_Lexorder"
begin

text \<open>
  Shared vocabulary of the development. Results of fallible Rust code are values of a sum type
  (\<open>Err\<close> and \<open>Ok\<close>), an explicit monadic bind stands for the question-mark operator, and the
  collections \<open>result_simps\<close>, \<open>std_simps\<close> and \<open>inv_intros\<close> gather the rewriting and introduction
  rules that the component theories share. A Rust string is the list of the bytes of its UTF-8
  encoding, so \<open>length\<close> is the \<open>len\<close> of the source.
\<close>

unbundle bit_operations_syntax

named_theorems result_simps \<open>rewriting of results and of their bind\<close>
named_theorems std_simps \<open>models of the standard library\<close>
named_theorems inv_intros \<open>preservation of the invariants\<close>

section \<open>Words\<close>

lemma unat_less: "unat w < 2 ^ LENGTH('a)" for w :: "'a::len word"
  by (rule unsigned_less)

lemma unat_eqD: "unat v = unat w \<Longrightarrow> v = w" for v w :: "'a::len word"
  by (rule unsigned_word_eqI)

lemma unat_drop_bit: "unat (drop_bit n w) = unat w div 2 ^ n" for w :: "'a::len word"
  using take_bit_nat_eq_self [OF unat_less [of w]]
  by (simp only: unsigned_drop_bit_eq) (simp add: drop_bit_eq_div)

lemma unat_take_bit: "unat (take_bit n w) = unat w mod 2 ^ n" for w :: "'a::len word"
  by (simp only: unsigned_take_bit_eq) (simp add: take_bit_eq_mod)

lemma unat_mask: "n \<le> LENGTH('a) \<Longrightarrow> unat (mask n :: 'a::len word) = 2 ^ n - 1"
proof -
  assume n: "n \<le> LENGTH('a)"
  have "unat (mask n :: 'a word) = unat (take_bit n (- 1 :: 'a word))" by simp
  also have "\<dots> = take_bit n (mask LENGTH('a))"
    by (simp only: unsigned_take_bit_eq unsigned_minus_1_eq_mask)
  also have "\<dots> = mask n"
    using n by (simp only: take_bit_of_mask min_absorb1)
  finally show ?thesis by (simp only: mask_eq_exp_minus_1)
qed

section \<open>Results\<close>

type_synonym ('e, 'a) result = "'e + 'a"

abbreviation Err :: "'e \<Rightarrow> ('e, 'a) result" where
  "Err \<equiv> Inl"

abbreviation Ok :: "'a \<Rightarrow> ('e, 'a) result" where
  "Ok \<equiv> Inr"

definition is_ok :: "('e, 'a) result \<Rightarrow> bool" where
  "is_ok r = (case r of Err _ \<Rightarrow> False | Ok _ \<Rightarrow> True)"

definition rbind :: "('e, 'a) result \<Rightarrow> ('a \<Rightarrow> ('e, 'b) result) \<Rightarrow> ('e, 'b) result" where
  "rbind r f = (case r of Err e \<Rightarrow> Err e | Ok a \<Rightarrow> f a)"

definition map_err :: "('e \<Rightarrow> 'd) \<Rightarrow> ('e, 'a) result \<Rightarrow> ('d, 'a) result" where
  "map_err g r = (case r of Err e \<Rightarrow> Err (g e) | Ok a \<Rightarrow> Ok a)"

definition map_ok :: "('a \<Rightarrow> 'b) \<Rightarrow> ('e, 'a) result \<Rightarrow> ('e, 'b) result" where
  "map_ok f r = (case r of Err e \<Rightarrow> Err e | Ok a \<Rightarrow> Ok (f a))"

definition ok_or :: "'e \<Rightarrow> 'a option \<Rightarrow> ('e, 'a) result" where
  "ok_or e x = (case x of None \<Rightarrow> Err e | Some a \<Rightarrow> Ok a)"

definition ok_opt :: "('e, 'a) result \<Rightarrow> 'a option" where
  "ok_opt r = (case r of Err e \<Rightarrow> None | Ok a \<Rightarrow> Some a)"

lemma is_ok_simps [simp]: "is_ok (Ok a)" "\<not> is_ok (Err e)"
  by (simp_all add: is_ok_def)

lemma is_ok_iff: "is_ok r \<longleftrightarrow> (\<exists>a. r = Ok a)"
  by (cases r) simp_all

lemma rbind_simps [simp]: "rbind (Err e) f = Err e" "rbind (Ok a) f = f a"
  by (simp_all add: rbind_def)

lemma rbind_eq_Ok [result_simps]: "rbind r f = Ok b \<longleftrightarrow> (\<exists>a. r = Ok a \<and> f a = Ok b)"
  by (cases r) simp_all

lemma rbind_eq_Err [result_simps]:
  "rbind r f = Err e \<longleftrightarrow> r = Err e \<or> (\<exists>a. r = Ok a \<and> f a = Err e)"
  by (cases r) simp_all

lemma map_err_simps [simp]: "map_err g (Err e) = Err (g e)" "map_err g (Ok a) = Ok a"
  by (simp_all add: map_err_def)

lemma map_err_eq_Ok [simp]: "map_err g r = Ok a \<longleftrightarrow> r = Ok a"
  by (cases r) simp_all

lemma map_err_eq_Err [result_simps]: "map_err g r = Err d \<longleftrightarrow> (\<exists>e. r = Err e \<and> d = g e)"
  by (cases r) auto

lemma is_ok_map_err [simp]: "is_ok (map_err g r) = is_ok r"
  by (cases r) simp_all

lemma map_ok_simps [simp]: "map_ok f (Err e) = Err e" "map_ok f (Ok a) = Ok (f a)"
  by (simp_all add: map_ok_def)

lemma map_ok_eq_Ok [result_simps]: "map_ok f r = Ok b \<longleftrightarrow> (\<exists>a. r = Ok a \<and> b = f a)"
  by (cases r) auto

lemma ok_or_simps [simp]: "ok_or e None = Err e" "ok_or e (Some a) = Ok a"
  by (simp_all add: ok_or_def)

lemma ok_or_eq_Ok [simp]: "ok_or e x = Ok a \<longleftrightarrow> x = Some a"
  by (cases x) simp_all

lemma ok_opt_simps [simp]: "ok_opt (Err e) = None" "ok_opt (Ok a) = Some a"
  by (simp_all add: ok_opt_def)

lemma ok_opt_eq_Some [simp]: "ok_opt r = Some a \<longleftrightarrow> r = Ok a"
  by (cases r) simp_all

text \<open>
  A \<open>panic\<close> of the code (an \<open>expect\<close> on an absent value, an index out of range) is kept apart
  from the errors it returns.
\<close>

datatype 'e fault = Panic string | Fail 'e

definition expect :: "string \<Rightarrow> 'a option \<Rightarrow> ('e fault, 'a) result" where
  "expect msg x = (case x of None \<Rightarrow> Err (Panic msg) | Some a \<Rightarrow> Ok a)"

lemma expect_simps [simp]: "expect msg None = Err (Panic msg)" "expect msg (Some a) = Ok a"
  by (simp_all add: expect_def)

lemma expect_eq_Ok [simp]: "expect msg x = Ok a \<longleftrightarrow> x = Some a"
  by (cases x) simp_all

text \<open>
  A computation that returns no errors but may panic has the message of the panic on the left.
  \<open>catch_fail\<close> turns a returned error into an absent value, as \<open>.ok()\<close> does; a panic goes on.
\<close>

type_synonym 'a panicking = "(string, 'a) result"

definition catch_fail :: "('e fault, 'a) result \<Rightarrow> 'a option panicking" where
  "catch_fail r = (case r of Err (Panic m) \<Rightarrow> Err m | Err (Fail _) \<Rightarrow> Ok None | Ok a \<Rightarrow> Ok (Some a))"

lemma catch_fail_simps [simp]:
  "catch_fail (Err (Panic m)) = Err m" "catch_fail (Err (Fail e)) = Ok None" "catch_fail (Ok a) = Ok (Some a)"
  by (simp_all add: catch_fail_def)

definition panics :: "('e fault, 'a) result \<Rightarrow> bool" where
  "panics r = (case r of Err (Panic _) \<Rightarrow> True | _ \<Rightarrow> False)"

lemma panics_simps [simp]: "panics (Err (Panic m))" "\<not> panics (Err (Fail e))" "\<not> panics (Ok a)"
  by (simp_all add: panics_def)

lemma panics_Err: "panics (Err e) \<longleftrightarrow> (\<exists>m. e = Panic m)"
  by (cases e) simp_all

lemma panics_rbind [simp]: "panics (rbind r f) \<longleftrightarrow> panics r \<or> (\<exists>a. r = Ok a \<and> panics (f a))"
  by (cases r) (auto simp: panics_Err)

lemma is_ok_catch_fail [simp]: "is_ok (catch_fail r) \<longleftrightarrow> \<not> panics r"
  by (auto simp: catch_fail_def panics_def split: sum.splits fault.splits)

lemma panics_map_err [simp]: "\<not> panics (map_err Fail r)" "\<not> panics (map_err (\<lambda>e. Fail (g e)) r)"
  by (cases r; simp)+

lemma panics_expect [simp]: "panics (expect msg x) \<longleftrightarrow> x = None"
  by (cases x) simp_all

text \<open>
  A fallible loop over a list: the first failing element ends the loop, as the question-mark
  operator does in a \<open>for\<close> loop whose body only checks.
\<close>

fun for_each :: "('a \<Rightarrow> ('e, unit) result) \<Rightarrow> 'a list \<Rightarrow> ('e, unit) result" where
  "for_each f [] = Ok ()"
| "for_each f (x # xs) = rbind (f x) (\<lambda>_. for_each f xs)"

lemma for_each_Ok [result_simps]: "for_each f xs = Ok u \<longleftrightarrow> (\<forall>x\<in>set xs. f x = Ok ())"
  by (induction xs) (auto simp: result_simps)

text \<open>Collecting an iterator of results into a result of a list.\<close>

fun collect_ok :: "('e, 'a) result list \<Rightarrow> ('e, 'a list) result" where
  "collect_ok [] = Ok []"
| "collect_ok (r # rs) = rbind r (\<lambda>a. rbind (collect_ok rs) (\<lambda>as. Ok (a # as)))"

lemma collect_ok_Ok [result_simps]: "collect_ok rs = Ok as \<longleftrightarrow> rs = map Ok as"
proof (induction rs arbitrary: as)
  case Nil
  then show ?case by auto
next
  case (Cons r rs)
  then show ?case by (cases as) (auto simp: rbind_eq_Ok)
qed

lemma is_ok_rbind: "is_ok (rbind r f) \<longleftrightarrow> is_ok r \<and> (\<forall>a. r = Ok a \<longrightarrow> is_ok (f a))"
  by (cases r) simp_all

lemma is_ok_rbind_projr: "is_ok (rbind r f) \<longleftrightarrow> is_ok r \<and> is_ok (f (projr r))"
  by (cases r) simp_all

lemma is_ok_collect_ok: "is_ok (collect_ok rs) \<longleftrightarrow> (\<forall>r\<in>set rs. is_ok r)"
  by (induction rs) (auto simp: is_ok_rbind is_ok_iff rbind_eq_Ok)

end
