(* ===== verification/BTree.thy ===== *)
theory BTree
  imports Rust_Std
begin

text \<open>
  \<open>BTreeMap\<close> and \<open>BTreeSet\<close>: strictly sorted lists with executable operations, and the interfaces
  their users rely on, as locales. Iteration is in key order, which is the order of the list.
\<close>

section \<open>Ordered maps\<close>

locale ordered_map =
  fixes empty :: "'m"
    and insert :: "'k::linorder \<Rightarrow> 'v \<Rightarrow> 'm \<Rightarrow> 'm"
    and get :: "'m \<Rightarrow> 'k \<Rightarrow> 'v option"
    and keys :: "'m \<Rightarrow> 'k list"
    and ok :: "'m \<Rightarrow> bool"
  assumes ok_empty: "ok empty"
    and ok_insert: "ok m \<Longrightarrow> ok (insert k v m)"
    and get_empty: "get empty k = None"
    and get_insert: "get (insert k v m) x = (if x = k then Some v else get m x)"
    and set_keys: "set (keys m) = dom (get m)"
    and sorted_keys: "ok m \<Longrightarrow> sorted_wrt (<) (keys m)"
begin

lemma distinct_keys: "ok m \<Longrightarrow> distinct (keys m)"
  using sorted_keys strict_sorted_iff by blast

lemma dom_insert: "dom (get (insert k v m)) = Set.insert k (dom (get m))"
  by (auto simp: get_insert split: if_splits)

text \<open>The same value stored under every key of a list: a \<open>for\<close> loop of insertions.\<close>

lemma get_insert_all:
  "get (fold (\<lambda>k. insert k v) ks m) x = (if x \<in> set ks then Some v else get m x)"
  by (induction ks arbitrary: m) (auto simp: get_insert)

lemma ok_insert_all: "ok m \<Longrightarrow> ok (fold (\<lambda>k. insert k v) ks m)"
  by (induction ks arbitrary: m) (auto simp: ok_insert)

lemma dom_insert_all: "dom (get (fold (\<lambda>k. insert k v) ks m)) = set ks \<union> dom (get m)"
  by (auto simp: get_insert_all split: if_splits)

end

type_synonym ('k, 'v) bmap = "('k \<times> 'v) list"

definition bm_ok :: "('k::linorder, 'v) bmap \<Rightarrow> bool" where
  "bm_ok m \<longleftrightarrow> sorted_wrt (<) (map fst m)"

definition bm_get :: "('k, 'v) bmap \<Rightarrow> 'k \<Rightarrow> 'v option" where
  "bm_get m k = map_of m k"

definition bm_keys :: "('k, 'v) bmap \<Rightarrow> 'k list" where
  "bm_keys m = map fst m"

fun bm_insert :: "'k::linorder \<Rightarrow> 'v \<Rightarrow> ('k, 'v) bmap \<Rightarrow> ('k, 'v) bmap" where
  "bm_insert k v [] = [(k, v)]"
| "bm_insert k v ((a, b) # m) =
     (if k < a then (k, v) # (a, b) # m
      else if k = a then (k, v) # m
      else (a, b) # bm_insert k v m)"

definition bm_of_list :: "('k::linorder \<times> 'v) list \<Rightarrow> ('k, 'v) bmap" where
  "bm_of_list ps = foldl (\<lambda>m (k, v). bm_insert k v m) [] ps"

text \<open>Indexing with \<open>map[key]\<close> panics on an absent key.\<close>

definition bm_index :: "('k, 'v) bmap \<Rightarrow> 'k \<Rightarrow> ('e fault, 'v) result" where
  "bm_index m k = expect ''no entry found for key'' (bm_get m k)"

lemma set_keys_bm_insert: "set (map fst (bm_insert k v m)) = Set.insert k (set (map fst m))"
  by (induction k v m rule: bm_insert.induct) auto

lemma bm_ok_insert: "bm_ok m \<Longrightarrow> bm_ok (bm_insert k v m)"
proof (induction k v m rule: bm_insert.induct)
  case (2 k v a b m)
  then show ?case
    using set_keys_bm_insert [of k v m] unfolding bm_ok_def by auto
qed (simp add: bm_ok_def)

lemma bm_get_insert: "bm_get (bm_insert k v m) x = (if x = k then Some v else bm_get m x)"
  by (induction k v m rule: bm_insert.induct) (auto simp: bm_get_def)

interpretation bmap: ordered_map "[] :: ('k::linorder \<times> 'v) list" bm_insert bm_get bm_keys bm_ok
proof unfold_locales
  show "set (bm_keys m) = dom (bm_get m)" for m :: "('k \<times> 'v) list"
    by (auto simp: bm_keys_def bm_get_def [abs_def] dom_map_of_conv_image_fst)
qed (simp_all add: bm_ok_insert bm_get_insert, simp_all add: bm_ok_def bm_get_def bm_keys_def)

lemma bm_index_Some [simp]: "bm_get m k = Some v \<Longrightarrow> bm_index m k = Ok v"
  by (simp add: bm_index_def)

lemma bm_index_Ok: "bm_index m k = Ok v \<longleftrightarrow> bm_get m k = Some v"
  by (simp add: bm_index_def)

lemma bm_get_in: "bm_ok m \<Longrightarrow> (k, v) \<in> set m \<longleftrightarrow> bm_get m k = Some v"
  unfolding bm_ok_def bm_get_def
  by (metis map_of_eq_Some_iff strict_sorted_iff)

lemma bm_get_keys: "(k :: 'k::linorder) \<in> set (bm_keys m) \<longleftrightarrow> (\<exists>v. bm_get m k = Some v)"
  using bmap.set_keys [of m] by auto

text \<open>Two ordered maps with the same lookups are the same list, so structural equality is map equality.\<close>

lemma bm_eqI:
  assumes "bm_ok m" "bm_ok m'" "\<And>k. bm_get m k = bm_get m' k"
  shows "m = m'"
proof -
  have "set m = set m'"
    using assms bm_get_in by (metis subrelI subset_antisym)
  moreover have "sorted (map fst m)" "sorted (map fst m')" "distinct (map fst m)" "distinct (map fst m')"
    using assms strict_sorted_iff unfolding bm_ok_def by blast+
  ultimately show ?thesis
    by (intro map_sorted_distinct_set_unique [of fst]) (auto simp: distinct_map)
qed

section \<open>Ordered sets\<close>

locale ordered_set =
  fixes empty :: "'s"
    and insert :: "'k::linorder \<Rightarrow> 's \<Rightarrow> 's"
    and inter :: "'s \<Rightarrow> 's \<Rightarrow> 's"
    and elems :: "'s \<Rightarrow> 'k list"
    and ok :: "'s \<Rightarrow> bool"
  assumes ok_empty: "ok empty"
    and ok_insert: "ok s \<Longrightarrow> ok (insert k s)"
    and ok_inter: "ok s \<Longrightarrow> ok (inter s t)"
    and elems_empty: "elems empty = []"
    and set_insert: "set (elems (insert k s)) = Set.insert k (set (elems s))"
    and set_inter: "set (elems (inter s t)) = set (elems s) \<inter> set (elems t)"
    and sorted_elems: "ok s \<Longrightarrow> sorted_wrt (<) (elems s)"
    and elems_inject: "elems s = elems t \<Longrightarrow> s = t"
begin

lemma distinct_elems: "ok s \<Longrightarrow> distinct (elems s)"
  using sorted_elems strict_sorted_iff by blast

lemma eqI: "ok s \<Longrightarrow> ok t \<Longrightarrow> set (elems s) = set (elems t) \<Longrightarrow> s = t"
  by (intro elems_inject) (meson sorted_elems strict_sorted_equal)

lemma length_elems: "ok s \<Longrightarrow> length (elems s) = card (set (elems s))"
  by (simp add: distinct_card distinct_elems)

text \<open>
  The comparison the constraint propagation makes: a set narrowed by an intersection has changed
  exactly when its size has.
\<close>

lemma length_eq_subset:
  "ok s \<Longrightarrow> ok t \<Longrightarrow> set (elems t) \<subseteq> set (elems s) \<Longrightarrow> length (elems s) = length (elems t) \<longleftrightarrow> s = t"
  by (metis List.finite_set card_subset_eq eqI length_elems)

lemma length_subset:
  "ok s \<Longrightarrow> ok t \<Longrightarrow> set (elems t) \<subseteq> set (elems s) \<Longrightarrow> length (elems t) \<le> length (elems s)"
  by (simp add: card_mono length_elems)

end

type_synonym 'k bset = "'k list"

definition bs_ok :: "'k::linorder bset \<Rightarrow> bool" where
  "bs_ok s \<longleftrightarrow> sorted_wrt (<) s"

fun bs_insert :: "'k::linorder \<Rightarrow> 'k bset \<Rightarrow> 'k bset" where
  "bs_insert k [] = [k]"
| "bs_insert k (a # s) = (if k < a then k # a # s else if k = a then a # s else a # bs_insert k s)"

definition bs_of_list :: "'k::linorder list \<Rightarrow> 'k bset" where
  "bs_of_list ks = fold bs_insert ks []"

text \<open>\<open>intersection\<close> iterates over the first set, and its result is collected into a new set.\<close>

definition bs_inter :: "'k::linorder bset \<Rightarrow> 'k bset \<Rightarrow> 'k bset" where
  "bs_inter s t = bs_of_list (filter (\<lambda>k. k \<in> set t) s)"

lemma set_bs_insert [simp]: "set (bs_insert k s) = Set.insert k (set s)"
  by (induction s) auto

lemma bs_ok_insert: "bs_ok s \<Longrightarrow> bs_ok (bs_insert k s)"
  by (induction s) (auto simp: bs_ok_def)

lemma set_fold_bs_insert: "set (fold bs_insert ks s) = set ks \<union> set s"
  by (induction ks arbitrary: s) auto

lemma set_bs_of_list [simp]: "set (bs_of_list ks) = set ks"
  by (simp add: bs_of_list_def set_fold_bs_insert)

lemma bs_ok_fold: "bs_ok s \<Longrightarrow> bs_ok (fold bs_insert ks s)"
  by (induction ks arbitrary: s) (auto simp: bs_ok_insert)

lemma bs_ok_of_list [simp, intro]: "bs_ok (bs_of_list ks)"
  unfolding bs_of_list_def by (rule bs_ok_fold) (simp add: bs_ok_def)

lemma set_bs_inter [simp]: "set (bs_inter s t) = set s \<inter> set t"
  by (auto simp: bs_inter_def)

lemma bs_ok_inter [simp, intro]: "bs_ok (bs_inter s t)"
  by (simp add: bs_inter_def)

interpretation bset: ordered_set "[] :: 'k::linorder list" bs_insert bs_inter "\<lambda>s. s" bs_ok
  by unfold_locales (auto simp: bs_ok_insert, auto simp: bs_ok_def)

lemma length_bs_ok: "bs_ok s \<Longrightarrow> length s = card (set s)"
  by (rule bset.length_elems)

lemma length_bs_subset: "bs_ok s \<Longrightarrow> set s \<subseteq> set t \<Longrightarrow> length s \<le> length t"
  by (metis List.finite_set card_length card_mono le_trans length_bs_ok)

text \<open>\<open>entry\<close> with \<open>or_default\<close>: an update of the value under a key that starts from a default.\<close>

definition bm_entry :: "'v \<Rightarrow> 'k::linorder \<Rightarrow> ('v \<Rightarrow> 'v) \<Rightarrow> ('k, 'v) bmap \<Rightarrow> ('k, 'v) bmap" where
  "bm_entry d k f m = bm_insert k (f (case bm_get m k of Some v \<Rightarrow> v | None \<Rightarrow> d)) m"

lemma bm_get_entry:
  "bm_get (bm_entry d k f m) x =
     (if x = k then Some (f (case bm_get m k of Some v \<Rightarrow> v | None \<Rightarrow> d)) else bm_get m x)"
  by (simp add: bm_entry_def bm_get_insert)

lemma bm_ok_entry: "bm_ok m \<Longrightarrow> bm_ok (bm_entry d k f m)"
  by (simp add: bm_entry_def bm_ok_insert)

end
