(* ===== verification/Wire.thy ===== *)
theory Wire
  imports BTree
begin

text \<open>
  Go slices and maps on a JSON boundary (\<open>ployz-pkg-api/src/wire.rs\<close>). Both carry the flag that
  tells a \<open>nil\<close> collection from an empty one. The JSON boundary is the optional collection that
  the serialiser writes (\<open>None\<close> is \<open>null\<close>) and the deserialiser reads.
\<close>

section \<open>Slices\<close>

record 'a goslice =
  gs_nil :: bool
  gs_values :: "'a list"

definition gs_default :: "'a goslice" where
  "gs_default = \<lparr>gs_nil = True, gs_values = []\<rparr>"

definition gs_is_empty :: "'a goslice \<Rightarrow> bool" where
  "gs_is_empty s \<longleftrightarrow> gs_values s = []"

definition gs_make_non_nil :: "'a goslice \<Rightarrow> 'a goslice" where
  "gs_make_non_nil s = s\<lparr>gs_nil := False\<rparr>"

definition gs_from :: "'a list \<Rightarrow> 'a goslice" where
  "gs_from xs = \<lparr>gs_nil = False, gs_values = xs\<rparr>"

text \<open>Any mutable access through \<open>deref_mut\<close> clears the flag, whatever the access does.\<close>

definition gs_modify :: "('a list \<Rightarrow> 'a list) \<Rightarrow> 'a goslice \<Rightarrow> 'a goslice" where
  "gs_modify f s = \<lparr>gs_nil = False, gs_values = f (gs_values s)\<rparr>"

definition gs_serialize :: "'a goslice \<Rightarrow> 'a list option" where
  "gs_serialize s = (if gs_nil s then None else Some (gs_values s))"

definition gs_deserialize :: "'a list option \<Rightarrow> 'a goslice" where
  "gs_deserialize v = (case v of Some xs \<Rightarrow> \<lparr>gs_nil = False, gs_values = xs\<rparr> | None \<Rightarrow> gs_default)"

section \<open>Maps\<close>

record ('k, 'v) gomap =
  gm_nil :: bool
  gm_values :: "('k, 'v) bmap"

definition gm_default :: "('k, 'v) gomap" where
  "gm_default = \<lparr>gm_nil = True, gm_values = []\<rparr>"

definition gm_is_empty :: "('k, 'v) gomap \<Rightarrow> bool" where
  "gm_is_empty m \<longleftrightarrow> gm_values m = []"

definition gm_make_non_nil :: "('k, 'v) gomap \<Rightarrow> ('k, 'v) gomap" where
  "gm_make_non_nil m = m\<lparr>gm_nil := False\<rparr>"

definition gm_from :: "('k, 'v) bmap \<Rightarrow> ('k, 'v) gomap" where
  "gm_from b = \<lparr>gm_nil = False, gm_values = b\<rparr>"

definition gm_from_iter :: "('k::linorder \<times> 'v) list \<Rightarrow> ('k, 'v) gomap" where
  "gm_from_iter ps = \<lparr>gm_nil = False, gm_values = bm_of_list ps\<rparr>"

definition gm_modify :: "(('k, 'v) bmap \<Rightarrow> ('k, 'v) bmap) \<Rightarrow> ('k, 'v) gomap \<Rightarrow> ('k, 'v) gomap" where
  "gm_modify f m = \<lparr>gm_nil = False, gm_values = f (gm_values m)\<rparr>"

definition gm_get :: "('k, 'v) gomap \<Rightarrow> 'k \<Rightarrow> 'v option" where
  "gm_get m k = bm_get (gm_values m) k"

definition gm_serialize :: "('k, 'v) gomap \<Rightarrow> ('k, 'v) bmap option" where
  "gm_serialize m = (if gm_nil m then None else Some (gm_values m))"

definition gm_deserialize :: "('k, 'v) bmap option \<Rightarrow> ('k, 'v) gomap" where
  "gm_deserialize v = (case v of Some b \<Rightarrow> \<lparr>gm_nil = False, gm_values = b\<rparr> | None \<Rightarrow> gm_default)"

text \<open>An uninterpreted JSON value, as the code carries it; a number by its text.\<close>

datatype json =
  JNull
| JBool bool
| JNumber string
| JString string
| JArray "json list"
| JObject "(string \<times> json) list"

section \<open>Invariant and round trip\<close>

text \<open>A \<open>nil\<close> collection has no elements: every constructor and every access keeps it so.\<close>

definition gs_ok :: "'a goslice \<Rightarrow> bool" where
  "gs_ok s \<longleftrightarrow> (if gs_nil s then gs_values s = [] else True)"

definition gm_ok :: "('k::linorder, 'v) gomap \<Rightarrow> bool" where
  "gm_ok m \<longleftrightarrow> (if gm_nil m then gm_values m = [] else bm_ok (gm_values m))"

lemmas gs_defs = gs_default_def gs_is_empty_def gs_make_non_nil_def gs_from_def gs_modify_def
  gs_serialize_def gs_deserialize_def gs_ok_def

lemmas gm_defs = gm_default_def gm_is_empty_def gm_make_non_nil_def gm_from_def gm_modify_def
  gm_from_iter_def gm_serialize_def gm_deserialize_def gm_ok_def

lemma gs_ok_intros [simp, intro]:
  "gs_ok gs_default" "gs_ok (gs_from xs)" "gs_ok (gs_make_non_nil s)" "gs_ok (gs_modify f s)"
  "gs_ok (gs_deserialize v)"
  by (auto simp: gs_defs split: option.splits)

lemma bm_ok_of_list: "bm_ok (bm_of_list ps)"
proof -
  have "bm_ok m \<Longrightarrow> bm_ok (foldl (\<lambda>m (k, v). bm_insert k v m) m ps)" for m
    by (induction ps arbitrary: m) (auto simp: bmap.ok_insert)
  then show ?thesis by (simp add: bm_of_list_def bmap.ok_empty)
qed

lemma gm_ok_intros [simp, intro]:
  "gm_ok gm_default" "bm_ok b \<Longrightarrow> gm_ok (gm_from b)" "gm_ok (gm_from_iter ps)"
  "gm_ok m \<Longrightarrow> gm_ok (gm_make_non_nil m)"
  by (auto simp: gm_defs bm_ok_of_list bmap.ok_empty split: if_splits)

lemma gs_values_make_non_nil [simp]: "gs_values (gs_make_non_nil s) = gs_values s"
  by (simp add: gs_defs)

lemma gm_values_make_non_nil [simp]: "gm_values (gm_make_non_nil s) = gm_values s"
  by (simp add: gm_defs)

lemma gs_make_non_nil_idem [simp]: "gs_make_non_nil (gs_make_non_nil s) = gs_make_non_nil s"
  by (simp add: gs_defs)

lemma gm_make_non_nil_idem [simp]: "gm_make_non_nil (gm_make_non_nil m) = gm_make_non_nil m"
  by (simp add: gm_defs)

text \<open>
  A slice survives the JSON boundary exactly when it keeps the invariant that a \<open>nil\<close> slice has
  no elements, and every value read from the boundary keeps it and is written back unchanged; the
  same holds for maps.
\<close>

theorem go_collections_roundtrip:
  "(gs_deserialize (gs_serialize s) = s \<longleftrightarrow> gs_ok s) \<and> gs_ok (gs_deserialize v) \<and>
   gs_serialize (gs_deserialize v) = v \<and>
   (gm_deserialize (gm_serialize m) = m \<longleftrightarrow> (if gm_nil m then gm_is_empty m else True)) \<and>
   gm_serialize (gm_deserialize b) = b"
  by (cases s; cases m) (auto simp: gs_defs gm_defs split: option.splits)

end
