(* ===== verification/Api_Error.thy ===== *)
theory Api_Error
  imports Rust_Std
begin

text \<open>
  Errors of the API crate (\<open>ployz-pkg-api/src/error.rs\<close>). A message is a list of pieces, literal
  text and values under debug formatting (\<open>{:?}\<close>), whose escaping is left symbolic. The boxed
  errors of \<open>Cancelled\<close> and \<open>Operational\<close> are represented by their text. Integer parsing with its
  error kinds is here too, since the messages quote them.
\<close>

datatype piece = Lit string | Dbg string

type_synonym message = "piece list"

datatype api_error =
  NotFound
| Invalid message
| Cancelled string
| Operational string

definition invalid_lit :: "string \<Rightarrow> api_error" where
  "invalid_lit s = Invalid [Lit s]"

fun api_error_display :: "api_error \<Rightarrow> message" where
  "api_error_display NotFound = [Lit ''not found'']"
| "api_error_display (Invalid m) = m"
| "api_error_display (Cancelled e) = [Lit e]"
| "api_error_display (Operational e) = [Lit e]"

text \<open>A value between single quotes.\<close>

definition quoted :: "string \<Rightarrow> string" where
  "quoted s = [CHR 0x27] @ s @ [CHR 0x27]"

text \<open>An error wrapped by the caller: \<open>format!("{context}: {error}")\<close>.\<close>

definition in_context :: "string \<Rightarrow> api_error \<Rightarrow> api_error" where
  "in_context context e = Invalid (Lit (context @ '': '') # api_error_display e)"

section \<open>Integer parsing with error kinds\<close>

datatype int_error_kind = Empty | InvalidDigit | PosOverflow

definition int_error_display :: "int_error_kind \<Rightarrow> string" where
  "int_error_display e =
     (case e of
        Empty \<Rightarrow> ''cannot parse integer from empty string''
      | InvalidDigit \<Rightarrow> ''invalid digit found in string''
      | PosOverflow \<Rightarrow> ''number too large to fit in target type'')"

fun parse_digits :: "nat \<Rightarrow> nat \<Rightarrow> string \<Rightarrow> (int_error_kind, nat) result" where
  "parse_digits maximum acc [] = Ok acc"
| "parse_digits maximum acc (c # cs) =
     (if \<not> is_ascii_digit c then Err InvalidDigit
      else let acc' = 10 * acc + digit_val c in
        if maximum < acc' then Err PosOverflow else parse_digits maximum acc' cs)"

definition parse_int :: "nat \<Rightarrow> string \<Rightarrow> (int_error_kind, nat) result" where
  "parse_int maximum s =
     (case s of
        [] \<Rightarrow> Err Empty
      | c # cs \<Rightarrow>
          if cs = [] \<and> (c = CHR ''+'' \<or> c = CHR ''-'') then Err InvalidDigit
          else if c = CHR ''+'' then parse_digits maximum 0 cs
          else parse_digits maximum 0 s)"

lemma foldl_digits_mono: "acc \<le> foldl (\<lambda>acc c. 10 * acc + digit_val c) acc s"
proof (induction s arbitrary: acc)
  case (Cons c s)
  have "acc \<le> 10 * acc + digit_val c" by simp
  also have "\<dots> \<le> foldl (\<lambda>acc c. 10 * acc + digit_val c) (10 * acc + digit_val c) s" by (rule Cons)
  finally show ?case by simp
qed simp

lemma parse_digits_Ok:
  "acc \<le> maximum \<Longrightarrow> parse_digits maximum acc s = Ok n \<longleftrightarrow>
     list_all is_ascii_digit s \<and> n = foldl (\<lambda>acc c. 10 * acc + digit_val c) acc s \<and> n \<le> maximum"
proof (induction maximum acc s rule: parse_digits.induct)
  case (2 maximum acc c cs)
  let ?acc = "10 * acc + digit_val c"
  have "?acc \<le> foldl (\<lambda>acc c. 10 * acc + digit_val c) ?acc cs" by (rule foldl_digits_mono)
  then show ?case using 2 by (auto simp: Let_def)
qed auto

text \<open>The two views of the same library function agree on what they accept.\<close>

lemma parse_int_Ok: "parse_int maximum s = Ok n \<longleftrightarrow> parse_uint maximum s = Some n"
proof (cases s)
  case Nil
  then show ?thesis by (simp add: parse_int_def parse_uint_def)
next
  case (Cons c cs)
  have "\<not> is_ascii_digit CHR ''-''" "\<not> is_ascii_digit CHR ''+''" by (simp_all add: is_ascii_digit_def)
  then show ?thesis
    using Cons foldl_digits_mono [of "digit_val c" cs]
    by (auto simp: parse_int_def parse_uint_def Let_def parse_digits_Ok dec_val_def)
qed

lemma parse_int_bound: "parse_int maximum s = Ok n \<Longrightarrow> n \<le> maximum"
  by (auto simp: parse_int_Ok dest: parse_uint_le)

lemma parse_int_nat_to_string [simp]: "n \<le> maximum \<Longrightarrow> parse_int maximum (nat_to_string n) = Ok n"
  by (simp add: parse_int_Ok)

end
