(* ===== verification/Volume_Spec.thy ===== *)
theory Volume_Spec
  imports Wire Api_Error "HOL-Library.Product_Lexorder" "HOL-Library.Option_ord"
begin

text \<open>
  Volume specifications (\<open>ployz-pkg-api/src/volume.rs\<close>): defaults, validation, equivalence and
  matching against Docker volumes. Mounts carry the derived order of the source, as an instance of
  the linear orders of the library.
\<close>

section \<open>Data\<close>

definition VOLUME_TYPE_BIND :: string where "VOLUME_TYPE_BIND = ''bind''"
definition VOLUME_TYPE_VOLUME :: string where "VOLUME_TYPE_VOLUME = ''volume''"
definition VOLUME_TYPE_TMPFS :: string where "VOLUME_TYPE_TMPFS = ''tmpfs''"
definition VOLUME_DRIVER_LOCAL :: string where "VOLUME_DRIVER_LOCAL = ''local''"

lemmas volume_consts = VOLUME_TYPE_BIND_def VOLUME_TYPE_VOLUME_def VOLUME_TYPE_TMPFS_def
  VOLUME_DRIVER_LOCAL_def

record driver =
  drv_name :: string
  drv_options :: "(string, string) gomap"

record bind_options =
  bo_host_path :: string
  bo_create_host_path :: bool
  bo_propagation :: string
  bo_recursive :: string

record tmpfs_options =
  to_size_bytes :: int
  to_mode :: "32 word"
  to_options :: "string goslice goslice"

record volume_options =
  vo_driver :: "driver option"
  vo_labels :: "(string, string) gomap"
  vo_name :: string
  vo_no_copy :: bool
  vo_sub_path :: string

definition volume_options_default :: volume_options where
  "volume_options_default =
     \<lparr>vo_driver = None, vo_labels = gm_default, vo_name = [], vo_no_copy = False, vo_sub_path = []\<rparr>"

record volume_spec =
  vs_name :: string
  vs_kind :: string
  vs_bind_options :: "bind_options option"
  vs_tmpfs_options :: "tmpfs_options option"
  vs_volume_options :: "volume_options option"

datatype volume_mount =
  VolumeMount (vm_volume_name: string) (vm_container_path: string) (vm_read_only: bool)

text \<open>The derived order compares the fields in their order; \<open>false\<close> is below \<open>true\<close>.\<close>

definition vm_key :: "volume_mount \<Rightarrow> string \<times> string \<times> bool" where
  "vm_key m = (vm_volume_name m, vm_container_path m, vm_read_only m)"

lemma vm_key_inject [simp]: "vm_key a = vm_key b \<longleftrightarrow> a = b"
  by (cases a; cases b) (simp add: vm_key_def)

instantiation volume_mount :: linorder
begin

definition less_eq_volume_mount :: "volume_mount \<Rightarrow> volume_mount \<Rightarrow> bool" where
  "less_eq_volume_mount a b \<longleftrightarrow> vm_key a \<le> vm_key b"

definition less_volume_mount :: "volume_mount \<Rightarrow> volume_mount \<Rightarrow> bool" where
  "less_volume_mount a b \<longleftrightarrow> vm_key a < vm_key b"

instance
  by standard (auto simp: less_eq_volume_mount_def less_volume_mount_def less_le)

end

record docker_volume_usage_data =
  ud_ref_count :: int
  ud_size :: int

record docker_volume =
  dv_name :: string
  dv_created_at :: string
  dv_driver :: string
  dv_mountpoint :: string
  dv_options :: "(string, string) gomap"
  dv_labels :: "(string, string) gomap"
  dv_scope :: string
  dv_status :: "(string, json) gomap"
  dv_usage_data :: "docker_volume_usage_data option"
  dv_cluster_volume :: "json option"
  dv_extra :: "(string, json) bmap"

record machine_volume =
  mv_machine_id :: string
  mv_machine_name :: string
  mv_volume :: docker_volume

record volume_filter =
  vf_driver :: string
  vf_labels :: "(string, string) bmap"
  vf_machines :: "string list"
  vf_names :: "string list"

section \<open>Operations\<close>

definition docker_volume_name :: "volume_spec \<Rightarrow> string" where
  "docker_volume_name v =
     (if vs_kind v \<noteq> VOLUME_TYPE_VOLUME then ''''
      else (case vs_volume_options v of
              Some options \<Rightarrow> if vo_name options \<noteq> [] then vo_name options else vs_name v
            | None \<Rightarrow> vs_name v))"

definition volume_with_defaults :: "volume_spec \<Rightarrow> volume_spec" where
  "volume_with_defaults spec =
     (if vs_kind spec = VOLUME_TYPE_VOLUME then
        (let options = (case vs_volume_options spec of Some o1 \<Rightarrow> o1 | None \<Rightarrow> volume_options_default);
             options = (if vo_name options = [] then options\<lparr>vo_name := vs_name spec\<rparr> else options);
             options = (case vo_driver options of
                          Some driver \<Rightarrow>
                            if drv_name driver = []
                            then options\<lparr>vo_driver := Some (driver\<lparr>drv_name := VOLUME_DRIVER_LOCAL\<rparr>)\<rparr>
                            else options
                        | None \<Rightarrow> options)
         in spec\<lparr>vs_volume_options := Some options\<rparr>)
      else spec)"

definition volume_validate :: "volume_spec \<Rightarrow> (api_error, unit) result" where
  "volume_validate v =
     (if vs_name v = [] then Err (invalid_lit ''volume name must not be empty'')
      else if vs_kind v = VOLUME_TYPE_BIND \<and> vs_bind_options v = None
      then Err (invalid_lit ''bind volume must have bind options'')
      else if vs_kind v = VOLUME_TYPE_BIND \<or> vs_kind v = VOLUME_TYPE_VOLUME \<or> vs_kind v = VOLUME_TYPE_TMPFS
      then Ok ()
      else Err (invalid_lit (''invalid volume type: '' @ quoted (vs_kind v) @ '', must be one of '' @
             quoted ''bind'' @ '', '' @ quoted ''volume'' @ '', '' @ quoted ''tmpfs'' @ '')'')))"

definition volume_equate_empty :: "volume_spec \<Rightarrow> volume_spec" where
  "volume_equate_empty v = v\<lparr>
     vs_tmpfs_options := map_option (\<lambda>t. t\<lparr>to_options :=
        gs_modify (map gs_make_non_nil) (gs_make_non_nil (to_options t))\<rparr>) (vs_tmpfs_options v),
     vs_volume_options := map_option (\<lambda>p. p\<lparr>
        vo_labels := gm_make_non_nil (vo_labels p),
        vo_driver := map_option (\<lambda>d. d\<lparr>drv_options := gm_make_non_nil (drv_options d)\<rparr>) (vo_driver p)\<rparr>)
        (vs_volume_options v)\<rparr>"

definition volume_equivalent :: "volume_spec \<Rightarrow> volume_spec \<Rightarrow> bool" where
  "volume_equivalent a b \<longleftrightarrow>
     volume_equate_empty (volume_with_defaults a) = volume_equate_empty (volume_with_defaults b)"

definition matches_docker_volume :: "volume_spec \<Rightarrow> docker_volume \<Rightarrow> bool" where
  "matches_docker_volume v volume =
     (if vs_kind v \<noteq> VOLUME_TYPE_VOLUME then False
      else (let spec = volume_with_defaults v in
        if docker_volume_name spec \<noteq> dv_name volume then False
        else (case Option.bind (vs_volume_options spec) vo_driver of
                None \<Rightarrow> True
              | Some driver \<Rightarrow>
                  (let volume_driver = (if dv_driver volume = [] then VOLUME_DRIVER_LOCAL else dv_driver volume)
                   in drv_name driver = volume_driver \<and> drv_options driver = dv_options volume))))"

definition is_absolute :: "string \<Rightarrow> bool" where
  "is_absolute path = starts_with path ''/''"

definition mount_validate :: "volume_mount \<Rightarrow> (api_error, unit) result" where
  "mount_validate m =
     (if vm_volume_name m = [] then Err (invalid_lit ''volume name must not be empty'')
      else if \<not> is_absolute (vm_container_path m)
      then Err (invalid_lit (''invalid container path: '' @ quoted (vm_container_path m) @
             '', must be an absolute path in the container''))
      else Ok ())"

definition volume_matches_filter :: "machine_volume \<Rightarrow> volume_filter option \<Rightarrow> bool" where
  "volume_matches_filter mv flt =
     (case flt of
        None \<Rightarrow> True
      | Some f \<Rightarrow>
          (vf_names f = [] \<or> dv_name (mv_volume mv) \<in> set (vf_names f)) \<and>
          (vf_driver f = [] \<or> vf_driver f = dv_driver (mv_volume mv)) \<and>
          list_all (\<lambda>(key, value). gm_get (dv_labels (mv_volume mv)) key = Some value) (vf_labels f) \<and>
          (vf_machines f = [] \<or>
           list_ex (\<lambda>value. value = mv_machine_id mv \<or> value = mv_machine_name mv) (vf_machines f)))"

section \<open>Properties\<close>

lemma volume_defaults_keep [simp]:
  "vs_name (volume_with_defaults v) = vs_name v" "vs_kind (volume_with_defaults v) = vs_kind v"
  "vs_bind_options (volume_with_defaults v) = vs_bind_options v"
  by (simp_all add: volume_with_defaults_def Let_def)

lemma volume_equate_keep [simp]:
  "vs_name (volume_equate_empty v) = vs_name v" "vs_kind (volume_equate_empty v) = vs_kind v"
  "vs_bind_options (volume_equate_empty v) = vs_bind_options v"
  "map_option vo_name (vs_volume_options (volume_equate_empty v)) = map_option vo_name (vs_volume_options v)"
  by (simp_all add: volume_equate_empty_def option.map_comp comp_def)

lemma volume_with_defaults_idem [simp]: "volume_with_defaults (volume_with_defaults v) = volume_with_defaults v"
  by (cases v) (auto simp: volume_with_defaults_def Let_def volume_consts split: option.splits)

lemma docker_volume_name_equate [simp]: "docker_volume_name (volume_equate_empty v) = docker_volume_name v"
  by (auto simp: docker_volume_name_def volume_equate_empty_def split: option.splits)

lemma docker_volume_name_defaults [simp]: "docker_volume_name (volume_with_defaults v) = docker_volume_name v"
  by (auto simp: docker_volume_name_def volume_with_defaults_def Let_def volume_options_default_def
      split: option.splits)

lemma volume_validate_Ok:
  "volume_validate v = Ok () \<longleftrightarrow>
     vs_name v \<noteq> [] \<and>
     (vs_kind v = ''volume'' \<or> vs_kind v = ''tmpfs'' \<or> vs_kind v = ''bind'' \<and> vs_bind_options v \<noteq> None)"
  by (auto simp: volume_validate_def volume_consts)

text \<open>
  Filling in defaults is idempotent and does not leave the equivalence class of a volume
  specification, and equivalent specifications name the same Docker volume and are accepted by the
  same validation. Equivalence ignores the difference between a \<open>nil\<close> and an empty collection.
\<close>

theorem volume_equivalence:
  "volume_with_defaults (volume_with_defaults v) = volume_with_defaults v \<and>
   volume_equivalent v (volume_with_defaults v) \<and>
   volume_equivalent v (volume_equate_empty (volume_with_defaults v)) \<and>
   (volume_equivalent v w \<longrightarrow>
      docker_volume_name v = docker_volume_name w \<and>
      is_ok (volume_validate v) = is_ok (volume_validate w))"
proof -
  let ?c = "\<lambda>v. volume_equate_empty (volume_with_defaults v)"
  have "volume_with_defaults (?c v) = ?c v"
    by (auto simp: volume_with_defaults_def volume_equate_empty_def volume_consts Let_def
        volume_options_default_def split: option.splits)
  moreover have "volume_equate_empty (?c v) = ?c v"
    by (simp add: volume_equate_empty_def option.map_comp comp_def gs_modify_def)
  moreover have "docker_volume_name v = docker_volume_name w \<and>
      is_ok (volume_validate v) = is_ok (volume_validate w)" if "?c v = ?c w"
  proof
    have "docker_volume_name (?c v) = docker_volume_name (?c w)" by (simp only: that)
    then show "docker_volume_name v = docker_volume_name w" by simp
    have "vs_name (?c v) = vs_name (?c w)" "vs_kind (?c v) = vs_kind (?c w)"
      "vs_bind_options (?c v) = vs_bind_options (?c w)" by (simp_all only: that)
    then show "is_ok (volume_validate v) = is_ok (volume_validate w)"
      by (simp add: volume_validate_def)
  qed
  ultimately show ?thesis by (simp add: volume_equivalent_def)
qed

theorem volume_equivalence_witness:
  "let v = \<lparr>vs_name = ''data'', vs_kind = ''volume'', vs_bind_options = None, vs_tmpfs_options = None,
            vs_volume_options = None\<rparr>
   in volume_equivalent v (volume_with_defaults v) \<and>
      docker_volume_name v = docker_volume_name (volume_with_defaults v)"
  unfolding Let_def
  using volume_equivalence [of "\<lparr>vs_name = ''data'', vs_kind = ''volume'', vs_bind_options = None,
            vs_tmpfs_options = None, vs_volume_options = None\<rparr>"] by blast

end
