(* ===== verification/Config_Spec.thy ===== *)
theory Config_Spec
  imports Volume_Spec
begin

text \<open>
  Configuration files of a service and their mounts (\<open>ployz-pkg-api/src/config.rs\<close>): numeric user
  and group identifiers, validation, and the joint validation of configurations with their mounts.
\<close>

record config_spec =
  cs_name :: string
  cs_content :: "8 word list"

datatype config_mount =
  ConfigMount (cm_config_name: string) (cm_container_path: string) (cm_uid: string) (cm_gid: string)
    (cm_mode: "32 word option")

text \<open>The order of the source compares the tuple of the fields.\<close>

definition cm_key :: "config_mount \<Rightarrow> string \<times> string \<times> string \<times> string \<times> nat option" where
  "cm_key m = (cm_config_name m, cm_container_path m, cm_uid m, cm_gid m, map_option unat (cm_mode m))"

lemma cm_key_inject [simp]: "cm_key a = cm_key b \<longleftrightarrow> a = b"
proof
  assume "cm_key a = cm_key b"
  then have "map_option unat (cm_mode a) = map_option unat (cm_mode b)"
    and rest: "cm_config_name a = cm_config_name b" "cm_container_path a = cm_container_path b"
      "cm_uid a = cm_uid b" "cm_gid a = cm_gid b"
    by (simp_all add: cm_key_def)
  then have "cm_mode a = cm_mode b"
    using unat_eqD by (cases "cm_mode a"; cases "cm_mode b") auto
  with rest show "a = b" by (cases a; cases b) simp
qed simp

instantiation config_mount :: linorder
begin

definition less_eq_config_mount :: "config_mount \<Rightarrow> config_mount \<Rightarrow> bool" where
  "less_eq_config_mount a b \<longleftrightarrow> cm_key a \<le> cm_key b"

definition less_config_mount :: "config_mount \<Rightarrow> config_mount \<Rightarrow> bool" where
  "less_config_mount a b \<longleftrightarrow> cm_key a < cm_key b"

instance
  by standard (auto simp: less_eq_config_mount_def less_config_mount_def less_le)

end

definition config_validate :: "config_spec \<Rightarrow> (api_error, unit) result" where
  "config_validate c =
     (if cs_name c = [] then Err (invalid_lit ''config name is required'') else Ok ())"

definition U64_MAX :: nat where "U64_MAX = 2 ^ 64 - 1"
definition ISIZE_MAX :: nat where "ISIZE_MAX = 2 ^ 63 - 1"

definition parse_numeric_id :: "string \<Rightarrow> string \<Rightarrow> (api_error, nat option) result" where
  "parse_numeric_id field value =
     (if value = [] then Ok None
      else rbind (map_err (\<lambda>e. invalid_lit (''invalid '' @ field @ '' '' @ quoted value @ '': '' @ int_error_display e))
                    (parse_int U64_MAX value)) (\<lambda>parsed.
        if ISIZE_MAX < parsed
        then Err (invalid_lit (''invalid '' @ field @ '' '' @ quoted value @ '': value too high''))
        else Ok (Some parsed)))"

definition numeric_uid :: "config_mount \<Rightarrow> (api_error, nat option) result" where
  "numeric_uid m = parse_numeric_id ''Uid'' (cm_uid m)"

definition numeric_gid :: "config_mount \<Rightarrow> (api_error, nat option) result" where
  "numeric_gid m = parse_numeric_id ''Gid'' (cm_gid m)"

definition config_mount_validate :: "config_mount \<Rightarrow> (api_error, unit) result" where
  "config_mount_validate m =
     (if cm_config_name m = [] then Err (invalid_lit ''config mount source is required'')
      else
        rbind (numeric_uid m) (\<lambda>_.
        rbind (numeric_gid m) (\<lambda>_.
        if cm_container_path m \<noteq> [] \<and> \<not> is_absolute (cm_container_path m)
        then Err (invalid_lit ''container path must be absolute'')
        else Ok ())))"

text \<open>The first loop collects the names it has seen; the second checks the mounts against them.\<close>

fun validate_config_names :: "string list \<Rightarrow> config_spec list \<Rightarrow> (api_error, string list) result" where
  "validate_config_names names [] = Ok names"
| "validate_config_names names (config # configs) =
     rbind (map_err (in_context ''invalid config'') (config_validate config)) (\<lambda>_.
     if cs_name config \<in> set names
     then Err (invalid_lit (''duplicate config name: '' @ quoted (cs_name config)))
     else validate_config_names (cs_name config # names) configs)"

definition validate_configs_and_mounts :: "config_spec list \<Rightarrow> config_mount list \<Rightarrow> (api_error, unit) result" where
  "validate_configs_and_mounts configs mounts =
     rbind (validate_config_names [] configs) (\<lambda>names.
     for_each (\<lambda>mount.
       rbind (map_err (in_context ''invalid config mount'') (config_mount_validate mount)) (\<lambda>_.
       if cm_config_name mount \<notin> set names
       then Err (invalid_lit (''config mount source '' @ quoted (cm_config_name mount) @
              '' does not refer to any defined config''))
       else Ok ())) mounts)"

section \<open>Properties\<close>

lemma validate_config_names_Ok:
  "validate_config_names names configs = Ok names' \<longleftrightarrow>
     names' = rev (map cs_name configs) @ names \<and> list_all (\<lambda>c. cs_name c \<noteq> []) configs \<and>
     distinct (map cs_name configs) \<and> set (map cs_name configs) \<inter> set names = {}"
  by (induction names configs rule: validate_config_names.induct)
    (auto simp: result_simps config_validate_def)

lemma parse_numeric_id_ok:
  "is_ok (parse_numeric_id field value) \<longleftrightarrow> value = [] \<or> parse_uint ISIZE_MAX value \<noteq> None"
proof -
  have "parse_uint ISIZE_MAX value = Some n \<longleftrightarrow> parse_uint U64_MAX value = Some n \<and> n \<le> ISIZE_MAX" for n
    by (auto simp: parse_uint_def Let_def U64_MAX_def ISIZE_MAX_def split: if_splits)
  then show ?thesis
    by (auto simp: parse_numeric_id_def is_ok_iff rbind_eq_Ok parse_int_Ok not_less)
qed

definition config_mount_ok :: "config_mount \<Rightarrow> bool" where
  "config_mount_ok m \<longleftrightarrow>
     cm_config_name m \<noteq> [] \<and> (cm_uid m = [] \<or> parse_uint ISIZE_MAX (cm_uid m) \<noteq> None) \<and>
     (cm_gid m = [] \<or> parse_uint ISIZE_MAX (cm_gid m) \<noteq> None) \<and>
     (cm_container_path m = [] \<or> is_absolute (cm_container_path m))"

lemma config_mount_validate_Ok: "config_mount_validate m = Ok () \<longleftrightarrow> config_mount_ok m"
  using parse_numeric_id_ok [of "''Uid''" "cm_uid m"] parse_numeric_id_ok [of "''Gid''" "cm_gid m"]
  by (auto simp: config_mount_validate_def config_mount_ok_def rbind_eq_Ok numeric_uid_def
      numeric_gid_def is_ok_iff)

lemma validate_configs_and_mounts_Ok:
  "validate_configs_and_mounts configs mounts = Ok () \<longleftrightarrow>
     list_all (\<lambda>c. cs_name c \<noteq> []) configs \<and> distinct (map cs_name configs) \<and>
     list_all (\<lambda>m. config_mount_ok m \<and> cm_config_name m \<in> set (map cs_name configs)) mounts"
  by (auto simp: validate_configs_and_mounts_def result_simps validate_config_names_Ok
      config_mount_validate_Ok list_all_iff)

end
