(* ===== verification/Address.thy ===== *)
theory Address
  imports Rust_Std
begin

text \<open>
  IP addresses of \<open>std::net\<close> and the address helpers of the protobuf crate
  (\<open>ployz-internal-machine-api-pb/src/lib.rs\<close>): binary addresses with an IPv6 zone, address and
  port pairs, prefixes, and the validation of a network configuration. An address is the word
  that \<open>u32::from\<close> and \<open>u128::from\<close> return; a message is a record with the fields of its schema;
  an absent nested message, on which the code panics, is the error \<open>Panic\<close>.
\<close>

section \<open>Addresses\<close>

datatype ip_addr = V4 "32 word" | V6 "128 word"

definition is_ipv4 :: "ip_addr \<Rightarrow> bool" where
  "is_ipv4 a = (case a of V4 _ \<Rightarrow> True | V6 _ \<Rightarrow> False)"

definition is_ipv6 :: "ip_addr \<Rightarrow> bool" where
  "is_ipv6 a = (case a of V4 _ \<Rightarrow> False | V6 _ \<Rightarrow> True)"

text \<open>Big-endian bytes, as \<open>octets\<close> and \<open>from\<close> of the address types convert them.\<close>

definition be_bytes :: "nat \<Rightarrow> 'a::len word \<Rightarrow> 8 word list" where
  "be_bytes n w = map (\<lambda>i. ucast (drop_bit (8 * (n - Suc i)) w)) [0..<n]"

definition be_word :: "8 word list \<Rightarrow> 'a::len word" where
  "be_word bs = foldl (\<lambda>acc b. push_bit 8 acc OR ucast b) 0 bs"

definition octets :: "ip_addr \<Rightarrow> 8 word list" where
  "octets a = (case a of V4 w \<Rightarrow> be_bytes 4 w | V6 w \<Rightarrow> be_bytes 16 w)"

lemma is_ip_simps [simp]:
  "is_ipv4 (V4 a)" "\<not> is_ipv4 (V6 b)" "\<not> is_ipv6 (V4 a)" "is_ipv6 (V6 b)"
  by (simp_all add: is_ipv4_def is_ipv6_def)

lemma length_be_bytes [simp]: "length (be_bytes n w) = n"
  by (simp add: be_bytes_def)

lemma be_bytes_eq_Nil [simp]: "be_bytes n w = [] \<longleftrightarrow> n = 0"
  by (simp add: be_bytes_def)

lemma length_octets: "length (octets a) = (if is_ipv4 a then 4 else 16)"
  by (cases a) (simp_all add: octets_def)

lemma be_bytes_Suc: "be_bytes (Suc n) w = be_bytes n (drop_bit 8 w) @ [ucast w]"
  for w :: "'a::len word"
proof -
  have "ucast (drop_bit (8 * (Suc n - Suc i)) w) = (ucast (drop_bit (8 * (n - Suc i)) (drop_bit 8 w)) :: 8 word)"
    if "i < n" for i
  proof -
    from that have "Suc n - Suc i = Suc (n - Suc i)" by simp
    then show ?thesis by (simp add: ac_simps)
  qed
  then show ?thesis by (simp add: be_bytes_def)
qed

lemma be_word_snoc: "be_word (bs @ [b]) = push_bit 8 (be_word bs) OR ucast b"
  by (simp add: be_word_def)

lemma drop_ucast_recombine: "push_bit 8 (drop_bit 8 w) OR ucast (ucast w :: 8 word) = w"
  for w :: "'a::len word"
  by (rule bit_word_eqI) (auto simp: bit_simps)

lemma be_word_be_bytes:
  "be_word (be_bytes n w) = (take_bit (8 * n) w :: 'a::len word)"
proof (induction n arbitrary: w)
  case 0
  then show ?case by (simp add: be_bytes_def be_word_def)
next
  case (Suc n)
  have "be_word (be_bytes (Suc n) w) = push_bit 8 (take_bit (8 * n) (drop_bit 8 w)) OR ucast (ucast w :: 8 word)"
    by (simp add: be_bytes_Suc be_word_snoc Suc.IH)
  also have "\<dots> = take_bit (8 * Suc n) w"
    by (rule bit_word_eqI) (auto simp: bit_simps)
  finally show ?case .
qed

lemma be_word_be_bytes_4 [simp]: "be_word (be_bytes 4 w) = (w :: 32 word)"
  by (simp add: be_word_be_bytes take_bit_word_eq_self)

lemma be_word_be_bytes_16 [simp]: "be_word (be_bytes 16 w) = (w :: 128 word)"
  by (simp add: be_word_be_bytes take_bit_word_eq_self)

lemma bit_be_word_bound: "bit (be_word bs :: 'a::len word) k \<Longrightarrow> k < 8 * length bs"
proof (induction bs arbitrary: k rule: rev_induct)
  case Nil
  then show ?case by (simp add: be_word_def)
next
  case (snoc b bs)
  from snoc.prems consider "8 \<le> k" "bit (be_word bs :: 'a word) (k - 8)" | "bit b k"
    by (auto simp: be_word_snoc bit_simps)
  then show ?case
  proof cases
    case 1
    with snoc.IH [of "k - 8"] show ?thesis by simp
  next
    case 2
    then show ?thesis using bit_imp_le_length [of b k] by simp
  qed
qed

lemma be_bytes_be_word:
  "8 * length bs \<le> LENGTH('a) \<Longrightarrow> be_bytes (length bs) (be_word bs :: 'a::len word) = bs"
proof (induction bs rule: rev_induct)
  case Nil
  then show ?case by (simp add: be_bytes_def)
next
  case (snoc b bs)
  have low: "ucast (be_word (bs @ [b]) :: 'a word) = b"
    using snoc.prems by (intro bit_word_eqI) (auto simp: be_word_snoc bit_simps)
  have high: "drop_bit 8 (be_word (bs @ [b]) :: 'a word) = be_word bs"
    using snoc.prems
    by (intro bit_word_eqI)
      (auto simp: be_word_snoc bit_simps dest: bit_imp_le_length bit_be_word_bound)
  show ?case
    using snoc low high by (simp add: be_bytes_Suc)
qed

section \<open>Address values of the protobuf crate\<close>

text \<open>\<open>Address\<close>: a Go \<open>netip.Addr\<close>, an IP with the bytes of an IPv6 zone.\<close>

record address =
  addr_ip :: ip_addr
  addr_zone :: "8 word list"

definition address_scoped :: "128 word \<Rightarrow> 8 word list \<Rightarrow> address" where
  "address_scoped ip zone = \<lparr>addr_ip = V6 ip, addr_zone = zone\<rparr>"

definition address_from_ip :: "ip_addr \<Rightarrow> address" where
  "address_from_ip ip = \<lparr>addr_ip = ip, addr_zone = []\<rparr>"

datatype address_error = InvalidIp | UnexpectedSliceSize | InvalidPrefix | ScopedIp

definition address_error_display :: "address_error \<Rightarrow> string" where
  "address_error_display e =
     (case e of
        InvalidIp \<Rightarrow> ''invalid IP''
      | UnexpectedSliceSize \<Rightarrow> ''unmarshal IP: unexpected slice size''
      | InvalidPrefix \<Rightarrow> ''invalid prefix''
      | ScopedIp \<Rightarrow> ''scoped IP has no std::net representation'')"

definition address_to_std :: "address \<Rightarrow> (address_error, ip_addr) result" where
  "address_to_std a = (if addr_zone a = [] then Ok (addr_ip a) else Err ScopedIp)"

record addr_port =
  ap_address :: address
  ap_port :: "16 word"

definition addr_port_to_std :: "addr_port \<Rightarrow> (address_error, ip_addr \<times> 16 word) result" where
  "addr_port_to_std ap = rbind (address_to_std (ap_address ap)) (\<lambda>ip. Ok (ip, ap_port ap))"

definition addr_port_from_socket :: "ip_addr \<times> 16 word \<Rightarrow> addr_port" where
  "addr_port_from_socket sock = \<lparr>ap_address = address_from_ip (fst sock), ap_port = snd sock\<rparr>"

text \<open>
  The constructors of the crate give a zone to IPv6 addresses only; this is the type invariant of
  \<open>Address\<close>.
\<close>

definition address_ok :: "address \<Rightarrow> bool" where
  "address_ok a \<longleftrightarrow> (addr_zone a = [] \<or> is_ipv6 (addr_ip a))"

lemma address_ok_constructors [simp]:
  "address_ok (address_scoped ip zone)" "address_ok (address_from_ip ip')"
  by (simp_all add: address_ok_def address_scoped_def address_from_ip_def)

section \<open>Protobuf messages\<close>

record pb_ip =
  pb_ip_bytes :: "8 word list"

record pb_ip_port =
  pb_port_ip :: "pb_ip option"
  pb_port_port :: "32 word"

record pb_ip_prefix =
  pb_prefix_ip :: "pb_ip option"
  pb_prefix_bits :: "32 word"

record network_config =
  nc_subnet :: "pb_ip_prefix option"
  nc_management_ip :: "pb_ip option"
  nc_endpoints :: "pb_ip_port list"
  nc_public_key :: "8 word list"

definition ip_new :: "address \<Rightarrow> pb_ip" where
  "ip_new a = \<lparr>pb_ip_bytes = octets (addr_ip a) @ addr_zone a\<rparr>"

definition to_addr :: "pb_ip \<Rightarrow> (address_error, address) result" where
  "to_addr m =
     (let bytes = pb_ip_bytes m in
      if bytes = [] then Err InvalidIp
      else if length bytes = 4 then Ok (address_from_ip (V4 (be_word bytes)))
      else if length bytes = 16 then Ok (address_from_ip (V6 (be_word bytes)))
      else if 16 < length bytes then
        Ok \<lparr>addr_ip = V6 (be_word (take 16 bytes)), addr_zone = drop 16 bytes\<rparr>
      else Err UnexpectedSliceSize)"

definition ip_port_new :: "addr_port \<Rightarrow> pb_ip_port" where
  "ip_port_new ap =
     \<lparr>pb_port_ip = Some (ip_new (ap_address ap)), pb_port_port = ucast (ap_port ap)\<rparr>"

definition to_addr_port :: "pb_ip_port \<Rightarrow> (address_error fault, addr_port) result" where
  "to_addr_port m =
     rbind (expect ''IP not set'' (pb_port_ip m)) (\<lambda>ip.
     rbind (map_err Fail (to_addr ip)) (\<lambda>address.
     Ok \<lparr>ap_address = address, ap_port = ucast (pb_port_port m)\<rparr>))"

definition to_socket_addr ::
  "pb_ip_port \<Rightarrow> (address_error fault, ip_addr \<times> 16 word) result" where
  "to_socket_addr m = rbind (to_addr_port m) (\<lambda>ap. map_err Fail (addr_port_to_std ap))"

definition ip_prefix_new :: "ip_addr \<Rightarrow> nat \<Rightarrow> pb_ip_prefix" where
  "ip_prefix_new ip bits =
     \<lparr>pb_prefix_ip = Some (ip_new (address_from_ip ip)), pb_prefix_bits = of_nat bits\<rparr>"

definition to_prefix :: "pb_ip_prefix \<Rightarrow> (address_error fault, ip_addr \<times> nat) result" where
  "to_prefix m =
     rbind (expect ''IP not set'' (pb_prefix_ip m)) (\<lambda>ip.
     rbind (map_err Fail (to_addr ip)) (\<lambda>address.
     rbind (map_err (\<lambda>_. Fail InvalidPrefix) (address_to_std address)) (\<lambda>std.
     let maximum = (if is_ipv4 std then 32 else 128) in
     if maximum < pb_prefix_bits m then Err (Fail InvalidPrefix)
     else Ok (std, unat (ucast (pb_prefix_bits m) :: 8 word)))))"

section \<open>Network configuration\<close>

text \<open>A gRPC status: the code and the message.\<close>

datatype code =
  CodeUnknown | CodeInvalidArgument | CodeNotFound | CodeAlreadyExists | CodeInternal
| CodeUnavailable

record status =
  st_code :: code
  st_message :: string

definition invalid_argument :: "string \<Rightarrow> status" where
  "invalid_argument message = \<lparr>st_code = CodeInvalidArgument, st_message = message\<rparr>"

definition internal :: "string \<Rightarrow> status" where
  "internal message = \<lparr>st_code = CodeInternal, st_message = message\<rparr>"

definition unavailable :: "string \<Rightarrow> status" where
  "unavailable message = \<lparr>st_code = CodeUnavailable, st_message = message\<rparr>"

text \<open>\<open>KEY_LEN\<close>: WireGuard keys are exactly 32 bytes.\<close>

definition KEY_LEN :: nat where
  "KEY_LEN = 32"

definition fault_map :: "('e \<Rightarrow> 'd) \<Rightarrow> 'e fault \<Rightarrow> 'd fault" where
  "fault_map g e = (case e of Panic m \<Rightarrow> Panic m | Fail x \<Rightarrow> Fail (g x))"

lemma fault_map_simps [simp]: "fault_map g (Panic m) = Panic m" "fault_map g (Fail x) = Fail (g x)"
  by (simp_all add: fault_map_def)

definition network_config_validate :: "network_config \<Rightarrow> (status fault, unit) result" where
  "network_config_validate c =
     rbind (case nc_subnet c of
              None \<Rightarrow> Ok ()
            | Some subnet \<Rightarrow>
                map_ok (\<lambda>_. ()) (map_err (fault_map (\<lambda>e. invalid_argument
                  (''invalid subnet: '' @ address_error_display e))) (to_prefix subnet))) (\<lambda>_.
     rbind (case nc_management_ip c of
              None \<Rightarrow> Ok ()
            | Some ip \<Rightarrow>
                map_ok (\<lambda>_. ()) (map_err (\<lambda>e. Fail (invalid_argument
                  (''invalid management IP: '' @ address_error_display e))) (to_addr ip))) (\<lambda>_.
     rbind (for_each (\<lambda>endpoint.
                map_ok (\<lambda>_. ()) (map_err (fault_map (\<lambda>e. invalid_argument
                  (''invalid endpoint: '' @ address_error_display e))) (to_addr_port endpoint)))
              (nc_endpoints c)) (\<lambda>_.
     if nc_public_key c = [] then Err (Fail (invalid_argument ''public key not set''))
     else if length (nc_public_key c) \<noteq> KEY_LEN then
       Err (Fail (invalid_argument
         (''invalid public key length: '' @ nat_to_string (length (nc_public_key c)))))
     else Ok ())))"

section \<open>Round trips\<close>

lemma to_addr_ip_new: "address_ok a \<Longrightarrow> to_addr (ip_new a) = Ok a"
proof (cases "addr_ip a")
  case (V4 w)
  assume "address_ok a"
  with V4 have "addr_zone a = []" by (simp add: address_ok_def)
  with V4 show ?thesis
    by (simp add: to_addr_def ip_new_def octets_def address_from_ip_def)
next
  case (V6 w)
  then show ?thesis
    by (cases "addr_zone a = []")
      (simp_all add: to_addr_def ip_new_def octets_def address_from_ip_def)
qed

lemma ip_new_to_addr: "to_addr m = Ok a \<Longrightarrow> ip_new a = m \<and> address_ok a"
proof -
  assume ok: "to_addr m = Ok a"
  have four: "octets (V4 (be_word bs)) = bs" if "length bs = 4" for bs
    using that be_bytes_be_word [of bs, where 'a = 32] by (simp add: octets_def)
  have sixteen: "octets (V6 (be_word bs)) = bs" if "length bs = 16" for bs
    using that be_bytes_be_word [of bs, where 'a = 128] by (simp add: octets_def)
  show ?thesis
    using ok four [of "pb_ip_bytes m"] sixteen [of "pb_ip_bytes m"] sixteen [of "take 16 (pb_ip_bytes m)"]
    by (auto simp: to_addr_def Let_def ip_new_def address_from_ip_def address_ok_def
        split: if_splits)
qed

lemma to_addr_iff: "to_addr m = Ok a \<longleftrightarrow> ip_new a = m \<and> address_ok a"
  using to_addr_ip_new ip_new_to_addr by blast

lemma ucast_port: "ucast (ucast (w :: 16 word) :: 32 word) = w"
  by (rule bit_word_eqI) (auto simp: bit_simps)

lemma unat_ucast_8: "unat (ucast (w :: 32 word) :: 8 word) = unat w mod 256"
  by (simp add: unsigned_ucast_eq take_bit_eq_mod)

lemma to_addr_port_new:
  "address_ok (ap_address ap) \<Longrightarrow> to_addr_port (ip_port_new ap) = Ok ap"
  by (simp add: to_addr_port_def ip_port_new_def to_addr_ip_new ucast_port)

lemma to_prefix_new:
  "bits \<le> 255 \<Longrightarrow>
   to_prefix (ip_prefix_new ip bits) =
     (if bits \<le> (if is_ipv4 ip then 32 else 128) then Ok (ip, bits) else Err (Fail InvalidPrefix))"
proof -
  assume "bits \<le> 255"
  then have small: "unat (of_nat bits :: 32 word) = bits" "unat (of_nat bits :: 8 word) = bits"
    by (simp_all add: unat_of_nat)
  then have byte: "unat (ucast (of_nat bits :: 32 word) :: 8 word) = bits"
    using \<open>bits \<le> 255\<close> by (simp add: unat_ucast_8)
  show ?thesis
    using small byte
    by (simp add: to_prefix_def ip_prefix_new_def to_addr_ip_new address_to_std_def
        word_less_nat_alt) (simp add: address_from_ip_def)
qed

lemma to_prefix_bits: "to_prefix m = Ok (ip, bits) \<Longrightarrow> bits \<le> (if is_ipv4 ip then 32 else 128)"
proof -
  assume ok: "to_prefix m = Ok (ip, bits)"
  then have le: "pb_prefix_bits m \<le> (if is_ipv4 ip then 32 else 128)"
    and bits: "bits = unat (ucast (pb_prefix_bits m) :: 8 word)"
    by (auto simp: to_prefix_def rbind_eq_Ok Let_def not_less split: if_splits)
  from le have "unat (pb_prefix_bits m) \<le> (if is_ipv4 ip then 32 else 128)"
    by (auto simp: word_le_nat_alt split: if_splits)
  with bits show ?thesis
    by (auto simp: unat_ucast_8 split: if_splits)
qed

lemma network_config_validate_Ok:
  "network_config_validate c = Ok () \<longleftrightarrow>
     (case nc_subnet c of None \<Rightarrow> True | Some s \<Rightarrow> is_ok (to_prefix s)) \<and>
     (case nc_management_ip c of None \<Rightarrow> True | Some ip \<Rightarrow> is_ok (to_addr ip)) \<and>
     list_all (\<lambda>e. is_ok (to_addr_port e)) (nc_endpoints c) \<and>
     length (nc_public_key c) = KEY_LEN"
  by (auto simp: network_config_validate_def rbind_eq_Ok for_each_Ok map_ok_eq_Ok is_ok_iff
      list_all_iff KEY_LEN_def split: option.splits)

section \<open>Properties\<close>

text \<open>
  The binary encoding of an address is a bijection: decoding succeeds with an address exactly
  when the message is its encoding and the address keeps the rule that only IPv6 has a zone. Both
  round trips and the injectivity of the encoding follow.
\<close>

theorem ip_wire_bijection: "to_addr m = Ok a \<longleftrightarrow> ip_new a = m \<and> address_ok a"
  by (rule to_addr_iff)

text \<open>
  \<open>IpPrefix::to_prefix\<close> accepts exactly the encodings of an unscoped address with a length of
  at most its width: the narrowing cast to \<open>u8\<close> never changes an accepted length.
\<close>

theorem prefix_wire_bijection:
  "to_prefix m = Ok (ip, bits) \<longleftrightarrow>
     bits \<le> (if is_ipv4 ip then 32 else 128) \<and> m = ip_prefix_new ip bits"
proof
  assume ok: "to_prefix m = Ok (ip, bits)"
  then obtain i a where i: "pb_prefix_ip m = Some i" "to_addr i = Ok a" "address_to_std a = Ok ip"
    and bits: "bits = unat (ucast (pb_prefix_bits m) :: 8 word)"
    and max: "pb_prefix_bits m \<le> (if is_ipv4 ip then 32 else 128)"
    by (auto simp: to_prefix_def rbind_eq_Ok map_err_eq_Ok Let_def not_less split: if_splits)
  have "a = address_from_ip ip"
    using i(3) by (auto simp: address_to_std_def address_from_ip_def split: if_splits)
  with i(2) have ip: "i = ip_new (address_from_ip ip)" by (simp add: to_addr_iff)
  have "unat (pb_prefix_bits m) \<le> 128"
    using max by (auto simp: word_le_nat_alt split: if_splits)
  then have "unat (pb_prefix_bits m) = bits" by (simp add: bits unat_ucast_8)
  then have "of_nat bits = pb_prefix_bits m" by auto
  with ip i to_prefix_bits [OF ok] show "bits \<le> (if is_ipv4 ip then 32 else 128) \<and> m = ip_prefix_new ip bits"
    by (cases m) (simp add: ip_prefix_new_def)
next
  assume "bits \<le> (if is_ipv4 ip then 32 else 128) \<and> m = ip_prefix_new ip bits"
  then show "to_prefix m = Ok (ip, bits)"
    using to_prefix_new [of bits ip] by (auto split: if_splits)
qed

text \<open>
  \<open>NetworkConfig::validate\<close> accepts a configuration exactly when every address it carries
  decodes (subnet, management IP and each endpoint) and the public key has 32 bytes.
\<close>

theorem network_config_validate_iff:
  "network_config_validate c = Ok () \<longleftrightarrow>
     (case nc_subnet c of None \<Rightarrow> True | Some s \<Rightarrow> is_ok (to_prefix s)) \<and>
     (case nc_management_ip c of None \<Rightarrow> True | Some ip \<Rightarrow> is_ok (to_addr ip)) \<and>
     list_all (\<lambda>e. is_ok (to_addr_port e)) (nc_endpoints c) \<and>
     length (nc_public_key c) = 32"
  using network_config_validate_Ok [of c] by (simp add: KEY_LEN_def)

end
