(* ===== verification/Ip_Text.thy ===== *)
theory Ip_Text
  imports Address
begin

text \<open>
  The textual form of IP addresses: \<open>Display\<close> and \<open>FromStr\<close> of the standard library's \<open>IpAddr\<close>,
  which the prefixes, port specifications and image references of the code read and print. A
  reader takes the remaining text and returns a value with the text after it; \<open>None\<close> leaves the
  position unchanged, as the reader of the library does. The main result is that what is printed
  is read back, for both families and for the compressed and IPv4-mapped forms of IPv6.
\<close>

section \<open>Digits\<close>

definition to_digit :: "nat \<Rightarrow> char \<Rightarrow> nat option" where
  "to_digit radix c =
     (let n = of_char c :: nat;
          d = (if 48 \<le> n \<and> n \<le> 57 then n - 48
               else if 97 \<le> n \<and> n \<le> 122 then n - 87
               else if 65 \<le> n \<and> n \<le> 90 then n - 55
               else radix)
      in if d < radix then Some d else None)"

definition is_digit :: "nat \<Rightarrow> char \<Rightarrow> bool" where
  "is_digit radix c \<longleftrightarrow> to_digit radix c \<noteq> None"

definition radix_val :: "nat \<Rightarrow> string \<Rightarrow> nat" where
  "radix_val radix s = foldl (\<lambda>acc c. radix * acc + the (to_digit radix c)) 0 s"

definition from_digit :: "nat \<Rightarrow> char" where
  "from_digit d = (if d < 10 then char_of (48 + d) else char_of (87 + d))"

fun print_radix :: "nat \<Rightarrow> nat \<Rightarrow> string" where
  "print_radix radix n =
     (if n < radix \<or> radix < 2 then [from_digit n]
      else print_radix radix (n div radix) @ [from_digit (n mod radix)])"

declare print_radix.simps [simp del]

section \<open>Readers\<close>

type_synonym 'a reader = "string \<Rightarrow> ('a \<times> string) option"

definition read_number :: "nat \<Rightarrow> nat \<Rightarrow> bool \<Rightarrow> nat \<Rightarrow> nat reader" where
  "read_number radix max_digits allow_zero_prefix maximum s =
     (let ds = takeWhile (is_digit radix) s in
      if ds = [] \<or> max_digits < length ds then None
      else if \<not> allow_zero_prefix \<and> hd ds = CHR ''0'' \<and> 1 < length ds then None
      else if maximum < radix_val radix ds then None
      else Some (radix_val radix ds, dropWhile (is_digit radix) s))"

definition read_given_char :: "char \<Rightarrow> unit reader" where
  "read_given_char c s = (case s of [] \<Rightarrow> None | x # xs \<Rightarrow> if x = c then Some ((), xs) else None)"

definition read_separator :: "char \<Rightarrow> nat \<Rightarrow> 'a reader \<Rightarrow> 'a reader" where
  "read_separator sep index inner s =
     (if 0 < index then (case read_given_char sep s of None \<Rightarrow> None | Some (_, s') \<Rightarrow> inner s')
      else inner s)"

fun read_octets :: "nat list \<Rightarrow> nat list reader" where
  "read_octets [] s = Some ([], s)"
| "read_octets (i # is) s =
     (case read_separator CHR ''.'' i (read_number 10 3 False 255) s of
        None \<Rightarrow> None
      | Some (b, s') \<Rightarrow> (case read_octets is s' of None \<Rightarrow> None | Some (bs, s'') \<Rightarrow> Some (b # bs, s'')))"

definition read_ipv4_addr :: "nat list reader" where
  "read_ipv4_addr s = read_octets [0, 1, 2, 3] s"

text \<open>
  Up to \<open>n\<close> groups of an IPv6 address from index \<open>i\<close> on, with an optional trailing embedded IPv4
  address; the flag tells whether one was read.
\<close>

fun read_groups :: "nat \<Rightarrow> nat \<Rightarrow> string \<Rightarrow> nat list \<times> bool \<times> string" where
  "read_groups i 0 s = ([], False, s)"
| "read_groups i (Suc n) s =
     (case (if 0 < n then read_separator CHR '':'' i read_ipv4_addr s else None) of
        Some (bs, s') \<Rightarrow> ([256 * bs ! 0 + bs ! 1, 256 * bs ! 2 + bs ! 3], True, s')
      | None \<Rightarrow>
         (case read_separator CHR '':'' i (read_number 16 4 True 65535) s of
            None \<Rightarrow> ([], False, s)
          | Some (g, s') \<Rightarrow>
              (let (gs, v4, s'') = read_groups (Suc i) n s' in (g # gs, v4, s''))))"

definition read_ipv6_addr :: "nat list reader" where
  "read_ipv6_addr s =
     (let (front, front_ipv4, s1) = read_groups 0 8 s in
      if length front = 8 then Some (front, s1)
      else if front_ipv4 then None
      else (case read_given_char CHR '':'' s1 of
              None \<Rightarrow> None
            | Some (_, s2) \<Rightarrow>
               (case read_given_char CHR '':'' s2 of
                  None \<Rightarrow> None
                | Some (_, s3) \<Rightarrow>
                   (let (back, _, s4) = read_groups 0 (8 - (length front + 1)) s3 in
                    Some (front @ replicate (8 - length front - length back) 0 @ back, s4)))))"

definition of_octets :: "nat list \<Rightarrow> 32 word" where
  "of_octets bs = be_word (map of_nat bs)"

definition of_segments :: "nat list \<Rightarrow> 128 word" where
  "of_segments gs = be_word (concat (map (\<lambda>g. [of_nat (g div 256), of_nat (g mod 256)]) gs))"

definition read_ip_addr :: "ip_addr reader" where
  "read_ip_addr s =
     (case read_ipv4_addr s of
        Some (bs, s') \<Rightarrow> Some (V4 (of_octets bs), s')
      | None \<Rightarrow> map_option (\<lambda>(gs, s'). (V6 (of_segments gs), s')) (read_ipv6_addr s))"

text \<open>\<open>parse_with\<close>: the whole text must be read.\<close>

definition parse_with :: "'a reader \<Rightarrow> string \<Rightarrow> 'a option" where
  "parse_with inner s = (case inner s of Some (a, []) \<Rightarrow> Some a | _ \<Rightarrow> None)"

definition parse_ip :: "string \<Rightarrow> ip_addr option" where
  "parse_ip s = parse_with read_ip_addr s"

definition parse_ipv6 :: "string \<Rightarrow> 128 word option" where
  "parse_ipv6 s = map_option of_segments (parse_with read_ipv6_addr s)"

section \<open>Printing\<close>

definition show_ipv4 :: "8 word list \<Rightarrow> string" where
  "show_ipv4 bs = join ''.'' (map (\<lambda>b. print_radix 10 (unat b)) bs)"

definition segments :: "128 word \<Rightarrow> nat list" where
  "segments w =
     (let bs = be_bytes 16 w
      in map (\<lambda>i. 256 * unat (bs ! (2 * i)) + unat (bs ! (2 * i + 1))) [0..<8])"

text \<open>The first longest run of zero segments, as its start and its length.\<close>

fun longest_zeroes :: "nat \<Rightarrow> nat \<times> nat \<Rightarrow> nat \<times> nat \<Rightarrow> nat list \<Rightarrow> nat \<times> nat" where
  "longest_zeroes i longest current [] = longest"
| "longest_zeroes i longest current (g # gs) =
     (if g = 0 then
        (let current = (if snd current = 0 then i else fst current, snd current + 1)
         in longest_zeroes (i + 1) (if snd longest < snd current then current else longest) current gs)
      else longest_zeroes (i + 1) longest (0, 0) gs)"

definition show_groups :: "nat list \<Rightarrow> string" where
  "show_groups gs = join '':'' (map (print_radix 16) gs)"

definition show_ipv6 :: "128 word \<Rightarrow> string" where
  "show_ipv6 w =
     (let gs = segments w in
      if take 6 gs = [0, 0, 0, 0, 0, 65535] then ''::ffff:'' @ show_ipv4 (drop 12 (be_bytes 16 w))
      else (let (start, len) = longest_zeroes 0 (0, 0) (0, 0) gs in
            if 1 < len then show_groups (take start gs) @ ''::'' @ show_groups (drop (start + len) gs)
            else show_groups gs))"

definition show_ip :: "ip_addr \<Rightarrow> string" where
  "show_ip a = (case a of V4 w \<Rightarrow> show_ipv4 (be_bytes 4 w) | V6 w \<Rightarrow> show_ipv6 w)"

section \<open>What is printed is read back\<close>

lemma to_digit_from_digit [simp]:
  "d < radix \<Longrightarrow> radix \<le> 16 \<Longrightarrow> to_digit radix (from_digit d) = Some d"
  by (auto simp: to_digit_def from_digit_def Let_def)

lemma is_digit_from_digit [simp]: "d < radix \<Longrightarrow> radix \<le> 16 \<Longrightarrow> is_digit radix (from_digit d)"
  by (simp add: is_digit_def)

lemma radix_val_snoc [simp]:
  "radix_val radix (s @ [c]) = radix * radix_val radix s + the (to_digit radix c)"
  by (simp add: radix_val_def)

lemma from_digit_zero [simp]: "d < 16 \<Longrightarrow> from_digit d = CHR ''0'' \<longleftrightarrow> d = 0"
proof -
  assume "d < 16"
  then have "to_digit 16 (from_digit d) = Some d" by simp
  moreover have "to_digit 16 CHR ''0'' = Some 0" by (simp add: to_digit_def)
  moreover have "from_digit 0 = CHR ''0''" by code_simp
  ultimately show ?thesis by auto
qed

lemma print_radix_not_Nil [simp]: "print_radix radix n \<noteq> []"
  by (subst print_radix.simps) simp

lemma print_radix_digits:
  "2 \<le> radix \<Longrightarrow> radix \<le> 16 \<Longrightarrow> list_all (is_digit radix) (print_radix radix n)"
proof (induction radix n rule: print_radix.induct)
  case (1 radix n)
  then show ?case by (subst print_radix.simps) auto
qed

lemma radix_val_print [simp]:
  "2 \<le> radix \<Longrightarrow> radix \<le> 16 \<Longrightarrow> radix_val radix (print_radix radix n) = n"
proof (induction radix n rule: print_radix.induct)
  case (1 radix n)
  then show ?case
    using radix_val_snoc [of radix "[]"]
    by (subst print_radix.simps) (auto simp: radix_val_def [of _ "[]"])
qed

lemma hd_print_radix:
  "2 \<le> radix \<Longrightarrow> radix \<le> 16 \<Longrightarrow> hd (print_radix radix n) = CHR ''0'' \<longleftrightarrow> n = 0"
proof (induction radix n rule: print_radix.induct)
  case (1 radix n)
  then show ?case by (subst print_radix.simps) (auto simp: div_eq_0_iff)
qed

lemma length_print_radix:
  "2 \<le> radix \<Longrightarrow> n < radix ^ k \<Longrightarrow> 0 < k \<Longrightarrow> length (print_radix radix n) \<le> k"
proof (induction radix n arbitrary: k rule: print_radix.induct)
  case (1 radix n)
  show ?case
  proof (cases "n < radix")
    case True
    then show ?thesis using "1.prems" by (subst print_radix.simps) simp
  next
    case False
    with "1.prems" obtain k' where k: "k = Suc k'" "0 < k'" by (cases k; cases "k - 1") auto
    with "1.prems" have "n div radix < radix ^ k'" by (simp add: less_mult_imp_div_less mult.commute)
    with "1.IH" [of k'] False "1.prems" k show ?thesis by (subst print_radix.simps) simp
  qed
qed

text \<open>A printed number followed by something that is not a digit.\<close>

definition no_digit :: "nat \<Rightarrow> string \<Rightarrow> bool" where
  "no_digit radix s \<longleftrightarrow> (case s of [] \<Rightarrow> True | c # _ \<Rightarrow> \<not> is_digit radix c)"

lemma read_number_print:
  assumes "2 \<le> radix" "radix \<le> 16" "n \<le> maximum" "n < radix ^ k" "0 < k" "no_digit radix rest"
  shows "read_number radix k z maximum (print_radix radix n @ rest) = Some (n, rest)"
proof -
  let ?p = "print_radix radix n"
  have all: "\<forall>c\<in>set ?p. is_digit radix c"
    using print_radix_digits [OF assms(1,2)] by (simp add: list_all_iff)
  have tw: "takeWhile (is_digit radix) (?p @ rest) = ?p" "dropWhile (is_digit radix) (?p @ rest) = rest"
    using all assms(6) by (auto simp: no_digit_def takeWhile_append dropWhile_append split: list.splits)
  have "length ?p \<le> k" using assms by (intro length_print_radix)
  moreover have "hd ?p = CHR ''0'' \<Longrightarrow> \<not> 1 < length ?p"
    using assms by (auto simp: hd_print_radix print_radix.simps [of radix 0])
  ultimately show ?thesis
    using assms by (auto simp: read_number_def tw Let_def)
qed

lemma read_number_no_digit: "no_digit radix s \<Longrightarrow> read_number radix k z maximum s = None"
  by (cases s) (simp_all add: read_number_def no_digit_def)

lemma no_digit_simps [simp]:
  "no_digit radix []" "no_digit radix (c # s) \<longleftrightarrow> \<not> is_digit radix c"
  by (simp_all add: no_digit_def)

lemma is_digit_separators [simp]:
  "\<not> is_digit radix CHR '':''" "\<not> is_digit radix CHR ''.''"
  by (simp_all add: is_digit_def to_digit_def)

subsection \<open>IPv4\<close>

lemma read_octets_print:
  "list_all (\<lambda>b. b \<le> 255) bs \<Longrightarrow> length is = length bs \<Longrightarrow> list_all (\<lambda>i. 0 < i) is \<Longrightarrow> no_digit 10 rest \<Longrightarrow>
   read_octets is (concat (map (\<lambda>b. CHR ''.'' # print_radix 10 b) bs) @ rest) = Some (bs, rest)"
proof (induction bs arbitrary: "is")
  case (Cons b bs)
  then obtain i js where "is": "is = i # js" by (cases "is") auto
  have "no_digit 10 (concat (map (\<lambda>b. CHR ''.'' # print_radix 10 b) bs) @ rest)"
    using Cons.prems by (cases bs) auto
  with Cons "is" show ?case
    by (simp add: read_separator_def read_given_char_def read_number_print)
qed simp

lemma join_Cons: "join sep (p # ps) = p @ concat (map (\<lambda>q. sep @ q) ps)"
  by (induction sep ps arbitrary: p rule: join.induct) auto

lemma read_ipv4_print:
  assumes "length bs = 4" "no_digit 10 rest"
  shows "read_ipv4_addr (show_ipv4 bs @ rest) = Some (map unat bs, rest)"
proof -
  obtain b bs' where bs: "bs = b # bs'" "length bs' = 3" using assms(1) by (cases bs) auto
  have le: "unat w \<le> 255" for w :: "8 word" using unat_less [of w] by simp
  then have all: "list_all (\<lambda>b. b \<le> 255) (map unat bs')" by (simp add: list_all_iff)
  let ?t = "concat (map (\<lambda>b. CHR ''.'' # print_radix 10 b) (map unat bs')) @ rest"
  have nd: "no_digit 10 ?t" using assms(2) by (cases bs') auto
  have "read_octets [1, 2, 3] ?t = Some (map unat bs', rest)"
    using all bs(2) assms(2) by (intro read_octets_print) simp_all
  moreover have "read_number 10 3 False 255 (print_radix 10 (unat b) @ ?t) = Some (unat b, ?t)"
    using le [of b] nd by (intro read_number_print) simp_all
  moreover have "show_ipv4 bs @ rest = print_radix 10 (unat b) @ ?t"
    by (simp add: show_ipv4_def bs join_Cons comp_def)
  ultimately show ?thesis
    by (simp add: read_ipv4_addr_def read_separator_def bs)
qed

lemma of_octets_unat: "of_octets (map unat bs) = be_word bs"
  by (simp add: of_octets_def comp_def)

lemma parse_show_ipv4: "parse_ip (show_ip (V4 w)) = Some (V4 w)"
  using read_ipv4_print [of "be_bytes 4 w" "[]"]
  by (simp add: parse_ip_def parse_with_def show_ip_def read_ip_addr_def of_octets_unat)

subsection \<open>IPv6\<close>

definition zero_run :: "nat list \<Rightarrow> nat \<times> nat \<Rightarrow> bool" where
  "zero_run gs r \<longleftrightarrow> fst r + snd r \<le> length gs \<and> (\<forall>k. fst r \<le> k \<and> k < fst r + snd r \<longrightarrow> gs ! k = 0)"

lemma zero_run_snoc: "zero_run gs r \<Longrightarrow> zero_run (gs @ [g]) r"
  by (auto simp: zero_run_def nth_append)

lemma longest_zeroes_run:
  "zero_run pre longest \<Longrightarrow> zero_run pre current \<Longrightarrow>
   snd current = 0 \<or> fst current + snd current = length pre \<Longrightarrow>
   zero_run (pre @ gs) (longest_zeroes (length pre) longest current gs)"
proof (induction gs arbitrary: pre longest current)
  case (Cons g gs)
  define current' where "current' = (if snd current = 0 then length pre else fst current, snd current + 1)"
  have len: "length pre + 1 = length (pre @ [g])" by simp
  show ?case
  proof (cases "g = 0")
    case True
    have run: "zero_run (pre @ [g]) current'"
      using Cons.prems True by (auto simp: zero_run_def current'_def nth_append)
    moreover have "zero_run (pre @ [g]) (if snd longest < snd current' then current' else longest)"
      using run Cons.prems by (auto intro: zero_run_snoc)
    moreover have "fst current' + snd current' = length (pre @ [g])"
      using Cons.prems by (auto simp: current'_def)
    ultimately have "zero_run ((pre @ [g]) @ gs) (longest_zeroes (length (pre @ [g]))
        (if snd longest < snd current' then current' else longest) current' gs)"
      by (intro Cons.IH) auto
    moreover have "longest_zeroes (length pre) longest current (g # gs) = longest_zeroes (length (pre @ [g]))
        (if snd longest < snd current' then current' else longest) current' gs"
      using True by (simp add: current'_def Let_def)
    ultimately show ?thesis by simp
  next
    case False
    have "zero_run ((pre @ [g]) @ gs) (longest_zeroes (length (pre @ [g])) longest (0, 0) gs)"
      using Cons.prems by (intro Cons.IH) (auto simp: zero_run_snoc zero_run_def [of _ "(0, 0)"])
    then show ?thesis using False by simp
  qed
qed simp

lemma zero_run_split:
  assumes "zero_run gs (start, len)"
  shows "gs = take start gs @ replicate len 0 @ drop (start + len) gs"
proof -
  have "take len (drop start gs) = replicate len 0"
    using assms by (intro nth_equalityI) (auto simp: zero_run_def)
  then have "drop start gs = replicate len 0 @ drop (start + len) gs"
    by (metis add.commute append_take_drop_id drop_drop)
  then show ?thesis by (metis append_take_drop_id)
qed

lemma read_octets_dot: "read_octets (i # is) s = Some r \<Longrightarrow> 0 < i \<Longrightarrow> CHR ''.'' \<in> set s"
  by (auto simp: read_separator_def read_given_char_def split: if_splits list.splits option.splits)

lemma read_number_rest: "read_number radix k z m s = Some (n, t) \<Longrightarrow> set t \<subseteq> set s"
  by (auto simp: read_number_def Let_def dest: set_dropWhileD split: if_splits)

lemma read_ipv4_no_dot: "CHR ''.'' \<notin> set s \<Longrightarrow> read_ipv4_addr s = None"
proof (rule ccontr)
  assume "CHR ''.'' \<notin> set s" "read_ipv4_addr s \<noteq> None"
  then obtain b t r where "read_number 10 3 False 255 s = Some (b, t)" "read_octets [1, 2, 3] t = Some r"
    by (auto simp: read_ipv4_addr_def read_separator_def split: option.splits)
  with read_octets_dot [of 1 "[2, 3]" t r] read_number_rest show False
    using \<open>CHR ''.'' \<notin> set s\<close> by fastforce
qed

lemma read_separator_no_dot:
  "CHR ''.'' \<notin> set s \<Longrightarrow> read_separator CHR '':'' i read_ipv4_addr s = None"
  by (cases s) (auto simp: read_separator_def read_given_char_def read_ipv4_no_dot)

lemma print_radix_no_dot [simp]: "CHR ''.'' \<notin> set (print_radix 16 g)"
  using print_radix_digits [of 16 g] by (auto simp: list_all_iff)

text \<open>The groups of a printed address, from index \<open>i\<close> on: before the end or before a double colon.\<close>

abbreviation group_text :: "nat \<Rightarrow> nat list \<Rightarrow> string" where
  "group_text i gs \<equiv> (if i = 0 then show_groups gs else concat (map (\<lambda>g. CHR '':'' # print_radix 16 g) gs))"

lemma read_groups_print:
  assumes "list_all (\<lambda>g. g \<le> 65535) gs" "length gs \<le> n" "CHR ''.'' \<notin> set rest"
    and "rest = [] \<or> (\<exists>t. rest = ''::'' @ t)"
  shows "read_groups i n (group_text i gs @ rest) = (gs, False, rest)"
  using assms
proof (induction n arbitrary: i gs)
  case (Suc n)
  have stop: "read_separator CHR '':'' i (read_number 16 4 True 65535) rest = None" for i
    using Suc.prems(4) by (auto simp: read_separator_def read_given_char_def read_number_no_digit split: list.splits)
  show ?case
  proof (cases gs)
    case Nil
    then have txt_eq: "group_text i gs @ rest = rest" by (simp add: show_groups_def)
    show ?thesis
      unfolding txt_eq using Nil Suc.prems(3) stop [of i] by (simp add: read_separator_no_dot)
  next
    case (Cons g gs')
    have nd: "no_digit 16 (group_text (Suc i) gs' @ rest)"
      using Suc.prems(4) by (cases gs') auto
    have txt_eq: "group_text i gs @ rest = (if i = 0 then [] else '':'') @ print_radix 16 g @ group_text (Suc i) gs' @ rest"
      by (simp add: Cons show_groups_def join_Cons comp_def)
    have dot: "CHR ''.'' \<notin> set (group_text i gs @ rest)"
      using Suc.prems(3) unfolding txt_eq by auto
    have "read_number 16 4 True 65535 (print_radix 16 g @ group_text (Suc i) gs' @ rest) =
        Some (g, group_text (Suc i) gs' @ rest)"
      using Suc.prems(1) nd Cons by (intro read_number_print) simp_all
    then have "read_separator CHR '':'' i (read_number 16 4 True 65535) (group_text i gs @ rest) =
        Some (g, group_text (Suc i) gs' @ rest)"
      unfolding txt_eq by (simp add: read_separator_def read_given_char_def)
    moreover have "read_groups (Suc i) n (group_text (Suc i) gs' @ rest) = (gs', False, rest)"
      using Suc.prems Cons by (intro Suc.IH) simp_all
    ultimately show ?thesis
      using read_separator_no_dot [OF dot, of i] Cons Suc.prems(2) by (cases n) simp_all
  qed
qed (simp add: show_groups_def)

lemma length_segments [simp]: "length (segments w) = 8"
  by (simp add: segments_def Let_def)

lemma segments_le: "list_all (\<lambda>g. g \<le> 65535) (segments w)"
proof -
  have "256 * unat a + unat b \<le> 65535" for a b :: "8 word"
    using unat_less [of a] unat_less [of b] by simp
  then show ?thesis by (simp add: segments_def Let_def list_all_iff)
qed

lemma of_segments_segments: "of_segments (segments w) = w"
proof -
  let ?bs = "be_bytes 16 w"
  have byte: "unat b div 256 = 0" "unat b mod 256 = unat b" for b :: "8 word"
    using unat_less [of b] by simp_all
  have "concat (map (\<lambda>i. [?bs ! (2 * i), ?bs ! (2 * i + 1)]) [0..<8]) = map ((!) ?bs) [0..<16]"
    by (simp add: upt_rec numeral_eq_Suc)
  also have "\<dots> = ?bs" using map_nth [of ?bs] by simp
  finally show ?thesis
    by (simp add: of_segments_def segments_def Let_def comp_def byte)
qed

lemma read_ipv6_full:
  assumes "length gs = 8" "list_all (\<lambda>g. g \<le> 65535) gs"
  shows "read_ipv6_addr (show_groups gs) = Some (gs, [])"
  using read_groups_print [of gs 8 "[]" 0] assms by (simp add: read_ipv6_addr_def)

lemma show_groups_no_dot: "CHR ''.'' \<notin> set (show_groups gs)"
  by (cases gs) (auto simp: show_groups_def join_Cons)

lemma read_ipv6_compressed:
  assumes "list_all (\<lambda>g. g \<le> 65535) (front @ rear)" "length front + length rear < 8"
  shows "read_ipv6_addr (show_groups front @ ''::'' @ show_groups rear) =
    Some (front @ replicate (8 - length front - length rear) 0 @ rear, [])"
proof -
  have "read_groups 0 8 (show_groups front @ ''::'' @ show_groups rear) = (front, False, ''::'' @ show_groups rear)"
    using read_groups_print [of front 8 "''::'' @ show_groups rear" 0] assms
    by (simp add: show_groups_no_dot)
  moreover have "read_groups 0 (7 - length front) (show_groups rear) = (rear, False, [])"
    using read_groups_print [of rear "7 - length front" "[]" 0] assms by simp
  ultimately show ?thesis
    using assms by (simp add: read_ipv6_addr_def read_given_char_def)
qed

lemma read_groups_pos:
  "0 < n \<Longrightarrow> read_groups i n s =
     (case (if 1 < n then read_separator CHR '':'' i read_ipv4_addr s else None) of
        Some (bs, s') \<Rightarrow> ([256 * bs ! 0 + bs ! 1, 256 * bs ! 2 + bs ! 3], True, s')
      | None \<Rightarrow>
         (case read_separator CHR '':'' i (read_number 16 4 True 65535) s of
            None \<Rightarrow> ([], False, s)
          | Some (g, s') \<Rightarrow>
              (let (gs, v4, s'') = read_groups (i + 1) (n - 1) s' in (g # gs, v4, s''))))"
  by (cases n) (simp_all split: option.splits)

lemma read_ipv6_mapped:
  assumes "length bs = 4"
  shows "read_ipv6_addr (''::ffff:'' @ show_ipv4 bs) =
    Some ([0, 0, 0, 0, 0, 65535, 256 * unat (bs ! 0) + unat (bs ! 1), 256 * unat (bs ! 2) + unat (bs ! 3)], [])"
proof -
  have front: "read_groups 0 8 (''::ffff:'' @ s) = ([], False, ''::ffff:'' @ s)" for s
    by (simp add: read_groups_pos [of 8] read_separator_def read_ipv4_addr_def read_number_no_digit)
  have "from_digit 15 = CHR ''f''" by code_simp
  then have ffff: "''ffff:'' @ s = print_radix 16 65535 @ CHR '':'' # s" for s
    by (simp add: print_radix.simps)
  have group: "read_separator CHR '':'' 0 (read_number 16 4 True 65535) (''ffff:'' @ s) = Some (65535, CHR '':'' # s)" for s
    unfolding ffff by (simp add: read_separator_def read_number_print)
  have no_v4: "read_separator CHR '':'' 0 read_ipv4_addr (''ffff:'' @ s) = None" for s
    by (simp add: read_separator_def read_ipv4_addr_def read_number_no_digit is_digit_def to_digit_def)
  have v4: "read_separator CHR '':'' (Suc 0) read_ipv4_addr (CHR '':'' # show_ipv4 bs) = Some (map unat bs, [])"
    using read_ipv4_print [OF assms, of "[]"] by (simp add: read_separator_def read_given_char_def)
  have "read_groups 0 7 (''ffff:'' @ show_ipv4 bs) =
      ([65535, 256 * unat (bs ! 0) + unat (bs ! 1), 256 * unat (bs ! 2) + unat (bs ! 3)], True, [])"
    using group [of "show_ipv4 bs"] no_v4 [of "show_ipv4 bs"] v4 assms
    by (simp add: read_groups_pos [of 7] read_groups_pos [of 6])
  moreover have "replicate 5 (0::nat) = [0, 0, 0, 0, 0]" by (simp add: numeral_eq_Suc)
  ultimately show ?thesis
    using front [of "show_ipv4 bs"] by (simp add: read_ipv6_addr_def read_given_char_def)
qed

lemma read_show_ipv6: "read_ipv6_addr (show_ipv6 w) = Some (segments w, [])"
proof -
  let ?gs = "segments w"
  obtain start len where run: "longest_zeroes 0 (0, 0) (0, 0) ?gs = (start, len)" by fastforce
  have "zero_run ?gs (longest_zeroes 0 (0, 0) (0, 0) ?gs)"
    using longest_zeroes_run [of "[]" "(0, 0)" "(0, 0)" ?gs] by (simp add: zero_run_def)
  then have zr: "zero_run ?gs (start, len)" by (simp add: run)
  then have fit: "start + len \<le> 8" by (simp add: zero_run_def)
  consider "take 6 ?gs = [0, 0, 0, 0, 0, 65535]" | "take 6 ?gs \<noteq> [0, 0, 0, 0, 0, 65535]" "1 < len"
    | "take 6 ?gs \<noteq> [0, 0, 0, 0, 0, 65535]" "\<not> 1 < len" by blast
  then show ?thesis
  proof cases
    case 1
    let ?bs = "drop 12 (be_bytes 16 w)"
    have "drop 6 ?gs = [256 * unat (?bs ! 0) + unat (?bs ! 1), 256 * unat (?bs ! 2) + unat (?bs ! 3)]"
      by (simp add: segments_def Let_def upt_rec)
    then have "?gs = [0, 0, 0, 0, 0, 65535, 256 * unat (?bs ! 0) + unat (?bs ! 1), 256 * unat (?bs ! 2) + unat (?bs ! 3)]"
      using 1 append_take_drop_id [of 6 ?gs] by simp
    then show ?thesis using 1 read_ipv6_mapped [of ?bs] by (simp add: show_ipv6_def Let_def)
  next
    case 2
    have "list_all (\<lambda>g. g \<le> 65535) (take start ?gs @ drop (start + len) ?gs)"
      using segments_le [of w] by (auto simp: list_all_iff dest: in_set_takeD in_set_dropD)
    then have "read_ipv6_addr (show_groups (take start ?gs) @ ''::'' @ show_groups (drop (start + len) ?gs)) =
        Some (take start ?gs @ replicate len 0 @ drop (start + len) ?gs, [])"
      using 2 fit read_ipv6_compressed [of "take start ?gs" "drop (start + len) ?gs"] by simp
    then show ?thesis using 2 run zero_run_split [OF zr] by (simp add: show_ipv6_def Let_def)
  next
    case 3
    then show ?thesis using run read_ipv6_full [of ?gs] segments_le by (simp add: show_ipv6_def)
  qed
qed

lemma read_ipv4_show_ipv6: "read_ipv4_addr (show_ipv6 w) = None"
proof (cases "take 6 (segments w) = [0, 0, 0, 0, 0, 65535]")
  case True
  then show ?thesis
    by (simp add: show_ipv6_def Let_def read_ipv4_addr_def read_separator_def read_number_no_digit)
next
  case False
  then have "CHR ''.'' \<notin> set (show_ipv6 w)"
    by (auto simp: show_ipv6_def Let_def show_groups_no_dot split: prod.splits if_splits)
  then show ?thesis by (rule read_ipv4_no_dot)
qed

lemma parse_show_ip [simp]: "parse_ip (show_ip a) = Some a"
proof (cases a)
  case (V6 w)
  then show ?thesis
    by (simp add: parse_ip_def parse_with_def show_ip_def read_ip_addr_def read_ipv4_show_ipv6
        read_show_ipv6 of_segments_segments)
qed (simp add: parse_show_ipv4)

lemma parse_ipv6_show [simp]: "parse_ipv6 (show_ipv6 w) = Some w"
  by (simp add: parse_ipv6_def parse_with_def read_show_ipv6 of_segments_segments)

lemma show_ip_inj: "show_ip a = show_ip b \<longleftrightarrow> a = b"
  by (metis option.inject parse_show_ip)

text \<open>The characters of a printed address.\<close>

lemma set_print_radix: "2 \<le> radix \<Longrightarrow> radix \<le> 16 \<Longrightarrow> c \<in> set (print_radix radix n) \<Longrightarrow> is_digit radix c"
  using print_radix_digits by (auto simp: list_all_iff)

lemma set_show_ip: "c \<in> set (show_ip a) \<Longrightarrow> is_digit 16 c \<or> c = CHR '':'' \<or> c = CHR ''.''"
proof -
  have dec: "is_digit 10 c \<Longrightarrow> is_digit 16 c" for c
    by (auto simp: is_digit_def to_digit_def Let_def split: if_splits)
  have v4: "c \<in> set (show_ipv4 bs) \<Longrightarrow> is_digit 16 c \<or> c = CHR ''.''" for bs c
    by (cases bs) (auto simp: show_ipv4_def join_Cons intro: dec dest!: set_print_radix [of 10, simplified] split: if_splits)
  have gs: "c \<in> set (show_groups gs) \<Longrightarrow> is_digit 16 c \<or> c = CHR '':''" for gs c
    by (cases gs) (auto simp: show_groups_def join_Cons dest!: set_print_radix [of 16, simplified] split: if_splits)
  have f: "is_digit 16 CHR ''f''" by (simp add: is_digit_def to_digit_def)
  assume "c \<in> set (show_ip a)"
  then show ?thesis
    using v4 gs f by (auto simp: show_ip_def show_ipv6_def Let_def split: ip_addr.splits if_splits prod.splits)
qed

end
