(* ===== verification/Utf8.thy ===== *)
theory Utf8
  imports Rust_Std
begin

text \<open>
  UTF-8 as the standard library decodes it: one step of the decoder, validity, and the lossy
  conversion that replaces each maximal invalid sequence by the replacement character. Characters
  are decoded to their code points for the code that iterates over \<open>chars\<close>.
\<close>

abbreviation byte_of :: "char \<Rightarrow> nat" where
  "byte_of c \<equiv> of_char c"

definition string_of_bytes :: "8 word list \<Rightarrow> string" where
  "string_of_bytes bs = map (\<lambda>b. char_of (unat b)) bs"

definition bytes_of_string :: "string \<Rightarrow> 8 word list" where
  "bytes_of_string s = map (\<lambda>c. of_nat (byte_of c)) s"

lemma bytes_of_string_of_bytes [simp]: "bytes_of_string (string_of_bytes bs) = bs"
proof -
  have "of_nat (byte_of (char_of (unat b))) = b" for b :: "8 word"
    using unat_less [of b] by simp
  then show ?thesis by (simp add: bytes_of_string_def string_of_bytes_def comp_def)
qed

lemma string_of_bytes_of_string [simp]: "string_of_bytes (bytes_of_string s) = s"
proof -
  have "char_of (unat (of_nat (byte_of c) :: 8 word)) = c" for c
  proof -
    have "byte_of c < 256" using range_nat_of_char by (metis atLeastLessThan_iff rangeI)
    then have "unat (of_nat (byte_of c) :: 8 word) = byte_of c" by (simp add: unat_of_nat)
    then show ?thesis by simp
  qed
  then show ?thesis by (simp add: bytes_of_string_def string_of_bytes_def comp_def)
qed

lemma string_of_bytes_eq_Nil [simp]: "string_of_bytes bs = [] \<longleftrightarrow> bs = []"
  by (simp add: string_of_bytes_def)

lemma bytes_of_string_eq_Nil [simp]: "bytes_of_string s = [] \<longleftrightarrow> s = []"
  by (simp add: bytes_of_string_def)

text \<open>
  The number of bytes the decoder consumes at the front of a non-empty text, and whether they are a
  complete character. A missing byte reads as zero, which continues nothing.
\<close>

definition byte_at :: "string \<Rightarrow> nat \<Rightarrow> nat" where
  "byte_at s i = (if i < length s then byte_of (s ! i) else 0)"

definition in_range :: "nat \<Rightarrow> nat \<Rightarrow> nat \<Rightarrow> bool" where
  "in_range lo hi n \<longleftrightarrow> lo \<le> n \<and> n \<le> hi"

definition is_cont :: "nat \<Rightarrow> bool" where
  "is_cont b = in_range 128 191 b"

definition utf8_step :: "string \<Rightarrow> nat \<times> bool" where
  "utf8_step s =
     (let b = byte_at s 0; b1 = byte_at s 1 in
      if b < 128 then (1, True)
      else if in_range 194 223 b then (if is_cont b1 then (2, True) else (1, False))
      else if in_range 224 239 b then
        (if (if b = 224 then in_range 160 191 b1 else if b = 237 then in_range 128 159 b1 else is_cont b1)
         then (if is_cont (byte_at s 2) then (3, True) else (2, False))
         else (1, False))
      else if in_range 240 244 b then
        (if (if b = 240 then in_range 144 191 b1 else if b = 244 then in_range 128 143 b1 else is_cont b1)
         then (if is_cont (byte_at s 2)
               then (if is_cont (byte_at s 3) then (4, True) else (3, False))
               else (2, False))
         else (1, False))
      else (1, False))"

lemma utf8_step_pos: "0 < fst (utf8_step s)"
  by (simp add: utf8_step_def Let_def)

definition replacement :: string where
  "replacement = [CHR 0xEF, CHR 0xBF, CHR 0xBD]"

function from_utf8_lossy :: "string \<Rightarrow> string" where
  "from_utf8_lossy [] = []"
| "from_utf8_lossy (c # s) =
     (let (n, valid) = utf8_step (c # s)
      in (if valid then take n (c # s) else replacement) @ from_utf8_lossy (drop n (c # s)))"
  by pat_completeness auto
termination
proof (relation "measure length")
  fix c s x n valid
  assume "x = utf8_step (c # s)" "(n, valid) = x"
  then have "0 < n" using utf8_step_pos [of "c # s"] by (metis fst_conv)
  then show "(drop n (c # s), c # s) \<in> measure length" by simp
qed simp

declare from_utf8_lossy.simps(2) [simp del]

function is_utf8 :: "string \<Rightarrow> bool" where
  "is_utf8 [] = True"
| "is_utf8 (c # s) = (let (n, valid) = utf8_step (c # s) in valid \<and> is_utf8 (drop n (c # s)))"
  by pat_completeness auto
termination
proof (relation "measure length")
  fix c s x n valid
  assume "x = utf8_step (c # s)" "(n, valid) = x"
  then have "0 < n" using utf8_step_pos [of "c # s"] by (metis fst_conv)
  then show "(drop n (c # s), c # s) \<in> measure length" by simp
qed simp

declare is_utf8.simps(2) [simp del]

lemma from_utf8_lossy_valid [simp]: "is_utf8 s \<Longrightarrow> from_utf8_lossy s = s"
proof (induction s rule: is_utf8.induct)
  case (2 c s)
  then show ?case
    by (simp add: is_utf8.simps(2) [of c s] from_utf8_lossy.simps(2) [of c s] split: prod.splits)
qed simp

lemma is_utf8_ascii: "list_all (\<lambda>c. byte_of c < 128) s \<Longrightarrow> is_utf8 s"
  by (induction s) (simp_all add: is_utf8.simps(2) utf8_step_def byte_at_def)

text \<open>The code point of the bytes of one character.\<close>

definition code_point :: "string \<Rightarrow> nat" where
  "code_point s =
     (if length s = 1 then byte_at s 0
      else if length s = 2 then 64 * (byte_at s 0 - 192) + (byte_at s 1 - 128)
      else if length s = 3 then 4096 * (byte_at s 0 - 224) + 64 * (byte_at s 1 - 128) + (byte_at s 2 - 128)
      else 262144 * (byte_at s 0 - 240) + 4096 * (byte_at s 1 - 128) + 64 * (byte_at s 2 - 128) +
           (byte_at s 3 - 128))"

text \<open>\<open>chars\<close>: the characters of a valid text, each as its bytes.\<close>

function utf8_chars :: "string \<Rightarrow> string list" where
  "utf8_chars [] = []"
| "utf8_chars (c # s) = (let n = fst (utf8_step (c # s)) in take n (c # s) # utf8_chars (drop n (c # s)))"
  by pat_completeness auto
termination
proof (relation "measure length")
  fix c s n
  assume "n = fst (utf8_step (c # s))"
  then have "0 < n" using utf8_step_pos [of "c # s"] by simp
  then show "(drop n (c # s), c # s) \<in> measure length" by simp
qed simp

declare utf8_chars.simps(2) [simp del]

lemma concat_utf8_chars [simp]: "concat (utf8_chars s) = s"
proof (induction s rule: utf8_chars.induct)
  case (2 c s)
  then show ?case by (simp add: utf8_chars.simps(2) [of c s] Let_def)
qed simp

lemma utf8_chars_ascii: "list_all (\<lambda>c. byte_of c < 128) s \<Longrightarrow> utf8_chars s = map (\<lambda>c. [c]) s"
  by (induction s) (simp_all add: utf8_chars.simps(2) utf8_step_def byte_at_def)

end
