(* ===== verification/Machine_Spec.thy ===== *)
theory Machine_Spec
  imports Ip_Text Utf8
begin

text \<open>
  Machines of the API (\<open>ployz-pkg-api/src/machine.rs\<close>) with the messages they come from: scoped
  addresses and their text, the lookup of a member by name or identifier, and the conversion of a
  member from its message. A conversion that reaches an absent nested message panics, as in the
  source.
\<close>

section \<open>Messages\<close>

record machine_info =
  mi_id :: string
  mi_name :: string
  mi_network :: "network_config option"
  mi_public_ip :: "pb_ip option"
  mi_daemon_version :: string
  mi_docker_version :: string
  mi_hostname :: string
  mi_arch :: string
  mi_os_pretty_name :: string
  mi_kernel_version :: string

definition machine_info_default :: machine_info where
  "machine_info_default =
     \<lparr>mi_id = [], mi_name = [], mi_network = None, mi_public_ip = None, mi_daemon_version = [],
      mi_docker_version = [], mi_hostname = [], mi_arch = [], mi_os_pretty_name = [], mi_kernel_version = []\<rparr>"

datatype membership_state = StateUnknown | StateUp | StateSuspect | StateDown

definition state_number :: "membership_state \<Rightarrow> int" where
  "state_number s = (case s of StateUnknown \<Rightarrow> 0 | StateUp \<Rightarrow> 1 | StateSuspect \<Rightarrow> 2 | StateDown \<Rightarrow> 3)"

definition state_try_from :: "int \<Rightarrow> membership_state option" where
  "state_try_from n =
     (if n = 0 then Some StateUnknown else if n = 1 then Some StateUp
      else if n = 2 then Some StateSuspect else if n = 3 then Some StateDown else None)"

definition state_str_name :: "membership_state \<Rightarrow> string" where
  "state_str_name s =
     (case s of StateUnknown \<Rightarrow> ''UNKNOWN'' | StateUp \<Rightarrow> ''UP'' | StateSuspect \<Rightarrow> ''SUSPECT'' | StateDown \<Rightarrow> ''DOWN'')"

record pb_machine_member =
  pm_machine :: "machine_info option"
  pm_state :: int

section \<open>Scoped addresses\<close>

record scoped_ip_addr =
  si_address :: ip_addr
  si_zone :: "8 word list"

record scoped_addr_port =
  sp_address :: scoped_ip_addr
  sp_port :: "16 word"

definition scoped_ip_display :: "scoped_ip_addr \<Rightarrow> string" where
  "scoped_ip_display a =
     show_ip (si_address a) @
     (if si_zone a \<noteq> [] then ''%'' @ from_utf8_lossy (string_of_bytes (si_zone a)) else [])"

definition scoped_addr_port_display :: "scoped_addr_port \<Rightarrow> string" where
  "scoped_addr_port_display a =
     (if is_ipv6 (si_address (sp_address a))
      then ''['' @ scoped_ip_display (sp_address a) @ '']:'' @ nat_to_string (unat (sp_port a))
      else scoped_ip_display (sp_address a) @ '':'' @ nat_to_string (unat (sp_port a)))"

definition scoped_ip_from :: "ip_addr \<Rightarrow> scoped_ip_addr" where
  "scoped_ip_from ip = \<lparr>si_address = ip, si_zone = []\<rparr>"

definition scoped_ip_from_str :: "string \<Rightarrow> scoped_ip_addr option" where
  "scoped_ip_from_str value =
     (case split_once CHR ''%'' value of
        Some (address, zone) \<Rightarrow>
          (case parse_ip address of
             None \<Rightarrow> None
           | Some address \<Rightarrow>
               if is_ipv6 address \<and> zone \<noteq> []
               then Some \<lparr>si_address = address, si_zone = bytes_of_string zone\<rparr>
               else map_option scoped_ip_from (parse_ip value))
      | None \<Rightarrow> map_option scoped_ip_from (parse_ip value))"

section \<open>Members\<close>

record machine_network =
  mn_subnet :: "(ip_addr \<times> nat) option"
  mn_management_ip :: "scoped_ip_addr option"
  mn_endpoints :: "scoped_addr_port list"
  mn_public_key :: "8 word list"

record machine_member =
  mm_id :: string
  mm_name :: string
  mm_state :: string
  mm_network :: machine_network
  mm_public_ip :: "scoped_ip_addr option"
  mm_daemon_version :: string
  mm_docker_version :: string
  mm_hostname :: string
  mm_arch :: string
  mm_os_pretty_name :: string
  mm_kernel_version :: string

definition find_by_name_or_id :: "pb_machine_member list \<Rightarrow> string \<Rightarrow> pb_machine_member option" where
  "find_by_name_or_id members name_or_id =
     find (\<lambda>m. case pm_machine m of
                 Some machine \<Rightarrow> mi_id machine = name_or_id \<or> mi_name machine = name_or_id
               | None \<Rightarrow> False) members"

definition to_ascii_lowercase :: "char \<Rightarrow> char" where
  "to_ascii_lowercase c = (if is_ascii_uppercase c then char_of (byte_of c + 32) else c)"

definition to_ascii_uppercase :: "char \<Rightarrow> char" where
  "to_ascii_uppercase c = (if is_ascii_lowercase c then char_of (byte_of c - 32) else c)"

definition capitalise :: "string \<Rightarrow> string" where
  "capitalise value =
     (case map to_ascii_lowercase value of [] \<Rightarrow> [] | c # cs \<Rightarrow> to_ascii_uppercase c # cs)"

definition scoped_of_address :: "address \<Rightarrow> scoped_ip_addr" where
  "scoped_of_address a = \<lparr>si_address = addr_ip a, si_zone = addr_zone a\<rparr>"

definition scoped_of_addr_port :: "addr_port \<Rightarrow> scoped_addr_port" where
  "scoped_of_addr_port a = \<lparr>sp_address = scoped_of_address (ap_address a), sp_port = ap_port a\<rparr>"

text \<open>The endpoints that decode; a malformed one is dropped, one without address panics.\<close>

definition native_endpoints :: "pb_ip_port list \<Rightarrow> scoped_addr_port list panicking" where
  "native_endpoints endpoints =
     rbind (collect_ok (map (\<lambda>e. catch_fail (to_addr_port e)) endpoints)) (\<lambda>found.
     Ok (map scoped_of_addr_port (List.map_filter id found)))"

definition machine_network_default :: machine_network where
  "machine_network_default =
     \<lparr>mn_subnet = None, mn_management_ip = None, mn_endpoints = [], mn_public_key = []\<rparr>"

definition native_network :: "network_config option \<Rightarrow> machine_network panicking" where
  "native_network network =
     (case network of
        None \<Rightarrow> Ok machine_network_default
      | Some n \<Rightarrow>
          rbind (case nc_subnet n of
                   None \<Rightarrow> Ok None
                 | Some subnet \<Rightarrow> catch_fail (to_prefix subnet)) (\<lambda>subnet.
          rbind (native_endpoints (nc_endpoints n)) (\<lambda>endpoints.
          Ok \<lparr>mn_subnet = subnet,
              mn_management_ip =
                map_option scoped_of_address (Option.bind (nc_management_ip n) (\<lambda>ip. ok_opt (to_addr ip))),
              mn_endpoints = endpoints,
              mn_public_key = nc_public_key n\<rparr>)))"

definition machine_member_from_proto :: "pb_machine_member \<Rightarrow> machine_member panicking" where
  "machine_member_from_proto member =
     rbind (ok_or ''Machine not set'' (pm_machine member)) (\<lambda>machine.
     rbind (native_network (mi_network machine)) (\<lambda>network.
     Ok \<lparr>mm_id = mi_id machine, mm_name = mi_name machine,
         mm_state = capitalise (state_str_name
           (case state_try_from (pm_state member) of Some s \<Rightarrow> s | None \<Rightarrow> StateUnknown)),
         mm_network = network,
         mm_public_ip =
           map_option scoped_of_address (Option.bind (mi_public_ip machine) (\<lambda>ip. ok_opt (to_addr ip))),
         mm_daemon_version = mi_daemon_version machine, mm_docker_version = mi_docker_version machine,
         mm_hostname = mi_hostname machine, mm_arch = mi_arch machine,
         mm_os_pretty_name = mi_os_pretty_name machine, mm_kernel_version = mi_kernel_version machine\<rparr>))"

definition to_native :: "pb_machine_member list \<Rightarrow> machine_member list panicking" where
  "to_native members = collect_ok (map machine_member_from_proto members)"

section \<open>Properties\<close>

definition scoped_ok :: "scoped_ip_addr \<Rightarrow> bool" where
  "scoped_ok a \<longleftrightarrow> si_zone a = [] \<or> is_ipv6 (si_address a) \<and> is_utf8 (string_of_bytes (si_zone a))"

lemma show_ip_no_char: "\<not> is_digit 16 c \<Longrightarrow> c \<noteq> CHR '':'' \<Longrightarrow> c \<noteq> CHR ''.'' \<Longrightarrow> c \<notin> set (show_ip a)"
  using set_show_ip by blast

lemma show_ip_no_percent [simp]: "CHR ''%'' \<notin> set (show_ip a)"
  by (rule show_ip_no_char) (simp_all add: is_digit_def to_digit_def)

lemma scoped_from_str_display: "scoped_ok a \<Longrightarrow> scoped_ip_from_str (scoped_ip_display a) = Some a"
proof (cases "si_zone a = []")
  case True
  moreover have "split_once CHR ''%'' (show_ip (si_address a)) = None" by simp
  ultimately show ?thesis
    by (cases a) (simp add: scoped_ip_display_def scoped_ip_from_str_def scoped_ip_from_def)
next
  case False
  assume "scoped_ok a"
  with False have v6: "is_ipv6 (si_address a)" "is_utf8 (string_of_bytes (si_zone a))"
    by (simp_all add: scoped_ok_def)
  then have "split_once CHR ''%'' (scoped_ip_display a) = Some (show_ip (si_address a), string_of_bytes (si_zone a))"
    using False by (simp add: scoped_ip_display_def)
  then show ?thesis using False v6 by (simp add: scoped_ip_from_str_def)
qed

text \<open>
  A scoped address is read back from its text: without a zone for both families, with a zone
  for IPv6 when the zone is valid UTF-8.
\<close>

theorem scoped_ip_roundtrip:
  assumes "si_zone a = [] \<or> is_ipv6 (si_address a) \<and> is_utf8 (string_of_bytes (si_zone a))"
  shows "scoped_ip_from_str (scoped_ip_display a) = Some a"
  using assms scoped_from_str_display by (simp add: scoped_ok_def)

theorem scoped_ip_roundtrip_witness:
  "scoped_ip_from_str (scoped_ip_display \<lparr>si_address = V6 1, si_zone = [101, 116, 104, 48]\<rparr>) =
     Some \<lparr>si_address = V6 1, si_zone = [101, 116, 104, 48]\<rparr>"
proof -
  have "is_utf8 (string_of_bytes [101, 116, 104, 48])" by code_simp
  then show ?thesis
    using scoped_ip_roundtrip [of "\<lparr>si_address = V6 1, si_zone = [101, 116, 104, 48]\<rparr>"] by simp
qed

lemma to_addr_port_panics: "panics (to_addr_port e) \<longleftrightarrow> pb_port_ip e = None"
  by (auto simp: to_addr_port_def split: if_splits)

lemma to_prefix_panics: "panics (to_prefix p) \<longleftrightarrow> pb_prefix_ip p = None"
  by (auto simp: to_prefix_def Let_def split: if_splits)

text \<open>
  The conversion of a member panics exactly on an absent message: the machine itself, or the
  address nested in its subnet or in one of its endpoints. A malformed address is dropped and never
  makes the conversion fail.
\<close>

theorem machine_member_panics_iff_absent:
  "is_ok (machine_member_from_proto member) \<longleftrightarrow>
     (case pm_machine member of
        None \<Rightarrow> False
      | Some machine \<Rightarrow>
          (case mi_network machine of
             None \<Rightarrow> True
           | Some n \<Rightarrow>
               (case nc_subnet n of None \<Rightarrow> True | Some s \<Rightarrow> pb_prefix_ip s \<noteq> None) \<and>
               list_all (\<lambda>e. pb_port_ip e \<noteq> None) (nc_endpoints n)))"
  by (auto simp: machine_member_from_proto_def native_network_def native_endpoints_def is_ok_rbind_projr
      is_ok_collect_ok to_prefix_panics to_addr_port_panics list_all_iff split: option.splits)

end
