(* ===== verification/Port_Spec.thy ===== *)
theory Port_Spec
  imports Machine_Spec Api_Error "HOL-Library.Multiset"
begin

text \<open>
  Port specifications (\<open>ployz-pkg-api/src/port.rs\<close>): validation, the text they are formatted to and
  the parser of that text. The main results are that the parser returns only valid specifications
  and that formatting and parsing are inverse on valid specifications whose host name and zone
  have no character of the syntax.
\<close>

section \<open>Data\<close>

definition PORT_MODE_INGRESS :: string where "PORT_MODE_INGRESS = ''ingress''"
definition PORT_MODE_HOST :: string where "PORT_MODE_HOST = ''host''"
definition PROTOCOL_HTTP :: string where "PROTOCOL_HTTP = ''http''"
definition PROTOCOL_HTTPS :: string where "PROTOCOL_HTTPS = ''https''"
definition PROTOCOL_TCP :: string where "PROTOCOL_TCP = ''tcp''"
definition PROTOCOL_UDP :: string where "PROTOCOL_UDP = ''udp''"

lemmas port_consts = PORT_MODE_INGRESS_def PORT_MODE_HOST_def PROTOCOL_HTTP_def PROTOCOL_HTTPS_def
  PROTOCOL_TCP_def PROTOCOL_UDP_def

record port_prefix =
  pp_address :: ip_addr
  pp_bits :: nat

record port_spec =
  ps_hostname :: string
  ps_host_ip :: "scoped_ip_addr option"
  ps_host_prefix :: "port_prefix option"
  ps_published_port :: "16 word"
  ps_container_port :: "16 word"
  ps_protocol :: string
  ps_mode :: string

definition port_prefix_new :: "ip_addr \<Rightarrow> nat \<Rightarrow> (api_error, port_prefix) result" where
  "port_prefix_new address bits =
     (if (if is_ipv4 address then 32 else 128) < bits then Err (invalid_lit ''invalid prefix'')
      else Ok \<lparr>pp_address = address, pp_bits = bits\<rparr>)"

definition port_prefix_display :: "port_prefix \<Rightarrow> string" where
  "port_prefix_display p = show_ip (pp_address p) @ ''/'' @ nat_to_string (pp_bits p)"

definition port_prefix_from_str :: "string \<Rightarrow> (api_error, port_prefix) result" where
  "port_prefix_from_str value =
     rbind (ok_or (invalid_lit ''invalid prefix'') (split_once CHR ''/'' value)) (\<lambda>(address, bits).
     rbind (ok_or (invalid_lit ''invalid IP address: invalid IP address syntax'') (parse_ip address)) (\<lambda>address.
     rbind (map_err (\<lambda>e. invalid_lit (''invalid prefix length: '' @ int_error_display e)) (parse_int 255 bits)) (\<lambda>bits.
     port_prefix_new address bits)))"

section \<open>Validation\<close>

definition validate_hostname :: "string \<Rightarrow> (api_error, unit) result" where
  "validate_hostname hostname =
     (if CHR ''.'' \<notin> set hostname
      then Err (invalid_lit (''invalid hostname '' @ quoted hostname @
             '': must be a valid domain name containing at least one dot''))
      else Ok ())"

definition port_validate :: "port_spec \<Rightarrow> (api_error, unit) result" where
  "port_validate p =
     (if ps_container_port p = 0 then Err (invalid_lit ''container port must be non-zero'')
      else if ps_protocol p = [] then Err (invalid_lit ''protocol must be specified'')
      else if ps_protocol p \<notin> {PROTOCOL_HTTP, PROTOCOL_HTTPS, PROTOCOL_TCP, PROTOCOL_UDP}
      then Err (invalid_lit (''invalid protocol '' @ quoted (ps_protocol p) @ '', supported protocols: '' @
             quoted ''http'' @ '', '' @ quoted ''https'' @ '', '' @ quoted ''tcp'' @ '', '' @ quoted ''udp''))
      else if ps_mode p = [] then Err (invalid_lit ''mode must be specified'')
      else if ps_mode p = PORT_MODE_INGRESS then
        (if ps_host_ip p \<noteq> None then Err (invalid_lit ''host IP cannot be specified in ingress mode'')
         else if ps_host_prefix p \<noteq> None then Err (invalid_lit ''host prefix cannot be specified in ingress mode'')
         else if ps_hostname p \<noteq> [] then
           (if ps_protocol p \<notin> {PROTOCOL_HTTP, PROTOCOL_HTTPS}
            then Err (invalid_lit (''hostname is only valid with '' @ quoted ''http'' @ '' or '' @ quoted ''https'' @ '' protocols''))
            else validate_hostname (ps_hostname p))
         else Ok ())
      else if ps_mode p = PORT_MODE_HOST then
        (if ps_host_ip p \<noteq> None \<and> ps_host_prefix p \<noteq> None
         then Err (invalid_lit ''host IP and prefix cannot both be specified in host mode'')
         else if ps_published_port p = 0 then Err (invalid_lit ''published port is required in host mode'')
         else if ps_protocol p \<notin> {PROTOCOL_TCP, PROTOCOL_UDP}
         then Err (invalid_lit (''unsupported protocol '' @ quoted (ps_protocol p) @ '' in host mode, only '' @
                quoted ''tcp'' @ '' and '' @ quoted ''udp'' @ '' are supported''))
         else if ps_hostname p \<noteq> [] then Err (invalid_lit ''hostname cannot be specified in host mode'')
         else Ok ())
      else Err (invalid_lit (''invalid mode: '' @ quoted (ps_mode p))))"

section \<open>Formatting\<close>

abbreviation show_port :: "16 word \<Rightarrow> string" where
  "show_port p \<equiv> nat_to_string (unat p)"

definition port_format :: "port_spec \<Rightarrow> (api_error, string) result" where
  "port_format p =
     rbind (port_validate p) (\<lambda>_.
     if ps_mode p = PORT_MODE_INGRESS then
       (let parts = (if ps_hostname p \<noteq> [] then [ps_hostname p] else []) @
                    (if ps_published_port p \<noteq> 0 then [show_port (ps_published_port p)] else []) @
                    [show_port (ps_container_port p)]
        in Ok (join '':'' parts @ ''/'' @ ps_protocol p))
     else if ps_mode p = PORT_MODE_HOST then
       (let parts =
              (case ps_host_ip p of
                 None \<Rightarrow> []
               | Some address \<Rightarrow>
                   [if is_ipv6 (si_address address) then ''['' @ scoped_ip_display address @ '']''
                    else scoped_ip_display address]) @
              (case ps_host_prefix p of
                 None \<Rightarrow> []
               | Some prefix \<Rightarrow>
                   [case pp_address prefix of
                      V6 address \<Rightarrow> ''['' @ show_ipv6 address @ '']/'' @ nat_to_string (pp_bits prefix)
                    | V4 _ \<Rightarrow> port_prefix_display prefix]) @
              [show_port (ps_published_port p), show_port (ps_container_port p)]
        in Ok (join '':'' parts @ ''/'' @ ps_protocol p @ ''@host''))
     else Err (invalid_lit (''not implemented for mode: '' @ quoted (ps_mode p))))"

section \<open>Parsing\<close>

definition parse_port :: "string \<Rightarrow> (int_error_kind, 16 word) result" where
  "parse_port value = map_ok of_nat (parse_int 65535 value)"

definition split_port_parts :: "string \<Rightarrow> string list" where
  "split_port_parts port =
     (let parts = split_on CHR '':'' port in
      if 3 < length parts then
        (let split = length parts - 2
         in [join '':'' (take split parts), parts ! split, parts ! (split + 1)])
      else parts)"

text \<open>The mode and protocol at the end: the mode, the protocol, the one written by the user and the rest.\<close>

definition parse_terminal :: "string \<Rightarrow> (api_error, string \<times> string \<times> string \<times> string) result" where
  "parse_terminal terminal =
     (case split_once CHR ''@'' terminal of
        Some (before, mode) \<Rightarrow>
          if mode \<noteq> PORT_MODE_HOST then Err (invalid_lit (''invalid mode: '' @ quoted mode))
          else (case split_once CHR ''/'' before of
                  Some (port_value, protocol) \<Rightarrow>
                    if protocol \<notin> {PROTOCOL_TCP, PROTOCOL_UDP}
                    then Err (invalid_lit (''unsupported protocol '' @ quoted protocol @ '' in host mode, only '' @
                           quoted ''tcp'' @ '' and '' @ quoted ''udp'' @ '' are supported''))
                    else Ok (PORT_MODE_HOST, protocol, [], port_value)
                | None \<Rightarrow> Ok (PORT_MODE_HOST, PROTOCOL_TCP, [], before))
      | None \<Rightarrow>
          (case split_once CHR ''/'' terminal of
             Some (port_value, protocol) \<Rightarrow>
               if protocol \<notin> {PROTOCOL_TCP, PROTOCOL_UDP, PROTOCOL_HTTP, PROTOCOL_HTTPS}
               then Err (invalid_lit (''unsupported protocol: '' @ quoted protocol))
               else Ok (PORT_MODE_INGRESS, protocol, protocol, port_value)
           | None \<Rightarrow> Ok (PORT_MODE_INGRESS, PROTOCOL_TCP, [], terminal)))"

text \<open>The host of a three-part specification in host mode: an address or a prefix.\<close>

definition ipv6_brackets :: "string \<Rightarrow> api_error" where
  "ipv6_brackets part = invalid_lit (''invalid host IP '' @ quoted part @
     '': IPv6 address must be enclosed in square brackets'')"

definition strip_brackets :: "string \<Rightarrow> (api_error, string) result" where
  "strip_brackets part =
     (if CHR '':'' \<in> set part then
        (case split_once CHR '']'' part of
           None \<Rightarrow> Err (ipv6_brackets part)
         | Some (before, after) \<Rightarrow>
             if \<not> starts_with part ''['' then Err (ipv6_brackets part)
             else Ok (drop 1 before @ after))
      else Ok part)"

definition parse_host :: "string \<Rightarrow> port_spec \<Rightarrow> (api_error, port_spec) result" where
  "parse_host part spec =
     rbind (strip_brackets part) (\<lambda>host.
     if CHR ''/'' \<in> set host then
       rbind (map_err (in_context (''invalid host prefix '' @ quoted part)) (port_prefix_from_str host)) (\<lambda>prefix.
       Ok (spec\<lparr>ps_host_prefix := Some prefix\<rparr>))
     else
       rbind (ok_or (invalid_lit (''invalid host IP '' @ quoted part @ '': invalid IP address syntax''))
                (scoped_ip_from_str host)) (\<lambda>address.
       Ok (spec\<lparr>ps_host_ip := Some address\<rparr>)))"

definition parse_leading :: "string list \<Rightarrow> port_spec \<Rightarrow> (api_error, port_spec) result" where
  "parse_leading parts spec =
     (if length parts = 1 then Ok spec
      else if length parts = 2 then
        (if parts ! 0 = [] then Err (invalid_lit ''hostname or published port must be specified, format: hostname:container_port or published_port:container_port'')
         else (case parse_port (parts ! 0) of
                 Ok value \<Rightarrow> Ok (spec\<lparr>ps_published_port := value\<rparr>)
               | Err _ \<Rightarrow>
                   if ps_mode spec = PORT_MODE_HOST
                   then Err (invalid_lit ''hostname cannot be specified in host mode'')
                   else Ok (spec\<lparr>ps_hostname := parts ! 0\<rparr>)))
      else if length parts = 3 then
        rbind (map_err (\<lambda>e. invalid_lit (''invalid published port '' @ quoted (parts ! 1) @ '': '' @ int_error_display e))
                 (parse_port (parts ! 1))) (\<lambda>value.
        let spec = spec\<lparr>ps_published_port := value\<rparr> in
        if ps_mode spec = PORT_MODE_HOST then parse_host (parts ! 0) spec
        else Ok (spec\<lparr>ps_hostname := parts ! 0\<rparr>))
      else Err (invalid_lit (''unexpected number of parts in port spec: '' @ nat_to_string (length parts))))"

definition parse_port_spec :: "string \<Rightarrow> (api_error, port_spec) result" where
  "parse_port_spec port =
     (if 1 < length (filter (\<lambda>c. c = CHR ''@'') port) then Err (invalid_lit (''too many '' @ quoted ''@'' @ '' symbols''))
      else
        (let parts = split_port_parts port in
         rbind (parse_terminal (if parts = [] then [] else last parts)) (\<lambda>(mode, protocol, specified, terminal).
         rbind (map_err (\<lambda>e. invalid_lit (''invalid container port '' @ quoted terminal @ '': '' @ int_error_display e))
                  (parse_port terminal)) (\<lambda>container_port.
         rbind (parse_leading parts \<lparr>ps_hostname = [], ps_host_ip = None, ps_host_prefix = None,
                  ps_published_port = 0, ps_container_port = container_port, ps_protocol = protocol,
                  ps_mode = mode\<rparr>) (\<lambda>spec.
         rbind (if ps_hostname spec \<noteq> [] then
                  (if specified = [] then Ok (spec\<lparr>ps_protocol := PROTOCOL_HTTPS\<rparr>)
                   else if specified \<notin> {PROTOCOL_HTTP, PROTOCOL_HTTPS}
                   then Err (invalid_lit (''hostname is only valid with '' @ quoted ''http'' @ '' or '' @
                          quoted ''https'' @ '' protocols, specified: '' @ quoted specified))
                   else Ok spec)
                else Ok spec) (\<lambda>spec.
         rbind (port_validate spec) (\<lambda>_. Ok spec)))))))"

section \<open>Comparison of lists of ports\<close>

definition serialise_ports :: "port_spec list \<Rightarrow> string list option" where
  "serialise_ports ports = map_option sort (ok_opt (collect_ok (map port_format ports)))"

definition ports_equal :: "port_spec list \<Rightarrow> port_spec list \<Rightarrow> bool" where
  "ports_equal left right =
     (if length left \<noteq> length right then False
      else (case (serialise_ports left, serialise_ports right) of
              (Some l, Some r) \<Rightarrow> l = r
            | _ \<Rightarrow> False))"

section \<open>Parsing returns valid specifications\<close>

lemma parse_port_show [simp]: "parse_port (show_port w) = Ok w"
proof -
  have "unat w \<le> 65535" using unat_less [of w] by simp
  then show ?thesis by (simp add: parse_port_def)
qed

lemma parse_port_spec_valid: "parse_port_spec s = Ok p \<Longrightarrow> port_validate p = Ok ()"
  by (auto simp: parse_port_spec_def Let_def rbind_eq_Ok split: if_splits prod.splits)

section \<open>Parsing inverts formatting\<close>

lemma split_on_append_general: "split_on c (a @ c # b) = split_on c a @ split_on c b"
proof (induction a)
  case (Cons x a)
  then show ?case using split_on_not_Nil [of c a] by (cases "split_on c a") auto
qed simp

lemma split_three:
  assumes "CHR '':'' \<notin> set pub" "CHR '':'' \<notin> set l"
  shows "split_port_parts (h @ CHR '':'' # pub @ CHR '':'' # l) = [h, pub, l]"
proof -
  let ?hs = "split_on CHR '':'' h"
  have parts: "split_on CHR '':'' (h @ CHR '':'' # pub @ CHR '':'' # l) = ?hs @ [pub, l]"
    using assms by (simp add: split_on_append_general split_on_no_sep)
  have nonempty: "?hs \<noteq> []" by (rule split_on_not_Nil)
  show ?thesis
  proof (cases "length ?hs = 1")
    case True
    then obtain x where hs: "?hs = [x]" by (cases ?hs) auto
    then have "x = h" using join_split_on [of "CHR '':''" h] by simp
    with hs parts show ?thesis by (simp add: split_port_parts_def)
  next
    case False
    with nonempty have "3 < length (?hs @ [pub, l])" by (cases ?hs) auto
    then show ?thesis
      using join_split_on [of "CHR '':''" h] by (simp add: split_port_parts_def parts Let_def nth_append)
  qed
qed

lemma split_two:
  "CHR '':'' \<notin> set a \<Longrightarrow> CHR '':'' \<notin> set l \<Longrightarrow> split_port_parts (a @ CHR '':'' # l) = [a, l]"
  by (simp add: split_port_parts_def split_on_append_general split_on_no_sep)

lemma split_single: "CHR '':'' \<notin> set l \<Longrightarrow> split_port_parts l = [l]"
  by (simp add: split_port_parts_def split_on_no_sep)

lemma show_port_chars [simp]:
  "CHR '':'' \<notin> set (nat_to_string n)" "CHR ''@'' \<notin> set (nat_to_string n)" "CHR ''/'' \<notin> set (nat_to_string n)"
  "CHR '']'' \<notin> set (nat_to_string n)"
  by (rule nat_to_string_not_in, simp add: is_ascii_digit_def)+

lemma parse_port_dot: "CHR ''.'' \<in> set h \<Longrightarrow> \<exists>e. parse_port h = Err e"
proof (cases "parse_port h")
  case (Inr w)
  assume dot: "CHR ''.'' \<in> set h"
  from Inr obtain n where "parse_uint 65535 h = Some n"
    by (auto simp: parse_port_def map_ok_eq_Ok parse_int_Ok)
  then have "list_all is_ascii_digit (if hd h = CHR ''+'' then tl h else h)"
    by (cases h) (auto simp: parse_uint_def Let_def split: if_splits)
  with dot have False
    by (cases h) (auto simp: list_all_iff is_ascii_digit_def split: if_splits)
  then show ?thesis ..
qed simp

definition plain_text :: "string \<Rightarrow> bool" where
  "plain_text s \<longleftrightarrow> set s \<inter> {CHR '':'', CHR ''@'', CHR ''/'', CHR '']''} = {}"

lemma plain_text_chars: "plain_text s \<longleftrightarrow> CHR '':'' \<notin> set s \<and> CHR ''@'' \<notin> set s \<and> CHR ''/'' \<notin> set s \<and> CHR '']'' \<notin> set s"
  by (auto simp: plain_text_def)

lemma count_at: "CHR ''@'' \<notin> set s \<Longrightarrow> filter (\<lambda>c. c = CHR ''@'') s = []"
  by (induction s) auto

text \<open>What a specification must avoid to survive its own text.\<close>

definition port_plain :: "port_spec \<Rightarrow> bool" where
  "port_plain p \<longleftrightarrow>
     plain_text (ps_hostname p) \<and>
     (case ps_host_ip p of
        None \<Rightarrow> True
      | Some a \<Rightarrow> scoped_ok a \<and> plain_text (string_of_bytes (si_zone a))) \<and>
     (case ps_host_prefix p of None \<Rightarrow> True | Some x \<Rightarrow> pp_bits x \<le> (if is_ipv4 (pp_address x) then 32 else 128))"

lemma protocol_chars:
  "proto \<in> {PROTOCOL_HTTP, PROTOCOL_HTTPS, PROTOCOL_TCP, PROTOCOL_UDP} \<Longrightarrow>
   proto \<noteq> [] \<and> CHR '':'' \<notin> set proto \<and> CHR ''@'' \<notin> set proto \<and> CHR ''/'' \<notin> set proto"
  by (auto simp: port_consts)

lemma parse_terminal_ingress:
  assumes "proto \<in> {PROTOCOL_HTTP, PROTOCOL_HTTPS, PROTOCOL_TCP, PROTOCOL_UDP}"
  shows "parse_terminal (show_port w @ CHR ''/'' # proto) = Ok (PORT_MODE_INGRESS, proto, proto, show_port w)"
  using assms protocol_chars [OF assms] by (auto simp: parse_terminal_def)

lemma parse_terminal_host:
  assumes "proto \<in> {PROTOCOL_TCP, PROTOCOL_UDP}"
  shows "parse_terminal (show_port w @ CHR ''/'' # proto @ ''@host'') = Ok (PORT_MODE_HOST, proto, [], show_port w)"
proof -
  have p: "CHR ''@'' \<notin> set proto" "CHR ''/'' \<notin> set proto" using assms by (auto simp: port_consts)
  then have "split_once CHR ''@'' ((show_port w @ CHR ''/'' # proto) @ CHR ''@'' # ''host'') =
      Some (show_port w @ CHR ''/'' # proto, ''host'')"
    by (intro split_once_append) simp
  then show ?thesis using assms p by (auto simp: parse_terminal_def PORT_MODE_HOST_def)
qed

lemma show_ip_syntax_chars [simp]:
  "CHR ''@'' \<notin> set (show_ip a)" "CHR ''/'' \<notin> set (show_ip a)" "CHR '']'' \<notin> set (show_ip a)"
  by (rule show_ip_no_char; simp add: is_digit_def to_digit_def)+

lemma show_ipv4_no_colon: "CHR '':'' \<notin> set (show_ip (V4 w))"
proof -
  have "CHR '':'' \<notin> set (print_radix 10 n)" for n
    using set_print_radix [of 10 "CHR '':''" n] by (auto simp: is_digit_def to_digit_def)
  then show ?thesis
    by (cases "be_bytes 4 w") (auto simp: show_ip_def show_ipv4_def join_Cons split: if_splits)
qed

lemma show_ipv6_colon: "CHR '':'' \<in> set (show_ip (V6 w))"
proof -
  have "CHR '':'' \<in> set (show_groups gs)" if "length gs = 8" for gs
    using that by (cases gs; cases "tl gs") (auto simp: show_groups_def join_Cons)
  then show ?thesis
    by (cases "longest_zeroes 0 (0, 0) (0, 0) (segments w)") (simp add: show_ip_def show_ipv6_def Let_def)
qed

lemma scoped_display_chars:
  assumes "scoped_ok a" "plain_text (string_of_bytes (si_zone a))"
  shows "CHR ''@'' \<notin> set (scoped_ip_display a)" "CHR ''/'' \<notin> set (scoped_ip_display a)"
    "CHR '']'' \<notin> set (scoped_ip_display a)"
    "CHR '':'' \<in> set (scoped_ip_display a) \<longleftrightarrow> is_ipv6 (si_address a)"
proof -
  have "CHR '':'' \<in> set (show_ip (si_address a)) \<longleftrightarrow> is_ipv6 (si_address a)"
    using show_ipv4_no_colon show_ipv6_colon by (cases "si_address a") auto
  then show "CHR '':'' \<in> set (scoped_ip_display a) \<longleftrightarrow> is_ipv6 (si_address a)"
    using assms by (auto simp: scoped_ip_display_def scoped_ok_def plain_text_chars)
qed (use assms in \<open>auto simp: scoped_ip_display_def scoped_ok_def plain_text_chars\<close>)

definition host_ip_part :: "scoped_ip_addr \<Rightarrow> string" where
  "host_ip_part a = (if is_ipv6 (si_address a) then ''['' @ scoped_ip_display a @ '']'' else scoped_ip_display a)"

definition host_prefix_part :: "port_prefix \<Rightarrow> string" where
  "host_prefix_part p =
     (case pp_address p of
        V6 address \<Rightarrow> ''['' @ show_ipv6 address @ '']/'' @ nat_to_string (pp_bits p)
      | V4 _ \<Rightarrow> port_prefix_display p)"

lemma strip_brackets_v6:
  "CHR '':'' \<in> set d \<Longrightarrow> CHR '']'' \<notin> set d \<Longrightarrow> strip_brackets (''['' @ d @ '']'' @ t) = Ok (d @ t)"
  using split_once_append [of "CHR '']''" "''['' @ d" t]
  by (simp add: strip_brackets_def starts_with_def)

lemma parse_host_ip:
  assumes "scoped_ok a" "plain_text (string_of_bytes (si_zone a))"
  shows "parse_host (host_ip_part a) spec = Ok (spec\<lparr>ps_host_ip := Some a\<rparr>)"
  using scoped_display_chars [OF assms] scoped_from_str_display [OF assms(1)]
    strip_brackets_v6 [of "scoped_ip_display a" "[]"]
  by (cases "is_ipv6 (si_address a)") (simp_all add: parse_host_def host_ip_part_def strip_brackets_def)

lemma port_prefix_from_display:
  "pp_bits p \<le> (if is_ipv4 (pp_address p) then 32 else 128) \<Longrightarrow> port_prefix_from_str (port_prefix_display p) = Ok p"
proof -
  assume bits: "pp_bits p \<le> (if is_ipv4 (pp_address p) then 32 else 128)"
  then have "pp_bits p \<le> 255" by (simp split: if_splits)
  moreover have "split_once CHR ''/'' (port_prefix_display p) = Some (show_ip (pp_address p), nat_to_string (pp_bits p))"
    by (simp add: port_prefix_display_def)
  ultimately show ?thesis using bits by (auto simp: port_prefix_from_str_def port_prefix_new_def)
qed

lemma parse_host_prefix:
  assumes "pp_bits p \<le> (if is_ipv4 (pp_address p) then 32 else 128)"
  shows "parse_host (host_prefix_part p) spec = Ok (spec\<lparr>ps_host_prefix := Some p\<rparr>)"
proof -
  have "strip_brackets (host_prefix_part p) = Ok (port_prefix_display p)"
  proof (cases "pp_address p")
    case (V4 w)
    then show ?thesis
      using show_ipv4_no_colon [of w]
      by (simp add: host_prefix_part_def strip_brackets_def port_prefix_display_def)
  next
    case (V6 w)
    then show ?thesis
      using show_ipv6_colon [of w] show_ip_syntax_chars(3) [of "V6 w"]
        strip_brackets_v6 [of "show_ipv6 w" "CHR ''/'' # nat_to_string (pp_bits p)"]
      by (simp add: host_prefix_part_def port_prefix_display_def show_ip_def)
  qed
  then show ?thesis
    using port_prefix_from_display [OF assms] by (simp add: parse_host_def port_prefix_display_def)
qed

lemma host_part_no_at:
  "scoped_ok a \<Longrightarrow> plain_text (string_of_bytes (si_zone a)) \<Longrightarrow> CHR ''@'' \<notin> set (host_ip_part a)"
  "CHR ''@'' \<notin> set (host_prefix_part p)"
  using scoped_display_chars(1) show_ip_syntax_chars(1) [of "V6 _"] show_ip_syntax_chars(1) [of "V4 _"]
  by (auto simp: host_ip_part_def host_prefix_part_def port_prefix_display_def show_ip_def split: ip_addr.splits)

text \<open>The two shapes of a formatted specification.\<close>

lemma port_format_ingress:
  assumes "port_validate p = Ok ()" "ps_mode p = PORT_MODE_INGRESS"
  shows "port_format p = Ok (
    (if ps_hostname p \<noteq> [] then ps_hostname p @ '':'' else []) @
    (if ps_published_port p \<noteq> 0 then show_port (ps_published_port p) @ '':'' else []) @
    show_port (ps_container_port p) @ CHR ''/'' # ps_protocol p)"
  using assms by (simp add: port_format_def)

lemma port_format_host:
  assumes "port_validate p = Ok ()" "ps_mode p = PORT_MODE_HOST"
  shows "port_format p = Ok (
    (case ps_host_ip p of None \<Rightarrow> [] | Some a \<Rightarrow> host_ip_part a @ '':'') @
    (case ps_host_prefix p of None \<Rightarrow> [] | Some x \<Rightarrow> host_prefix_part x @ '':'') @
    show_port (ps_published_port p) @ CHR '':'' # show_port (ps_container_port p) @ CHR ''/'' # ps_protocol p @ ''@host'')"
  using assms
  by (simp add: port_format_def port_consts host_ip_part_def host_prefix_part_def split: option.splits)

lemma port_validate_ingress:
  "port_validate p = Ok () \<Longrightarrow> ps_mode p = PORT_MODE_INGRESS \<Longrightarrow>
   ps_host_ip p = None \<and> ps_host_prefix p = None \<and>
   ps_protocol p \<in> {PROTOCOL_HTTP, PROTOCOL_HTTPS, PROTOCOL_TCP, PROTOCOL_UDP} \<and>
   (ps_hostname p = [] \<or> ps_protocol p \<in> {PROTOCOL_HTTP, PROTOCOL_HTTPS} \<and> CHR ''.'' \<in> set (ps_hostname p))"
  by (auto simp: port_validate_def validate_hostname_def split: if_splits)

lemma port_validate_host:
  "port_validate p = Ok () \<Longrightarrow> ps_mode p = PORT_MODE_HOST \<Longrightarrow>
   (ps_host_ip p = None \<or> ps_host_prefix p = None) \<and> ps_hostname p = [] \<and>
   ps_protocol p \<in> {PROTOCOL_TCP, PROTOCOL_UDP}"
  by (auto simp: port_validate_def port_consts split: if_splits)

lemma port_validate_mode: "port_validate p = Ok () \<Longrightarrow> ps_mode p = PORT_MODE_INGRESS \<or> ps_mode p = PORT_MODE_HOST"
  by (auto simp: port_validate_def split: if_splits)

abbreviation initial_spec :: "string \<Rightarrow> string \<Rightarrow> 16 word \<Rightarrow> port_spec" where
  "initial_spec mode protocol container_port \<equiv>
     \<lparr>ps_hostname = [], ps_host_ip = None, ps_host_prefix = None, ps_published_port = 0,
      ps_container_port = container_port, ps_protocol = protocol, ps_mode = mode\<rparr>"

lemma parse_port_spec_steps:
  assumes "length (filter (\<lambda>c. c = CHR ''@'') t) \<le> 1" "split_port_parts t = parts @ [l]"
    and "parse_terminal l = Ok (mode, protocol, specified, show_port container_port)"
    and "parse_leading (parts @ [l]) (initial_spec mode protocol container_port) = Ok p"
    and "if ps_hostname p = [] then True else specified \<in> {PROTOCOL_HTTP, PROTOCOL_HTTPS}" "port_validate p = Ok ()"
  shows "parse_port_spec t = Ok p"
proof -
  have "PROTOCOL_HTTP \<noteq> []" "PROTOCOL_HTTPS \<noteq> []" by (simp_all add: port_consts)
  with assms show ?thesis by (auto simp: parse_port_spec_def Let_def split: if_splits)
qed

lemma parse_format_ingress:
  assumes valid: "port_validate p = Ok ()" and mode: "ps_mode p = PORT_MODE_INGRESS" and plain: "port_plain p"
  shows "rbind (port_format p) parse_port_spec = Ok p"
proof -
  note v = port_validate_ingress [OF valid mode]
  let ?l = "show_port (ps_container_port p) @ CHR ''/'' # ps_protocol p"
  have proto: "ps_protocol p \<noteq> []" "CHR '':'' \<notin> set (ps_protocol p)" "CHR ''@'' \<notin> set (ps_protocol p)"
    using v protocol_chars [of "ps_protocol p"] by auto
  have host: "CHR '':'' \<notin> set (ps_hostname p)" "CHR ''@'' \<notin> set (ps_hostname p)"
    using plain by (auto simp: port_plain_def plain_text_chars)
  have tm: "parse_terminal ?l = Ok (PORT_MODE_INGRESS, ps_protocol p, ps_protocol p, show_port (ps_container_port p))"
    using v by (intro parse_terminal_ingress) auto
  have ne: "PORT_MODE_INGRESS \<noteq> PORT_MODE_HOST" by (simp add: port_consts)
  have hostname: "\<exists>e. parse_port (ps_hostname p) = Err e" if "ps_hostname p \<noteq> []"
    using v that by (intro parse_port_dot) auto
  let ?h = "(if ps_hostname p \<noteq> [] then [ps_hostname p] else []) @
      (if ps_published_port p \<noteq> 0 then [show_port (ps_published_port p)] else [])"
  let ?t = "(if ps_hostname p \<noteq> [] then ps_hostname p @ '':'' else []) @
      (if ps_published_port p \<noteq> 0 then show_port (ps_published_port p) @ '':'' else []) @ ?l"
  have parts: "split_port_parts ?t = ?h @ [?l]"
    using host proto by (simp add: split_single split_two split_three)
  have at: "length (filter (\<lambda>c. c = CHR ''@'') ?t) \<le> 1"
    using host proto by (simp add: count_at)
  have lead: "parse_leading (?h @ [?l]) (initial_spec PORT_MODE_INGRESS (ps_protocol p) (ps_container_port p)) = Ok p"
    using v mode ne hostname by (cases p) (auto simp: parse_leading_def Let_def)
  show ?thesis
    unfolding port_format_ingress [OF valid mode] rbind_simps
    using parse_port_spec_steps [OF at parts tm lead _ valid] v by auto
qed

lemma parse_format_host:
  assumes valid: "port_validate p = Ok ()" and mode: "ps_mode p = PORT_MODE_HOST" and plain: "port_plain p"
  shows "rbind (port_format p) parse_port_spec = Ok p"
proof -
  note v = port_validate_host [OF valid mode]
  let ?l = "show_port (ps_container_port p) @ CHR ''/'' # ps_protocol p @ ''@host''"
  have proto: "CHR '':'' \<notin> set (ps_protocol p)" "CHR ''@'' \<notin> set (ps_protocol p)"
    using v by (auto simp: port_consts)
  have tm: "parse_terminal ?l = Ok (PORT_MODE_HOST, ps_protocol p, [], show_port (ps_container_port p))"
    using v by (intro parse_terminal_host) auto
  let ?h = "(case ps_host_ip p of None \<Rightarrow> [] | Some a \<Rightarrow> [host_ip_part a]) @
    (case ps_host_prefix p of None \<Rightarrow> [] | Some x \<Rightarrow> [host_prefix_part x])"
  let ?h' = "?h @ [show_port (ps_published_port p)]"
  let ?t = "(case ps_host_ip p of None \<Rightarrow> [] | Some a \<Rightarrow> host_ip_part a @ '':'') @
    (case ps_host_prefix p of None \<Rightarrow> [] | Some x \<Rightarrow> host_prefix_part x @ '':'') @
    show_port (ps_published_port p) @ CHR '':'' # ?l"
  have "CHR '':'' \<notin> set ?l" using proto by simp
  then have parts: "split_port_parts ?t = ?h' @ [?l]"
    using v by (cases "ps_host_ip p"; cases "ps_host_prefix p") (simp_all add: split_two split_three)
  have at: "length (filter (\<lambda>c. c = CHR ''@'') ?t) \<le> 1"
    using plain proto v host_part_no_at(1)
    by (cases "ps_host_ip p"; cases "ps_host_prefix p") (simp_all add: count_at host_part_no_at(2) port_plain_def)
  have lead: "parse_leading (?h' @ [?l]) (initial_spec PORT_MODE_HOST (ps_protocol p) (ps_container_port p)) = Ok p"
    using v mode plain
    by (cases p; cases "ps_host_ip p"; cases "ps_host_prefix p")
      (auto simp: parse_leading_def Let_def port_plain_def parse_host_ip parse_host_prefix)
  show ?thesis
    unfolding port_format_host [OF valid mode] rbind_simps
    using parse_port_spec_steps [OF at parts tm lead _ valid] v by simp
qed

section \<open>Properties\<close>

lemma sort_eq_iff_mset: "sort xs = sort ys \<longleftrightarrow> mset xs = mset ys"
  by (metis mset_sort sorted_list_of_multiset_mset)

lemma parse_format:
  "port_format p = Ok s \<Longrightarrow> port_plain p \<Longrightarrow> parse_port_spec s = Ok p"
proof -
  assume ok: "port_format p = Ok s" and plain: "port_plain p"
  then have valid: "port_validate p = Ok ()" by (auto simp: port_format_def rbind_eq_Ok)
  from port_validate_mode [OF valid] have "rbind (port_format p) parse_port_spec = Ok p"
    using parse_format_ingress [OF valid _ plain] parse_format_host [OF valid _ plain] by blast
  with ok show ?thesis by simp
qed

lemma port_format_valid: "is_ok (port_format p) \<longleftrightarrow> is_ok (port_validate p)"
  using port_validate_mode [of p] by (auto simp: port_format_def is_ok_iff rbind_eq_Ok)

text \<open>
  (C21) A valid port specification whose host name and IPv6 zone have none of the separators of the
  syntax (colon, at sign, slash, closing bracket) is formatted, and parsing the text gives the
  specification back: mode, protocol, both ports, the host name, and the host address or prefix of either
  family. The condition is needed: validation asks of a host name only that it has a dot, and one with a
  colon is read back as a host name and a port.
\<close>

theorem port_spec_roundtrip:
  assumes "port_validate p = Ok ()" "port_plain p"
  shows "\<exists>s. port_format p = Ok s \<and> parse_port_spec s = Ok p"
  using assms port_format_valid [of p] parse_format [of p] by (auto simp: is_ok_iff)

theorem port_spec_roundtrip_witness:
  "\<exists>s. port_format \<lparr>ps_hostname = [], ps_host_ip = Some \<lparr>si_address = V6 1, si_zone = []\<rparr>, ps_host_prefix = None,
      ps_published_port = 53, ps_container_port = 5353, ps_protocol = ''udp'', ps_mode = ''host''\<rparr> = Ok s \<and>
    parse_port_spec s = Ok \<lparr>ps_hostname = [], ps_host_ip = Some \<lparr>si_address = V6 1, si_zone = []\<rparr>, ps_host_prefix = None,
      ps_published_port = 53, ps_container_port = 5353, ps_protocol = ''udp'', ps_mode = ''host''\<rparr>"
  by (rule port_spec_roundtrip)
    (simp_all add: port_validate_def port_consts port_plain_def scoped_ok_def plain_text_def string_of_bytes_def)

text \<open>
  The parser returns only specifications that validation accepts, so a parsed port has a
  non-zero container port, and in host mode a non-zero published port and a TCP or UDP protocol.
\<close>

theorem parse_port_spec_validates:
  assumes "parse_port_spec s = Ok p"
  shows "port_validate p = Ok () \<and> ps_container_port p \<noteq> 0 \<and>
    (ps_mode p = ''ingress'' \<or>
     ps_mode p = ''host'' \<and> ps_published_port p \<noteq> 0 \<and> ps_protocol p \<in> {''tcp'', ''udp''})"
  using parse_port_spec_valid [OF assms] by (auto simp: port_validate_def port_consts split: if_splits)

theorem parse_port_spec_validates_witness:
  "parse_port_spec ''8:9/tcp@host'' =
     Ok \<lparr>ps_hostname = [], ps_host_ip = None, ps_host_prefix = None, ps_published_port = 8,
         ps_container_port = 9, ps_protocol = ''tcp'', ps_mode = ''host''\<rparr> \<and>
   port_validate \<lparr>ps_hostname = [], ps_host_ip = None, ps_host_prefix = None, ps_published_port = 8,
         ps_container_port = 9, ps_protocol = ''tcp'', ps_mode = ''host''\<rparr> = Ok ()"
proof -
  let ?p = "\<lparr>ps_hostname = [], ps_host_ip = None, ps_host_prefix = None, ps_published_port = 8,
         ps_container_port = 9, ps_protocol = ''tcp'', ps_mode = ''host''\<rparr> :: port_spec"
  have "port_format ?p = Ok ''8:9/tcp@host''" by code_simp
  moreover have "port_plain ?p" by (simp add: port_plain_def plain_text_def)
  ultimately have "parse_port_spec ''8:9/tcp@host'' = Ok ?p" by (rule parse_format)
  then show ?thesis using parse_port_spec_validates by blast
qed

text \<open>
  For plain specifications, \<open>ports_equal\<close> holds exactly when all ports are valid and the two
  lists are the same up to order, with the same multiplicities.
\<close>

theorem ports_equal_iff_same_ports:
  assumes "list_all port_plain left" "list_all port_plain right"
  shows "ports_equal left right \<longleftrightarrow>
    list_all (\<lambda>p. port_validate p = Ok ()) (left @ right) \<and> mset left = mset right"
proof -
  define f where "f p = projr (port_format p)" for p
  have ok: "is_ok (port_format p) \<longleftrightarrow> port_validate p = Ok ()" for p
    using port_format_valid [of p] by (auto simp: is_ok_iff)
  have fmt: "port_format p = Ok (f p)" if "port_validate p = Ok ()" for p
    using ok [of p] that by (auto simp: is_ok_iff f_def)
  have ser: "serialise_ports ps = (if list_all (\<lambda>p. port_validate p = Ok ()) ps then Some (sort (map f ps)) else None)" for ps
  proof (cases "list_all (\<lambda>p. port_validate p = Ok ()) ps")
    case True
    then have "collect_ok (map port_format ps) = Ok (map f ps)"
      using fmt by (auto simp: list_all_iff collect_ok_Ok)
    then show ?thesis using True by (simp add: serialise_ports_def)
  next
    case False
    then have "\<not> is_ok (collect_ok (map port_format ps))" using ok by (auto simp: is_ok_collect_ok list_all_iff)
    with False show ?thesis by (cases "collect_ok (map port_format ps)") (auto simp: serialise_ports_def)
  qed
  have inj: "p = q" if "port_plain p" "port_plain q" "port_validate p = Ok ()" "port_validate q = Ok ()" "f p = f q" for p q
    using that ok [of p] ok [of q] parse_format [of p] parse_format [of q] by (auto simp: is_ok_iff f_def)
  have "mset left = mset right"
    if "image_mset f (mset left) = image_mset f (mset right)" "list_all (\<lambda>p. port_validate p = Ok ()) (left @ right)"
    using that assms by (intro multiset.inj_map_strong [OF _ that(1)]) (auto simp: list_all_iff intro: inj)
  then have "sort (map f left) = sort (map f right) \<longleftrightarrow> mset left = mset right"
    if "list_all (\<lambda>p. port_validate p = Ok ()) (left @ right)"
    using that by (auto simp: sort_eq_iff_mset)
  then show ?thesis
    by (auto simp: ports_equal_def ser dest: mset_eq_length)
qed

theorem ports_equal_iff_same_ports_witness:
  "ports_equal [initial_spec ''ingress'' ''tcp'' 80, initial_spec ''ingress'' ''udp'' 53]
     [initial_spec ''ingress'' ''udp'' 53, initial_spec ''ingress'' ''tcp'' 80]"
  using ports_equal_iff_same_ports [of
      "[initial_spec ''ingress'' ''tcp'' 80, initial_spec ''ingress'' ''udp'' 53]"
      "[initial_spec ''ingress'' ''udp'' 53, initial_spec ''ingress'' ''tcp'' 80]"]
  by (simp add: port_plain_def plain_text_def port_validate_def port_consts add_mset_commute)

end
