(* ===== verification/Service_Spec.thy ===== *)
theory Service_Spec
  imports Config_Spec Port_Spec
begin

text \<open>
  Service specifications (\<open>ployz-pkg-api/src/service.rs\<close>): the data with its defaults, the
  validation of a service with its volumes, configurations, ports and hooks, and the equivalence of
  container specifications. Signed 64-bit fields that are only stored are integers. The reference
  parser of image names belongs to a third-party package: it is the parameter \<open>parse_reference\<close>
  of the validation. The iteration order of a hash map is the parameter \<open>hash_order\<close>.
\<close>

section \<open>Data\<close>

definition SERVICE_MODE_REPLICATED :: string where "SERVICE_MODE_REPLICATED = ''replicated''"
definition SERVICE_MODE_GLOBAL :: string where "SERVICE_MODE_GLOBAL = ''global''"
definition PULL_POLICY_MISSING :: string where "PULL_POLICY_MISSING = ''missing''"

lemmas service_consts = SERVICE_MODE_REPLICATED_def SERVICE_MODE_GLOBAL_def PULL_POLICY_MISSING_def

type_synonym env_vars = "(string, string) gomap"

record caddy_spec =
  cd_config :: string

record placement =
  pl_machines :: "string goslice"

record healthcheck_spec =
  hs_test :: "string goslice"
  hs_interval :: int
  hs_timeout :: int
  hs_start_period :: int
  hs_start_interval :: int
  hs_retries :: "64 word"
  hs_disable :: bool

record log_driver =
  ld_name :: string
  ld_options :: "(string, string) gomap"

record device_mapping =
  dm_host_path :: string
  dm_container_path :: string
  dm_cgroup_permissions :: string

record device_request =
  dr_driver :: string
  dr_count :: int
  dr_device_ids :: "string goslice"
  dr_capabilities :: "string goslice goslice"
  dr_options :: "(string, string) gomap"

record ulimit =
  ul_soft :: int
  ul_hard :: int

record container_resources =
  cr_cpu :: int
  cr_memory :: int
  cr_memory_reservation :: int
  cr_devices :: "device_mapping goslice"
  cr_device_reservations :: "device_request goslice"
  cr_shared_memory :: int
  cr_ulimits :: "(string, ulimit) gomap"

record pre_deploy_hook =
  pd_command :: "string goslice"
  pd_env :: env_vars
  pd_privileged :: "bool option"
  pd_timeout :: "int option"
  pd_user :: string

record update_config =
  uc_order :: string
  uc_monitor_period :: "int option"

record container_spec =
  ct_cap_add :: "string goslice"
  ct_cap_drop :: "string goslice"
  ct_command :: "string goslice"
  ct_entrypoint :: "string goslice"
  ct_env :: env_vars
  ct_healthcheck :: "healthcheck_spec option"
  ct_image :: string
  ct_init :: "bool option"
  ct_log_driver :: "log_driver option"
  ct_pid_mode :: string
  ct_tty :: bool
  ct_open_stdin :: bool
  ct_privileged :: bool
  ct_pull_policy :: string
  ct_resources :: container_resources
  ct_stop_grace_period :: "int option"
  ct_sysctls :: "(string, string) gomap"
  ct_user :: string
  ct_volume_mounts :: "volume_mount goslice"
  ct_config_mounts :: "config_mount goslice"
  ct_volumes :: "string goslice"

record service_spec =
  sv_caddy :: "caddy_spec option"
  sv_configs :: "config_spec goslice"
  sv_container :: container_spec
  sv_mode :: string
  sv_name :: string
  sv_placement :: placement
  sv_ports :: "port_spec goslice"
  sv_pre_deploy :: "pre_deploy_hook option"
  sv_replicas :: "64 word"
  sv_update_config :: update_config
  sv_volumes :: "volume_spec goslice"

text \<open>The derived \<open>Default\<close> of the specification.\<close>

definition container_resources_default :: container_resources where
  "container_resources_default =
     \<lparr>cr_cpu = 0, cr_memory = 0, cr_memory_reservation = 0, cr_devices = gs_default,
      cr_device_reservations = gs_default, cr_shared_memory = 0, cr_ulimits = gm_default\<rparr>"

definition container_spec_default :: container_spec where
  "container_spec_default =
     \<lparr>ct_cap_add = gs_default, ct_cap_drop = gs_default, ct_command = gs_default,
      ct_entrypoint = gs_default, ct_env = gm_default, ct_healthcheck = None, ct_image = [],
      ct_init = None, ct_log_driver = None, ct_pid_mode = [], ct_tty = False, ct_open_stdin = False,
      ct_privileged = False, ct_pull_policy = [], ct_resources = container_resources_default,
      ct_stop_grace_period = None, ct_sysctls = gm_default, ct_user = [],
      ct_volume_mounts = gs_default, ct_config_mounts = gs_default, ct_volumes = gs_default\<rparr>"

definition service_spec_default :: service_spec where
  "service_spec_default =
     \<lparr>sv_caddy = None, sv_configs = gs_default, sv_container = container_spec_default, sv_mode = [],
      sv_name = [], sv_placement = \<lparr>pl_machines = gs_default\<rparr>, sv_ports = gs_default,
      sv_pre_deploy = None, sv_replicas = 0,
      sv_update_config = \<lparr>uc_order = [], uc_monitor_period = None\<rparr>, sv_volumes = gs_default\<rparr>"

section \<open>Operations\<close>

definition is_lower_hex :: "char \<Rightarrow> bool" where
  "is_lower_hex c \<longleftrightarrow> is_ascii_digit c \<or> (97 \<le> byte_of c \<and> byte_of c \<le> 102)"

definition validate_service_id :: "string \<Rightarrow> bool" where
  "validate_service_id service_id \<longleftrightarrow> length service_id = 32 \<and> list_all is_lower_hex service_id"

definition caddy_equivalent :: "caddy_spec option \<Rightarrow> caddy_spec option \<Rightarrow> bool" where
  "caddy_equivalent left right \<longleftrightarrow>
     (case left of None \<Rightarrow> '''' | Some spec \<Rightarrow> trim (cd_config spec)) =
     (case right of None \<Rightarrow> '''' | Some spec \<Rightarrow> trim (cd_config spec))"

definition caddy_config :: "service_spec \<Rightarrow> string" where
  "caddy_config s = (case sv_caddy s of None \<Rightarrow> '''' | Some caddy \<Rightarrow> trim (cd_config caddy))"

definition service_volume :: "service_spec \<Rightarrow> string \<Rightarrow> volume_spec option" where
  "service_volume s name = find (\<lambda>v. vs_name v = name) (gs_values (sv_volumes s))"

definition service_config :: "service_spec \<Rightarrow> string \<Rightarrow> config_spec option" where
  "service_config s name = find (\<lambda>c. cs_name c = name) (gs_values (sv_configs s))"

text \<open>
  The mounted volumes of type \<open>volume\<close>, collected in a hash map from their names: one entry for
  each name, in the order of the hash map.
\<close>

definition mounted_named_volumes :: "service_spec \<Rightarrow> volume_spec list" where
  "mounted_named_volumes s =
     filter (\<lambda>v. vs_kind v = VOLUME_TYPE_VOLUME)
       (List.map_filter (\<lambda>m. service_volume s (vm_volume_name m)) (gs_values (ct_volume_mounts (sv_container s))))"

definition mounted_docker_volumes ::
  "((string \<times> volume_spec) list \<Rightarrow> (string \<times> volume_spec) list) \<Rightarrow> service_spec \<Rightarrow> volume_spec list" where
  "mounted_docker_volumes hash_order s =
     map snd (hash_order (bm_of_list (map (\<lambda>v. (vs_name v, v)) (mounted_named_volumes s))))"

definition container_with_defaults :: "container_spec \<Rightarrow> container_spec" where
  "container_with_defaults c =
     c\<lparr>ct_log_driver := (case ct_log_driver c of
          Some d \<Rightarrow> Some d | None \<Rightarrow> Some \<lparr>ld_name = ''local'', ld_options = gm_from []\<rparr>),
       ct_pull_policy := (if ct_pull_policy c = [] then PULL_POLICY_MISSING else ct_pull_policy c)\<rparr>"

definition service_with_defaults :: "service_spec \<Rightarrow> service_spec" where
  "service_with_defaults s =
     (let mode = (if sv_mode s = [] then SERVICE_MODE_REPLICATED else sv_mode s)
      in s\<lparr>sv_mode := mode,
           sv_replicas := (if mode = SERVICE_MODE_REPLICATED \<and> sv_replicas s = 0 then 1 else sv_replicas s),
           sv_container := container_with_defaults (sv_container s),
           sv_volumes := (if \<not> gs_nil (sv_volumes s)
                          then gs_from (map volume_with_defaults (gs_values (sv_volumes s)))
                          else sv_volumes s)\<rparr>)"

definition hook_validate :: "pre_deploy_hook \<Rightarrow> (api_error, unit) result" where
  "hook_validate h =
     (if gs_is_empty (pd_command h) then Err (invalid_lit ''pre-deploy hook command is required'') else Ok ())"

definition hook_equivalent :: "pre_deploy_hook option \<Rightarrow> pre_deploy_hook option \<Rightarrow> bool" where
  "hook_equivalent left right =
     (case (left, right) of
        (Some l, Some r) \<Rightarrow>
          l\<lparr>pd_command := gs_make_non_nil (pd_command l), pd_env := gm_make_non_nil (pd_env l)\<rparr> =
          r\<lparr>pd_command := gs_make_non_nil (pd_command r), pd_env := gm_make_non_nil (pd_env r)\<rparr>
      | (None, None) \<Rightarrow> True
      | _ \<Rightarrow> False)"

definition to_env :: "env_vars \<Rightarrow> string list" where
  "to_env env = map (\<lambda>(key, value). key @ ''='' @ value) (filter (\<lambda>(key, value). key \<noteq> []) (gm_values env))"

subsection \<open>Equivalence of container specifications\<close>

definition request_equate_empty :: "device_request \<Rightarrow> device_request" where
  "request_equate_empty r =
     r\<lparr>dr_device_ids := gs_make_non_nil (dr_device_ids r),
       dr_capabilities := gs_modify (map gs_make_non_nil) (gs_make_non_nil (dr_capabilities r)),
       dr_options := gm_make_non_nil (dr_options r)\<rparr>"

definition resources_equate_empty :: "container_resources \<Rightarrow> container_resources" where
  "resources_equate_empty r =
     r\<lparr>cr_devices := gs_make_non_nil (cr_devices r),
       cr_device_reservations := gs_modify (map request_equate_empty) (gs_make_non_nil (cr_device_reservations r)),
       cr_ulimits := gm_make_non_nil (cr_ulimits r)\<rparr>"

definition container_equate_empty :: "container_spec \<Rightarrow> container_spec" where
  "container_equate_empty c =
     c\<lparr>ct_cap_add := gs_make_non_nil (ct_cap_add c),
       ct_cap_drop := gs_make_non_nil (ct_cap_drop c),
       ct_command := gs_make_non_nil (ct_command c),
       ct_entrypoint := gs_make_non_nil (ct_entrypoint c),
       ct_env := gm_make_non_nil (ct_env c),
       ct_sysctls := gm_make_non_nil (ct_sysctls c),
       ct_volume_mounts := gs_make_non_nil (ct_volume_mounts c),
       ct_config_mounts := gs_make_non_nil (ct_config_mounts c),
       ct_volumes := gs_make_non_nil (ct_volumes c),
       ct_healthcheck := map_option (\<lambda>h. h\<lparr>hs_test := gs_make_non_nil (hs_test h)\<rparr>) (ct_healthcheck c),
       ct_log_driver := map_option (\<lambda>d. d\<lparr>ld_options := gm_make_non_nil (ld_options d)\<rparr>) (ct_log_driver c),
       ct_resources := resources_equate_empty (ct_resources c)\<rparr>"

definition container_sort :: "container_spec \<Rightarrow> container_spec" where
  "container_sort c =
     c\<lparr>ct_volumes := gs_modify sort (ct_volumes c),
       ct_volume_mounts := gs_modify sort (ct_volume_mounts c),
       ct_config_mounts := gs_modify sort (ct_config_mounts c)\<rparr>"

definition container_equivalent :: "container_spec \<Rightarrow> container_spec \<Rightarrow> bool" where
  "container_equivalent a b \<longleftrightarrow>
     container_equate_empty (container_sort (container_with_defaults a)) =
     container_equate_empty (container_sort (container_with_defaults b))"

subsection \<open>Validation\<close>

record oci_reference =
  or_tag :: "string option"
  or_digest :: "string option"

definition invalid_image :: "string \<Rightarrow> string \<Rightarrow> api_error" where
  "invalid_image input reason = invalid_lit (''invalid image '' @ quoted input @ '': '' @ reason)"

text \<open>The reference with a bracketed IPv6 registry replaced by a host name the parser accepts.\<close>

definition reference_input :: "string \<Rightarrow> (api_error, string) result" where
  "reference_input input =
     (if starts_with input ''['' then
        (case split_once CHR ''/'' input of
           None \<Rightarrow> Err (invalid_image input ''invalid bracketed registry'')
         | Some (authority, path) \<Rightarrow>
             (case split_once CHR '']'' authority of
                None \<Rightarrow> Err (invalid_image input ''invalid bracketed registry'')
              | Some (before, port) \<Rightarrow>
                  rbind (ok_or (invalid_image input ''invalid IPv6 address syntax'') (parse_ipv6 (drop 1 before))) (\<lambda>_.
                  if port \<noteq> [] \<and>
                     (case strip_prefix port '':'' of
                        None \<Rightarrow> True
                      | Some value \<Rightarrow> value = [] \<or> \<not> list_all is_ascii_digit value)
                  then Err (invalid_image input ''invalid registry port'')
                  else Ok (''ipv6.invalid'' @ port @ ''/'' @ path))))
      else Ok input)"

definition valid_tag :: "string \<Rightarrow> bool" where
  "valid_tag tag \<longleftrightarrow>
     list_all (\<lambda>c. byte_of c < 128) tag \<and> tag \<noteq> [] \<and> length tag \<le> 128 \<and>
     list_all (\<lambda>(index, c). is_ascii_alphanumeric c \<or> c = CHR ''_'' \<or>
       (0 < index \<and> (c = CHR ''.'' \<or> c = CHR ''-''))) (List.enumerate 0 tag)"

definition digest_length :: "string \<Rightarrow> nat option" where
  "digest_length algorithm =
     (if algorithm = ''sha256'' then Some 64 else if algorithm = ''sha384'' then Some 96
      else if algorithm = ''sha512'' then Some 128 else None)"

definition validate_docker_reference ::
  "(string \<Rightarrow> (string, oci_reference) result) \<Rightarrow> string \<Rightarrow> (api_error, unit) result" where
  "validate_docker_reference parse_reference input =
     rbind (reference_input input) (\<lambda>parse_input.
     rbind (map_err (invalid_image input) (parse_reference parse_input)) (\<lambda>reference.
     if (case or_tag reference of None \<Rightarrow> False | Some tag \<Rightarrow> \<not> valid_tag tag)
     then Err (invalid_image input ''invalid tag'')
     else (case or_digest reference of
             None \<Rightarrow> Ok ()
           | Some digest \<Rightarrow>
               rbind (ok_or (invalid_image input ''invalid digest'') (split_once CHR '':'' digest)) (\<lambda>(algorithm, encoded).
               rbind (ok_or (invalid_image input ''unsupported digest algorithm'') (digest_length algorithm)) (\<lambda>expected.
               if length encoded \<noteq> expected \<or> \<not> list_all is_lower_hex encoded
               then Err (invalid_image input ''invalid digest'')
               else Ok ())))))"

definition container_validate ::
  "(string \<Rightarrow> (string, oci_reference) result) \<Rightarrow> container_spec \<Rightarrow> (api_error, unit) result" where
  "container_validate parse_reference c =
     rbind (validate_docker_reference parse_reference (ct_image c)) (\<lambda>_.
     for_each (\<lambda>mount. map_err (in_context ''invalid volume mount'') (mount_validate mount))
       (gs_values (ct_volume_mounts c)))"

definition name_chars_ok :: "string \<Rightarrow> bool" where
  "name_chars_ok name \<longleftrightarrow>
     name \<noteq> [] \<and> is_ascii_alphanumeric (hd name) \<and> is_ascii_alphanumeric (last name) \<and>
     list_all (\<lambda>c. is_ascii_lowercase c \<or> is_ascii_digit c \<or> c = CHR ''-'') name"

definition validate_service_name :: "string \<Rightarrow> (api_error, unit) result" where
  "validate_service_name name =
     (if name \<noteq> [] then
        (if 63 < length name then Err (Invalid [Lit ''service name too long (max 63 characters): '', Dbg name])
         else if \<not> name_chars_ok name
         then Err (Invalid [Lit ''invalid service name: '', Dbg name,
                Lit ''. must be 1-63 characters, lowercase letters, numbers, and dashes only; must start and end with a letter or number''])
         else Ok ())
      else Ok ())"

definition is_ingress :: "port_spec \<Rightarrow> bool" where
  "is_ingress p \<longleftrightarrow> ps_mode p = [] \<or> ps_mode p = PORT_MODE_INGRESS"

definition validate_service_port :: "port_spec \<Rightarrow> (api_error, unit) result" where
  "validate_service_port p =
     (if is_ingress p \<and> ps_protocol p \<notin> {PROTOCOL_HTTP, PROTOCOL_HTTPS}
      then Err (invalid_lit (''unsupported protocol for ingress port '' @ show_port (ps_container_port p) @
             '': '' @ ps_protocol p))
      else Ok ())"

fun validate_volume_names :: "string list \<Rightarrow> volume_spec list \<Rightarrow> (api_error, string list) result" where
  "validate_volume_names names [] = Ok names"
| "validate_volume_names names (volume # volumes) =
     rbind (map_err (in_context ''invalid volume'') (volume_validate volume)) (\<lambda>_.
     if vs_name volume \<in> set names
     then Err (invalid_lit (''duplicate volume name: '' @ quoted (vs_name volume)))
     else validate_volume_names (vs_name volume # names) volumes)"

definition service_validate ::
  "(string \<Rightarrow> (string, oci_reference) result) \<Rightarrow> service_spec \<Rightarrow> (api_error, unit) result" where
  "service_validate parse_reference s =
     rbind (container_validate parse_reference (sv_container s)) (\<lambda>_.
     if sv_mode s \<notin> {[], SERVICE_MODE_GLOBAL, SERVICE_MODE_REPLICATED}
     then Err (Invalid [Lit ''invalid mode: '', Dbg (sv_mode s)])
     else
       rbind (validate_service_name (sv_name s)) (\<lambda>_.
       rbind (for_each validate_service_port (gs_values (sv_ports s))) (\<lambda>_.
       if caddy_config s \<noteq> [] \<and> list_ex is_ingress (gs_values (sv_ports s))
       then Err (invalid_lit ''ingress ports and Caddy configuration cannot be specified simultaneously: Caddy config is auto-generated from ingress ports, use only one of them. Host mode ports can be used with Caddy config'')
       else
         rbind (validate_volume_names [] (gs_values (sv_volumes s))) (\<lambda>names.
         rbind (for_each (\<lambda>mount.
                  if vm_volume_name mount \<notin> set names
                  then Err (invalid_lit (''volume mount references a volume that doesn'' @ [CHR 0x27] @
                         ''t exist in the service spec: '' @ quoted (vm_volume_name mount)))
                  else Ok ()) (gs_values (ct_volume_mounts (sv_container s)))) (\<lambda>_.
         rbind (map_err (in_context ''validate service configs and mounts'')
                  (validate_configs_and_mounts (gs_values (sv_configs s))
                     (gs_values (ct_config_mounts (sv_container s))))) (\<lambda>_.
         case sv_pre_deploy s of Some hook \<Rightarrow> hook_validate hook | None \<Rightarrow> Ok ()))))))"

section \<open>Properties\<close>

lemma validate_volume_names_Ok:
  "validate_volume_names names volumes = Ok names' \<longleftrightarrow>
     names' = rev (map vs_name volumes) @ names \<and> list_all (\<lambda>v. volume_validate v = Ok ()) volumes \<and>
     distinct (map vs_name volumes) \<and> set (map vs_name volumes) \<inter> set names = {}"
  by (induction names volumes rule: validate_volume_names.induct) (auto simp: result_simps)

lemma validate_service_name_Ok: "validate_service_name name = Ok () \<longleftrightarrow> name = [] \<or> length name \<le> 63 \<and> name_chars_ok name"
  by (auto simp: validate_service_name_def)

lemma mount_validate_Ok: "mount_validate m = Ok () \<longleftrightarrow> vm_volume_name m \<noteq> [] \<and> is_absolute (vm_container_path m)"
  by (auto simp: mount_validate_def)

lemma service_validate_Ok:
  "service_validate pr s = Ok () \<longleftrightarrow>
     validate_docker_reference pr (ct_image (sv_container s)) = Ok () \<and>
     sv_mode s \<in> {[], ''global'', ''replicated''} \<and>
     (sv_name s = [] \<or> length (sv_name s) \<le> 63 \<and> name_chars_ok (sv_name s)) \<and>
     list_all (\<lambda>p. is_ingress p \<longrightarrow> ps_protocol p \<in> {''http'', ''https''}) (gs_values (sv_ports s)) \<and>
     (caddy_config s = [] \<or> list_all (\<lambda>p. \<not> is_ingress p) (gs_values (sv_ports s))) \<and>
     list_all (\<lambda>v. volume_validate v = Ok ()) (gs_values (sv_volumes s)) \<and>
     distinct (map vs_name (gs_values (sv_volumes s))) \<and>
     list_all (\<lambda>m. vm_volume_name m \<noteq> [] \<and> is_absolute (vm_container_path m) \<and>
         vm_volume_name m \<in> set (map vs_name (gs_values (sv_volumes s))))
       (gs_values (ct_volume_mounts (sv_container s))) \<and>
     validate_configs_and_mounts (gs_values (sv_configs s)) (gs_values (ct_config_mounts (sv_container s))) = Ok () \<and>
     (case sv_pre_deploy s of None \<Rightarrow> True | Some hook \<Rightarrow> gs_values (pd_command hook) \<noteq> [])"
  (is "?l \<longleftrightarrow> ?r")
proof -
  have name: "validate_service_name name = Ok u \<longleftrightarrow> name = [] \<or> length name \<le> 63 \<and> name_chars_ok name" for name and u :: unit
    using validate_service_name_Ok [of name] by simp
  have port: "validate_service_port p = Ok u \<longleftrightarrow> (is_ingress p \<longrightarrow> ps_protocol p \<in> {''http'', ''https''})" for p and u :: unit
    by (auto simp: validate_service_port_def port_consts)
  have hook: "(case sv_pre_deploy s of Some hook \<Rightarrow> hook_validate hook | None \<Rightarrow> Ok ()) = Ok u \<longleftrightarrow>
      (case sv_pre_deploy s of None \<Rightarrow> True | Some hook \<Rightarrow> gs_values (pd_command hook) \<noteq> [])" for u :: unit
    by (auto simp: hook_validate_def gs_is_empty_def split: option.splits)
  have cont: "container_validate pr c = Ok u \<longleftrightarrow> validate_docker_reference pr (ct_image c) = Ok () \<and>
      (\<forall>m\<in>set (gs_values (ct_volume_mounts c)). vm_volume_name m \<noteq> [] \<and> is_absolute (vm_container_path m))" for c and u :: unit
    by (auto simp: container_validate_def result_simps mount_validate_Ok)
  have mode: "sv_mode s \<notin> {[], SERVICE_MODE_GLOBAL, SERVICE_MODE_REPLICATED} \<longleftrightarrow> sv_mode s \<notin> {[], ''global'', ''replicated''}"
    by (auto simp: service_consts)
  have caddy: "(caddy_config s \<noteq> [] \<and> list_ex is_ingress (gs_values (sv_ports s))) \<longleftrightarrow>
      \<not> (caddy_config s = [] \<or> list_all (\<lambda>p. \<not> is_ingress p) (gs_values (sv_ports s)))"
    by (auto simp: list_ex_iff list_all_iff)
  show ?thesis
    unfolding service_validate_def rbind_eq_Ok mode caddy
    by (auto simp: rbind_eq_Ok for_each_Ok name port hook cont validate_volume_names_Ok list_all_iff split: if_splits)
qed

text \<open>
  (C22) A service specification is accepted exactly when its image reference is, its mode is empty,
  \<open>global\<close> or \<open>replicated\<close>, its name is empty or at most 63 lower-case letters, digits and inner
  dashes, ingress ports use HTTP or HTTPS and do not come with a Caddy configuration, volumes are
  valid with distinct names, every mount has an absolute path and a declared volume,
  configurations have distinct names and valid mounts, and a pre-deploy hook has a command.
\<close>

theorem service_validate_iff:
  "service_validate parse_reference s = Ok () \<longleftrightarrow>
     validate_docker_reference parse_reference (ct_image (sv_container s)) = Ok () \<and>
     sv_mode s \<in> {[], ''global'', ''replicated''} \<and>
     (sv_name s = [] \<or> length (sv_name s) \<le> 63 \<and> name_chars_ok (sv_name s)) \<and>
     list_all (\<lambda>p. if is_ingress p then ps_protocol p \<in> {''http'', ''https''} else True) (gs_values (sv_ports s)) \<and>
     (caddy_config s = [] \<or> list_all (\<lambda>p. \<not> is_ingress p) (gs_values (sv_ports s))) \<and>
     list_all (\<lambda>v. volume_validate v = Ok ()) (gs_values (sv_volumes s)) \<and>
     distinct (map vs_name (gs_values (sv_volumes s))) \<and>
     list_all (\<lambda>m. vm_volume_name m \<noteq> [] \<and> is_absolute (vm_container_path m) \<and>
         vm_volume_name m \<in> set (map vs_name (gs_values (sv_volumes s))))
       (gs_values (ct_volume_mounts (sv_container s))) \<and>
     list_all (\<lambda>c. cs_name c \<noteq> []) (gs_values (sv_configs s)) \<and> distinct (map cs_name (gs_values (sv_configs s))) \<and>
     list_all (\<lambda>m. config_mount_ok m \<and> cm_config_name m \<in> set (map cs_name (gs_values (sv_configs s))))
       (gs_values (ct_config_mounts (sv_container s))) \<and>
     (case sv_pre_deploy s of None \<Rightarrow> True | Some hook \<Rightarrow> gs_values (pd_command hook) \<noteq> [])"
  unfolding service_validate_Ok validate_configs_and_mounts_Ok by (simp add: list_all_iff)

lemma container_with_defaults_idem [simp]: "container_with_defaults (container_with_defaults c) = container_with_defaults c"
  by (auto simp: container_with_defaults_def PULL_POLICY_MISSING_def split: option.splits)

lemma container_with_defaults_keep [simp]:
  "ct_image (container_with_defaults c) = ct_image c" "ct_volume_mounts (container_with_defaults c) = ct_volume_mounts c"
  "ct_config_mounts (container_with_defaults c) = ct_config_mounts c"
  by (simp_all add: container_with_defaults_def)

lemma volume_validate_defaults [simp]: "volume_validate (volume_with_defaults v) = volume_validate v"
  by (simp add: volume_validate_def)

text \<open>
  Filling in the defaults of a service is idempotent, gives a non-empty mode and at least one
  replica to a replicated service, and does not change whether the service is valid.
\<close>

theorem service_defaults:
  "service_with_defaults (service_with_defaults s) = service_with_defaults s \<and>
   sv_mode (service_with_defaults s) \<noteq> [] \<and>
   (sv_mode (service_with_defaults s) = ''replicated'' \<longrightarrow> sv_replicas (service_with_defaults s) \<noteq> 0) \<and>
   (service_validate parse_reference (service_with_defaults s) = Ok () \<longleftrightarrow> service_validate parse_reference s = Ok ())"
proof (intro conjI)
  show "service_with_defaults (service_with_defaults s) = service_with_defaults s"
    by (cases s) (auto simp: service_with_defaults_def Let_def gs_from_def comp_def SERVICE_MODE_REPLICATED_def)
  show "service_validate parse_reference (service_with_defaults s) = Ok () \<longleftrightarrow> service_validate parse_reference s = Ok ()"
    unfolding service_validate_Ok
    by (auto simp: service_with_defaults_def Let_def gs_from_def list_all_iff comp_def service_consts caddy_config_def
        image_image)
qed (auto simp: service_with_defaults_def Let_def service_consts)

theorem service_defaults_witness:
  "sv_replicas (service_with_defaults service_spec_default) \<noteq> 0"
  using service_defaults [of service_spec_default]
  by (simp add: service_with_defaults_def service_spec_default_def SERVICE_MODE_REPLICATED_def)

text \<open>
  The specification of the equivalence, field by field: slices and maps by their elements, so that \<open>nil\<close>
  and empty ones count as the same; the three sorted lists by their multisets; a missing log driver and a
  missing pull policy by their defaults; everything else as it is.
\<close>

definition request_contents :: "device_request \<Rightarrow> string \<times> int \<times> string list \<times> string list list \<times> (string, string) bmap" where
  "request_contents r =
     (dr_driver r, dr_count r, gs_values (dr_device_ids r), map gs_values (gs_values (dr_capabilities r)), gm_values (dr_options r))"

definition resources_contents ::
  "container_resources \<Rightarrow> int \<times> int \<times> int \<times> device_mapping list \<times>
   (string \<times> int \<times> string list \<times> string list list \<times> (string, string) bmap) list \<times> int \<times> (string, ulimit) bmap" where
  "resources_contents r =
     (cr_cpu r, cr_memory r, cr_memory_reservation r, gs_values (cr_devices r),
      map request_contents (gs_values (cr_device_reservations r)), cr_shared_memory r, gm_values (cr_ulimits r))"

definition healthcheck_contents :: "healthcheck_spec \<Rightarrow> string list \<times> healthcheck_spec" where
  "healthcheck_contents h = (gs_values (hs_test h), h\<lparr>hs_test := gs_default\<rparr>)"

definition log_driver_contents :: "log_driver option \<Rightarrow> string \<times> (string, string) bmap" where
  "log_driver_contents d = (case d of None \<Rightarrow> (''local'', []) | Some d \<Rightarrow> (ld_name d, gm_values (ld_options d)))"

definition pull_policy_or_default :: "string \<Rightarrow> string" where
  "pull_policy_or_default policy = (if policy = [] then PULL_POLICY_MISSING else policy)"

lemma make_non_nil_eq_iff:
  "gs_make_non_nil x = gs_make_non_nil y \<longleftrightarrow> gs_values x = gs_values y"
  "gm_make_non_nil m = gm_make_non_nil n \<longleftrightarrow> gm_values m = gm_values n"
  by (cases x; cases y; simp add: gs_make_non_nil_def) (cases m; cases n; simp add: gm_make_non_nil_def)

lemma map_eq_by: "(\<And>x y. f x = f y \<longleftrightarrow> g x = g y) \<Longrightarrow> map f xs = map f ys \<longleftrightarrow> map g xs = map g ys"
proof (induction xs arbitrary: ys)
  case (Cons x xs)
  then show ?case by (cases ys) auto
qed auto

lemma map_option_eq_by: "(\<And>x y. f x = f y \<longleftrightarrow> g x = g y) \<Longrightarrow> map_option f x = map_option f y \<longleftrightarrow> map_option g x = map_option g y"
  by (cases x; cases y) auto

lemma modify_map_non_nil: "gs_modify (map f) (gs_make_non_nil x) = gs_modify (map f) (gs_make_non_nil y) \<longleftrightarrow> map f (gs_values x) = map f (gs_values y)"
  by (simp add: gs_modify_def gs_make_non_nil_def)

lemma request_equate_empty_iff: "request_equate_empty r = request_equate_empty q \<longleftrightarrow> request_contents r = request_contents q"
  by (cases r; cases q)
    (auto simp: request_equate_empty_def request_contents_def modify_map_non_nil make_non_nil_eq_iff
      map_eq_by [of gs_make_non_nil gs_values, OF make_non_nil_eq_iff(1)])

lemma resources_equate_empty_iff: "resources_equate_empty r = resources_equate_empty q \<longleftrightarrow> resources_contents r = resources_contents q"
  by (cases r; cases q)
    (auto simp: resources_equate_empty_def resources_contents_def modify_map_non_nil make_non_nil_eq_iff
      map_eq_by [of request_equate_empty request_contents, OF request_equate_empty_iff])

lemma healthcheck_equate_iff:
  "map_option (\<lambda>h. h\<lparr>hs_test := gs_make_non_nil (hs_test h)\<rparr>) x = map_option (\<lambda>h. h\<lparr>hs_test := gs_make_non_nil (hs_test h)\<rparr>) y \<longleftrightarrow>
   map_option healthcheck_contents x = map_option healthcheck_contents y"
proof (rule map_option_eq_by)
  fix h k
  show "h\<lparr>hs_test := gs_make_non_nil (hs_test h)\<rparr> = k\<lparr>hs_test := gs_make_non_nil (hs_test k)\<rparr> \<longleftrightarrow> healthcheck_contents h = healthcheck_contents k"
    by (cases h; cases k) (auto simp: healthcheck_contents_def make_non_nil_eq_iff)
qed

lemma log_driver_equate_iff:
  "map_option (\<lambda>d. d\<lparr>ld_options := gm_make_non_nil (ld_options d)\<rparr>) (ct_log_driver (container_with_defaults c)) =
   map_option (\<lambda>d. d\<lparr>ld_options := gm_make_non_nil (ld_options d)\<rparr>) (ct_log_driver (container_with_defaults d)) \<longleftrightarrow>
   log_driver_contents (ct_log_driver c) = log_driver_contents (ct_log_driver d)"
proof -
  have same: "x\<lparr>ld_options := gm_make_non_nil (ld_options x)\<rparr> = y\<lparr>ld_options := gm_make_non_nil (ld_options y)\<rparr> \<longleftrightarrow>
      ld_name x = ld_name y \<and> gm_values (ld_options x) = gm_values (ld_options y)" for x y :: log_driver
    by (cases x; cases y) (auto simp: make_non_nil_eq_iff)
  define effective where "effective d = (case d of Some d \<Rightarrow> d | None \<Rightarrow> \<lparr>ld_name = ''local'', ld_options = gm_from []\<rparr>)" for d
  have "ct_log_driver (container_with_defaults x) = Some (effective (ct_log_driver x))" for x
    by (simp add: container_with_defaults_def effective_def split: option.splits)
  moreover have "log_driver_contents d = (ld_name (effective d), gm_values (ld_options (effective d)))" for d
    by (simp add: log_driver_contents_def effective_def gm_from_def split: option.splits)
  ultimately show ?thesis by (simp add: same)
qed

lemma sorted_equate_iff:
  "gs_values (gs_modify sort x) = gs_values (gs_modify sort y) \<longleftrightarrow> mset (gs_values x) = mset (gs_values y)"
  by (simp add: gs_modify_def sort_eq_iff_mset)

text \<open>
  (C23) When two container specifications are equivalent. They agree on every field: the lists of
  volumes, volume mounts and configuration mounts up to order, with multiplicities; the other slices and
  maps, also those inside the health check, the log driver and the device requests, element by element,
  \<open>nil\<close> and empty counting as the same; the log driver and the pull policy after their defaults; and
  the remaining fields exactly.
\<close>

theorem container_equivalent_up_to_order:
  "container_equivalent c d \<longleftrightarrow>
   gs_values (ct_cap_add c) = gs_values (ct_cap_add d) \<and> gs_values (ct_cap_drop c) = gs_values (ct_cap_drop d) \<and>
   gs_values (ct_command c) = gs_values (ct_command d) \<and> gs_values (ct_entrypoint c) = gs_values (ct_entrypoint d) \<and>
   gm_values (ct_env c) = gm_values (ct_env d) \<and>
   map_option healthcheck_contents (ct_healthcheck c) = map_option healthcheck_contents (ct_healthcheck d) \<and>
   ct_image c = ct_image d \<and> ct_init c = ct_init d \<and>
   log_driver_contents (ct_log_driver c) = log_driver_contents (ct_log_driver d) \<and>
   ct_pid_mode c = ct_pid_mode d \<and> ct_tty c = ct_tty d \<and> ct_open_stdin c = ct_open_stdin d \<and> ct_privileged c = ct_privileged d \<and>
   pull_policy_or_default (ct_pull_policy c) = pull_policy_or_default (ct_pull_policy d) \<and>
   resources_contents (ct_resources c) = resources_contents (ct_resources d) \<and>
   ct_stop_grace_period c = ct_stop_grace_period d \<and> gm_values (ct_sysctls c) = gm_values (ct_sysctls d) \<and> ct_user c = ct_user d \<and>
   mset (gs_values (ct_volume_mounts c)) = mset (gs_values (ct_volume_mounts d)) \<and>
   mset (gs_values (ct_config_mounts c)) = mset (gs_values (ct_config_mounts d)) \<and>
   mset (gs_values (ct_volumes c)) = mset (gs_values (ct_volumes d))"
proof -
  have eq: "x = y \<longleftrightarrow> ct_cap_add x = ct_cap_add y \<and> ct_cap_drop x = ct_cap_drop y \<and> ct_command x = ct_command y \<and>
      ct_entrypoint x = ct_entrypoint y \<and> ct_env x = ct_env y \<and> ct_healthcheck x = ct_healthcheck y \<and> ct_image x = ct_image y \<and>
      ct_init x = ct_init y \<and> ct_log_driver x = ct_log_driver y \<and> ct_pid_mode x = ct_pid_mode y \<and> ct_tty x = ct_tty y \<and>
      ct_open_stdin x = ct_open_stdin y \<and> ct_privileged x = ct_privileged y \<and> ct_pull_policy x = ct_pull_policy y \<and>
      ct_resources x = ct_resources y \<and> ct_stop_grace_period x = ct_stop_grace_period y \<and> ct_sysctls x = ct_sysctls y \<and>
      ct_user x = ct_user y \<and> ct_volume_mounts x = ct_volume_mounts y \<and> ct_config_mounts x = ct_config_mounts y \<and>
      ct_volumes x = ct_volumes y" for x y :: container_spec
    by (cases x; cases y) auto
  have drivers: "ct_log_driver (container_equate_empty (container_sort x)) =
      map_option (\<lambda>d. d\<lparr>ld_options := gm_make_non_nil (ld_options d)\<rparr>) (ct_log_driver x)" for x
    by (simp add: container_equate_empty_def container_sort_def)
  show ?thesis
    unfolding container_equivalent_def eq drivers log_driver_equate_iff
    by (simp add: container_equate_empty_def container_sort_def sorted_equate_iff make_non_nil_eq_iff healthcheck_equate_iff
        resources_equate_empty_iff container_with_defaults_def pull_policy_or_default_def)
qed

end
