(* ===== verification/Scheduler_State.thy ===== *)
theory Scheduler_State
  imports Service_Spec
begin

text \<open>
  The cluster snapshot of the deployment scheduler and the constraints evaluated on it
  (\<open>ployz-pkg-client-deploy-scheduler\<close>: \<open>state.rs\<close>, \<open>constraint.rs\<close> and \<open>service.rs\<close>). The client
  that lists machines and volumes is outside the repository's pure code: its two answers are
  parameters. The trait objects of the constraints are the two constructors of a datatype.
\<close>

section \<open>State\<close>

record machine =
  mc_info :: machine_info
  mc_volumes :: "docker_volume list"
  mc_scheduled_volumes :: "volume_spec list"

record cluster_state =
  cl_machines :: "machine list"

datatype inspect_error = ListMachines api_error | ListVolumes api_error

definition inspect_error_display :: "inspect_error \<Rightarrow> message" where
  "inspect_error_display e =
     (case e of
        ListMachines error \<Rightarrow> Lit ''list machines: '' # api_error_display error
      | ListVolumes error \<Rightarrow> Lit ''list volumes: '' # api_error_display error)"

text \<open>The filter of the first query: available machines only.\<close>

record machine_filter =
  mf_available :: bool
  mf_names_or_ids :: "string list"

definition inspect_machine :: "machine_volume list \<Rightarrow> pb_machine_member \<Rightarrow> ('e fault, machine) result" where
  "inspect_machine volumes member =
     rbind (expect ''Machine not set'' (pm_machine member)) (\<lambda>info.
     Ok \<lparr>mc_info = info,
         mc_volumes = map mv_volume (filter (\<lambda>v. mv_machine_id v = mi_id info) volumes),
         mc_scheduled_volumes = []\<rparr>)"

definition inspect_cluster_state ::
  "(machine_filter option \<Rightarrow> (api_error, pb_machine_member list) result) \<Rightarrow>
   (volume_filter option \<Rightarrow> (api_error, machine_volume list) result) \<Rightarrow>
   (inspect_error fault, cluster_state) result" where
  "inspect_cluster_state list_machines list_volumes =
     rbind (map_err (\<lambda>e. Fail (ListMachines e))
              (list_machines (Some \<lparr>mf_available = True, mf_names_or_ids = []\<rparr>))) (\<lambda>members.
     rbind (map_err (\<lambda>e. Fail (ListVolumes e)) (list_volumes None)) (\<lambda>volumes.
     rbind (collect_ok (map (inspect_machine volumes) members)) (\<lambda>machines.
     Ok \<lparr>cl_machines = machines\<rparr>)))"

definition has_name_or_id :: "string \<Rightarrow> machine \<Rightarrow> bool" where
  "has_name_or_id name_or_id m \<longleftrightarrow> mi_id (mc_info m) = name_or_id \<or> mi_name (mc_info m) = name_or_id"

definition state_machine :: "cluster_state \<Rightarrow> string \<Rightarrow> machine option" where
  "state_machine s name_or_id = find (has_name_or_id name_or_id) (cl_machines s)"

text \<open>Mutable access to the first element with a property: the list with that element updated.\<close>

fun update_first :: "('a \<Rightarrow> bool) \<Rightarrow> ('a \<Rightarrow> 'a) \<Rightarrow> 'a list \<Rightarrow> 'a list" where
  "update_first P f [] = []"
| "update_first P f (x # xs) = (if P x then f x # xs else x # update_first P f xs)"

definition state_machine_mut :: "cluster_state \<Rightarrow> string \<Rightarrow> (machine \<Rightarrow> machine) \<Rightarrow> cluster_state" where
  "state_machine_mut s name_or_id f = s\<lparr>cl_machines := update_first (has_name_or_id name_or_id) f (cl_machines s)\<rparr>"

definition machine_name :: "cluster_state \<Rightarrow> string \<Rightarrow> string option" where
  "machine_name s ident = map_option (\<lambda>m. mi_name (mc_info m)) (state_machine s ident)"

section \<open>Constraints\<close>

datatype constraint =
  PlacementConstraint "string list"
| VolumesConstraint "volume_spec list"

definition placement_evaluate :: "string list \<Rightarrow> machine \<Rightarrow> bool" where
  "placement_evaluate machines m =
     list_ex (\<lambda>candidate. candidate = mi_id (mc_info m) \<or> candidate = mi_name (mc_info m)) machines"

definition existing_satisfies :: "volume_spec \<Rightarrow> docker_volume \<Rightarrow> bool" where
  "existing_satisfies required existing \<longleftrightarrow>
     docker_volume_name required = dv_name existing \<and> matches_docker_volume required existing"

definition scheduled_satisfies :: "volume_spec \<Rightarrow> volume_spec \<Rightarrow> bool" where
  "scheduled_satisfies required scheduled =
     (if docker_volume_name required \<noteq> docker_volume_name scheduled then False
      else (case Option.bind (vs_volume_options required) vo_driver of
              None \<Rightarrow> True
            | Some required_driver \<Rightarrow>
                (let scheduled = volume_with_defaults scheduled;
                     scheduled_driver = Option.bind (vs_volume_options scheduled) vo_driver;
                     default_driver = \<lparr>drv_name = VOLUME_DRIVER_LOCAL, drv_options = gm_default\<rparr>
                 in required_driver = (case scheduled_driver of Some d \<Rightarrow> d | None \<Rightarrow> default_driver))))"

definition volume_satisfied :: "machine \<Rightarrow> volume_spec \<Rightarrow> bool" where
  "volume_satisfied m required =
     (if vs_kind required \<noteq> VOLUME_TYPE_VOLUME then True
      else if list_ex (existing_satisfies required) (mc_volumes m) then True
      else list_ex (scheduled_satisfies required) (mc_scheduled_volumes m))"

definition volumes_evaluate :: "volume_spec list \<Rightarrow> machine \<Rightarrow> bool" where
  "volumes_evaluate volumes m = list_all (volume_satisfied m) volumes"

definition evaluate :: "constraint \<Rightarrow> machine \<Rightarrow> bool" where
  "evaluate c m =
     (case c of
        PlacementConstraint machines \<Rightarrow> placement_evaluate machines m
      | VolumesConstraint volumes \<Rightarrow> volumes_evaluate volumes m)"

text \<open>The description sorts the machines of a placement constraint in place.\<close>

definition placement_description :: "string list \<Rightarrow> string \<times> string list" where
  "placement_description machines =
     (let sorted_machines = sort machines
      in (''Placement constraint by machines: '' @ join '', '' sorted_machines, sorted_machines))"

definition volumes_description :: "volume_spec list \<Rightarrow> string" where
  "volumes_description volumes =
     (let names = sort (map docker_volume_name (filter (\<lambda>v. vs_kind v = VOLUME_TYPE_VOLUME) volumes))
      in if names = [] then ''No volumes constraint'' else ''Volumes: '' @ join '', '' names)"

definition description :: "constraint \<Rightarrow> string \<times> constraint" where
  "description c =
     (case c of
        PlacementConstraint machines \<Rightarrow> map_prod id PlacementConstraint (placement_description machines)
      | VolumesConstraint volumes \<Rightarrow> (volumes_description volumes, c))"

definition constraints_from_spec :: "service_spec \<Rightarrow> constraint list" where
  "constraints_from_spec spec =
     (let placement = gs_values (pl_machines (sv_placement spec));
          volumes = mounted_named_volumes spec
      in (if placement \<noteq> [] then [PlacementConstraint placement] else []) @
         (if volumes \<noteq> [] then [VolumesConstraint volumes] else []))"

section \<open>Scheduling errors and the service scheduler\<close>

datatype schedule_error =
  InvalidServiceSpec api_error
| DuplicateServiceName string
| ConflictingVolumeDefinitions string
| ExistingVolumeMismatch string string
| NoEligibleMachines
| ServiceScheduling string schedule_error
| ExistingVolumesConflict string "string list"
| SharedServicePlacement "string list" string
| MixedGlobalAndReplicated string
| InternalError string
| PropagationAfterScheduling string string schedule_error
| ContainerSchedulingUnsupported

fun schedule_error_display :: "schedule_error \<Rightarrow> message" where
  "schedule_error_display (InvalidServiceSpec error) = Lit ''invalid service spec: '' # api_error_display error"
| "schedule_error_display (DuplicateServiceName name) = [Lit (''duplicate service name: '' @ quoted name)]"
| "schedule_error_display (ConflictingVolumeDefinitions name) =
     [Lit (''volume '' @ quoted name @ '' is defined multiple times with different options'')]"
| "schedule_error_display (ExistingVolumeMismatch volume machine) =
     [Lit (''volume '' @ quoted volume @ '' specification does not match the existing volume on machine '' @
        quoted machine @ ''. Use a different volume name or adjust the volume options to match the existing volume. You can also remove the existing volume from the machine(s) with '' @
        quoted ''uc volume rm'' @ '' (WARNING: the data will be lost) and run the deployment again to create a new volume with the correct specification'')]"
| "schedule_error_display NoEligibleMachines = [Lit ''no machines available that satisfy all constraints'']"
| "schedule_error_display (ServiceScheduling service source) =
     Lit (''schedule service '' @ quoted service @ '': '') # schedule_error_display source"
| "schedule_error_display (ExistingVolumesConflict service volumes) =
     [Lit (''unable to find a machine that satisfies service '' @ quoted service @
        '' placement constraints and has all required volumes: '' @ join '', '' (map quoted volumes))]"
| "schedule_error_display (SharedServicePlacement services volume) =
     [Lit (''unable to find a machine that satisfies placement constraints for services '' @
        join '', '' (map quoted services) @ '' that must be placed together to share volume '' @ quoted volume)]"
| "schedule_error_display (MixedGlobalAndReplicated volume) =
     [Lit (''volume '' @ quoted volume @ '' cannot be shared between global and replicated services: global services require the volume on all machines while replicated services require co-location with the volume'')]"
| "schedule_error_display (InternalError text) = [Lit text]"
| "schedule_error_display (PropagationAfterScheduling volume machine source) =
     Lit (''unexpected error while propagating constraints after scheduling volume '' @ quoted volume @
        '' on machine '' @ quoted machine @ '': '') # schedule_error_display source"
| "schedule_error_display ContainerSchedulingUnsupported = [Lit ''not implemented'']"

definition eligible_machines :: "cluster_state \<Rightarrow> service_spec \<Rightarrow> (schedule_error, machine list) result" where
  "eligible_machines state spec =
     (let available = filter (\<lambda>m. list_all (\<lambda>c. evaluate c m) (constraints_from_spec spec)) (cl_machines state)
      in if available = [] then Err NoEligibleMachines else Ok available)"

definition schedule_container :: "cluster_state \<Rightarrow> service_spec \<Rightarrow> (schedule_error, machine_info list) result" where
  "schedule_container state spec = Err ContainerSchedulingUnsupported"

end
