(* ===== verification/Volume_Scheduler.thy ===== *)
theory Volume_Scheduler
  imports Scheduler_State
begin

text \<open>
  The volume scheduler (\<open>ployz-pkg-client-deploy-scheduler/src/volume.rs\<close>): which missing volumes to
  create on which machines so that services that share a volume end up together. An index of an
  absent key, which panics in the source, is a \<open>Panic\<close>; the loop of \<open>propagate_constraints\<close> is a
  recursive function whose measure is the total size of the candidate sets.
\<close>

lemma rbind_cong [fundef_cong]: "r = r' \<Longrightarrow> (\<And>a. r' = Ok a \<Longrightarrow> f a = g a) \<Longrightarrow> rbind r f = rbind r' g"
  by (cases r') simp_all

section \<open>Construction\<close>

record volume_scheduler =
  vw_service_specs :: "service_spec list"
  vw_volume_specs :: "(string, volume_spec) bmap"
  vw_volume_services :: "(string, string list) bmap"
  vw_existing :: "(string, string bset) bmap"

text \<open>A mounted volume under its Docker name, with defaults.\<close>

definition canonical_volume :: "volume_spec \<Rightarrow> volume_spec" where
  "canonical_volume v = (let v = volume_with_defaults v in v\<lparr>vs_name := docker_volume_name v\<rparr>)"

fun collect_volumes ::
  "string \<Rightarrow> volume_spec list \<Rightarrow> (string, volume_spec) bmap \<Rightarrow> (string, string list) bmap \<Rightarrow>
   (schedule_error, (string, volume_spec) bmap \<times> (string, string list) bmap) result" where
  "collect_volumes service [] specs services = Ok (specs, services)"
| "collect_volumes service (v # vs) specs services =
     (let volume = canonical_volume v in
      rbind (case bm_get specs (vs_name volume) of
               Some seen \<Rightarrow>
                 if \<not> volume_equivalent seen volume then Err (ConflictingVolumeDefinitions (vs_name volume))
                 else Ok specs
             | None \<Rightarrow> Ok (bm_insert (vs_name volume) volume specs)) (\<lambda>specs'.
      collect_volumes service vs specs' (bm_entry [] (vs_name volume) (\<lambda>ss. ss @ [service]) services)))"

fun collect_specs ::
  "(string \<Rightarrow> (string, oci_reference) result) \<Rightarrow>
   ((string \<times> volume_spec) list \<Rightarrow> (string \<times> volume_spec) list) \<Rightarrow> service_spec list \<Rightarrow> string bset \<Rightarrow>
   service_spec list \<Rightarrow> (string, volume_spec) bmap \<Rightarrow> (string, string list) bmap \<Rightarrow>
   (schedule_error, service_spec list \<times> (string, volume_spec) bmap \<times> (string, string list) bmap) result" where
  "collect_specs pr ord [] names kept specs services = Ok (kept, specs, services)"
| "collect_specs pr ord (s # ss) names kept specs services =
     rbind (map_err InvalidServiceSpec (service_validate pr s)) (\<lambda>_.
     if sv_name s \<in> set names then Err (DuplicateServiceName (sv_name s))
     else
       (let mounted = mounted_docker_volumes ord s in
        if mounted = [] then collect_specs pr ord ss (bs_insert (sv_name s) names) kept specs services
        else
          rbind (collect_volumes (sv_name s) mounted specs services) (\<lambda>(specs', services').
          collect_specs pr ord ss (bs_insert (sv_name s) names) (kept @ [s]) specs' services')))"

fun existing_on ::
  "(string, volume_spec) bmap \<Rightarrow> machine \<Rightarrow> docker_volume list \<Rightarrow> (string, string bset) bmap \<Rightarrow>
   (schedule_error, (string, string bset) bmap) result" where
  "existing_on specs machine [] existing = Ok existing"
| "existing_on specs machine (v # vs) existing =
     (case bm_get specs (dv_name v) of
        Some spec \<Rightarrow>
          if \<not> matches_docker_volume spec v
          then Err (ExistingVolumeMismatch (dv_name v) (mi_name (mc_info machine)))
          else existing_on specs machine vs (bm_entry [] (dv_name v) (bs_insert (mi_id (mc_info machine))) existing)
      | None \<Rightarrow> existing_on specs machine vs existing)"

fun collect_existing ::
  "(string, volume_spec) bmap \<Rightarrow> machine list \<Rightarrow> (string, string bset) bmap \<Rightarrow>
   (schedule_error, (string, string bset) bmap) result" where
  "collect_existing specs [] existing = Ok existing"
| "collect_existing specs (m # ms) existing =
     rbind (existing_on specs m (mc_volumes m) existing) (collect_existing specs ms)"

definition scheduler_new ::
  "(string \<Rightarrow> (string, oci_reference) result) \<Rightarrow>
   ((string \<times> volume_spec) list \<Rightarrow> (string \<times> volume_spec) list) \<Rightarrow> cluster_state \<Rightarrow> service_spec list \<Rightarrow>
   (schedule_error, volume_scheduler) result" where
  "scheduler_new pr ord state specs =
     rbind (collect_specs pr ord specs [] [] [] []) (\<lambda>(kept, volume_specs, volume_services).
     rbind (collect_existing volume_specs (cl_machines state) []) (\<lambda>existing.
     Ok \<lparr>vw_service_specs = kept, vw_volume_specs = volume_specs, vw_volume_services = volume_services,
         vw_existing = existing\<rparr>))"

section \<open>Global services\<close>

definition is_volume_for_global_service :: "volume_scheduler \<Rightarrow> string \<Rightarrow> (schedule_error fault, bool) result" where
  "is_volume_for_global_service w volume =
     rbind (bm_index (vw_volume_services w) volume) (\<lambda>services.
     Ok (list_ex (\<lambda>service. list_ex (\<lambda>spec. sv_name spec = service \<and> sv_mode spec = SERVICE_MODE_GLOBAL)
           (vw_service_specs w)) services))"

definition is_volume_shared_between_global_and_replicated ::
  "volume_scheduler \<Rightarrow> string \<Rightarrow> (schedule_error fault, bool) result" where
  "is_volume_shared_between_global_and_replicated w volume =
     rbind (bm_index (vw_volume_services w) volume) (\<lambda>services.
     let modes = concat (map (\<lambda>service. map sv_mode (filter (\<lambda>spec. sv_name spec = service) (vw_service_specs w))) services)
     in Ok (list_ex (\<lambda>m. m = SERVICE_MODE_GLOBAL) modes \<and> list_ex (\<lambda>m. m \<noteq> SERVICE_MODE_GLOBAL) modes))"

section \<open>Propagation\<close>

type_synonym eligible = "(string, string bset) bmap"

fun reduce_inter :: "string bset \<Rightarrow> string bset list \<Rightarrow> string bset" where
  "reduce_inter left [] = left"
| "reduce_inter left (right # rights) = reduce_inter (bs_inter left right) rights"

text \<open>The intersection of the candidates of the services of one volume.\<close>

definition shared_candidates :: "eligible \<Rightarrow> string list \<Rightarrow> (schedule_error fault, string bset) result" where
  "shared_candidates el services =
     rbind (collect_ok (map (bm_index el) services)) (\<lambda>sets.
     case sets of [] \<Rightarrow> Err (Panic ''non-empty services were checked'') | s # ss \<Rightarrow> Ok (reduce_inter s ss))"

fun assign_services ::
  "string bset \<Rightarrow> string list \<Rightarrow> eligible \<Rightarrow> bool \<Rightarrow> (schedule_error fault, eligible \<times> bool) result" where
  "assign_services common [] el changed = Ok (el, changed)"
| "assign_services common (service # services) el changed =
     rbind (bm_index el service) (\<lambda>old.
     assign_services common services (bm_insert service common el) (changed \<or> length old \<noteq> length common))"

fun propagate_pass ::
  "(string \<times> string list) list \<Rightarrow> string bset \<Rightarrow> eligible \<Rightarrow> bool \<Rightarrow> (schedule_error fault, eligible \<times> bool) result" where
  "propagate_pass [] skipped el changed = Ok (el, changed)"
| "propagate_pass ((volume, services) # rest) skipped el changed =
     (if volume \<in> set skipped \<or> services = [] then propagate_pass rest skipped el changed
      else
        rbind (shared_candidates el services) (\<lambda>common.
        if common = [] then Err (Fail (SharedServicePlacement services volume))
        else
          rbind (assign_services common services el changed) (\<lambda>(el', changed').
          propagate_pass rest skipped el' changed')))"

subsection \<open>One pass\<close>

definition candidates :: "eligible \<Rightarrow> string \<Rightarrow> string set" where
  "candidates el s = (case bm_get el s of None \<Rightarrow> {} | Some m \<Rightarrow> set m)"

definition el_len :: "eligible \<Rightarrow> string \<Rightarrow> nat" where
  "el_len el s = (case bm_get el s of None \<Rightarrow> 0 | Some m \<Rightarrow> length m)"

definition sets_ok :: "eligible \<Rightarrow> bool" where
  "sets_ok el \<longleftrightarrow> (\<forall>s m. bm_get el s = Some m \<longrightarrow> bs_ok m)"

lemma set_reduce_inter [simp]: "set (reduce_inter s ss) = set s \<inter> (\<Inter>t\<in>set ss. set t)"
  by (induction s ss rule: reduce_inter.induct) auto

lemma bs_ok_reduce_inter: "bs_ok s \<or> ss \<noteq> [] \<Longrightarrow> bs_ok (reduce_inter s ss)"
  by (induction s ss rule: reduce_inter.induct) auto

lemma length_reduce_inter: "t \<in> set (s # ss) \<Longrightarrow> length (reduce_inter s ss) \<le> length t"
proof (cases ss)
  case (Cons r rs)
  assume "t \<in> set (s # ss)"
  then have "set (reduce_inter s ss) \<subseteq> set t" by auto
  moreover have "bs_ok (reduce_inter s ss)" using Cons by (simp add: bs_ok_reduce_inter)
  ultimately show ?thesis by (simp add: length_bs_subset)
qed simp

lemma shared_candidates_Ok:
  assumes "shared_candidates el services = Ok common"
  shows "services \<noteq> []" "\<And>s. s \<in> set services \<Longrightarrow> \<exists>m. bm_get el s = Some m \<and> length common \<le> length m"
    "set common = (\<Inter>s\<in>set services. candidates el s)"
    "sets_ok el \<Longrightarrow> bs_ok common"
proof -
  obtain sets where c: "collect_ok (map (bm_index el) services) = (Ok sets :: (schedule_error fault, string bset list) result)"
    and red: "(case sets of [] \<Rightarrow> Err (Panic ''non-empty services were checked'') | s # ss \<Rightarrow> Ok (reduce_inter s ss)) =
      (Ok common :: (schedule_error fault, string bset) result)"
    using assms unfolding shared_candidates_def rbind_eq_Ok by blast
  then obtain t ts where t: "sets = t # ts" "common = reduce_inter t ts" by (cases sets) auto
  have sets: "map (bm_index el) services = (map Ok sets :: (schedule_error fault, string bset) result list)"
    using c by (simp add: collect_ok_Ok)
  with t show "services \<noteq> []" by auto
  have get: "map (bm_get el) services = map Some sets"
    using sets by (induction services sets rule: list_induct2')
      (auto simp: bm_index_Ok)
  have mem: "\<exists>m\<in>set sets. bm_get el s = Some m" if "s \<in> set services" for s
  proof -
    have "bm_get el s \<in> set (map (bm_get el) services)" using that by simp
    then show ?thesis using get by auto
  qed
  then show "\<exists>m. bm_get el s = Some m \<and> length common \<le> length m" if "s \<in> set services" for s
    using that t length_reduce_inter by blast
  have rev_mem: "\<exists>s\<in>set services. bm_get el s = Some m" if "m \<in> set sets" for m
  proof -
    have "Some m \<in> set (map Some sets)" using that by simp
    then show ?thesis using get by (metis imageE list.set_map)
  qed
  have "set common = (\<Inter>m\<in>set sets. set m)" by (simp add: t)
  also have "\<dots> = (\<Inter>s\<in>set services. candidates el s)"
    using mem rev_mem by (fastforce simp: candidates_def)
  finally show "set common = (\<Inter>s\<in>set services. candidates el s)" .
  show "bs_ok common" if "sets_ok el"
    using that rev_mem t by (auto simp: sets_ok_def intro!: bs_ok_reduce_inter)
qed

lemma assign_services_Ok:
  "(\<And>s. s \<in> set services \<Longrightarrow> \<exists>m. bm_get el s = Some m) \<Longrightarrow>
   \<exists>el'. assign_services common services el changed =
       Ok (el', changed \<or> (\<exists>s\<in>set services. el_len el s \<noteq> length common)) \<and>
     (\<forall>s. bm_get el' s = (if s \<in> set services then Some common else bm_get el s))"
proof (induction services arbitrary: el changed)
  case (Cons service services)
  obtain old where old: "bm_get el service = Some old" using Cons.prems [of service] by auto
  then have oldlen: "el_len el service = length old" by (simp add: el_len_def)
  let ?el = "bm_insert service common el"
  have len: "el_len ?el s = (if s = service then length common else el_len el s)" for s
    by (simp add: el_len_def bm_get_insert)
  have "\<exists>m. bm_get ?el s = Some m" if "s \<in> set services" for s
    using Cons.prems that by (auto simp: bm_get_insert)
  from Cons.IH [OF this, of "changed \<or> length old \<noteq> length common"] obtain el' where
    el': "assign_services common services ?el (changed \<or> length old \<noteq> length common) =
        Ok (el', (changed \<or> length old \<noteq> length common) \<or> (\<exists>s\<in>set services. el_len ?el s \<noteq> length common))"
      "\<forall>s. bm_get el' s = (if s \<in> set services then Some common else bm_get ?el s)"
    by auto
  have "((changed \<or> length old \<noteq> length common) \<or> (\<exists>s\<in>set services. el_len ?el s \<noteq> length common)) \<longleftrightarrow>
      changed \<or> (\<exists>s\<in>set (service # services). el_len el s \<noteq> length common)"
    using oldlen by (auto simp: len)
  with el' old show ?case by (auto simp: bm_get_insert)
qed simp

text \<open>The set of the services of the volumes, and the total size of their candidate sets.\<close>

definition services_of :: "(string \<times> string list) list \<Rightarrow> string set" where
  "services_of vs = (\<Union>(v, ss)\<in>set vs. set ss)"

lemma finite_services_of [simp]: "finite (services_of vs)"
  by (auto simp: services_of_def)

lemma services_of_Cons [simp]: "services_of ((v, ss) # vs) = set ss \<union> services_of vs"
  by (auto simp: services_of_def)

definition el_size :: "(string \<times> string list) list \<Rightarrow> eligible \<Rightarrow> nat" where
  "el_size vs el = (\<Sum>s\<in>services_of vs. el_len el s)"

lemma propagate_pass_len:
  "propagate_pass vs skipped el changed = Ok (el', changed') \<Longrightarrow>
   (\<forall>s. el_len el' s \<le> el_len el s) \<and>
   (changed' \<longrightarrow> changed \<or> (\<exists>s\<in>services_of vs. el_len el' s < el_len el s))"
proof (induction vs skipped el changed rule: propagate_pass.induct)
  case (2 volume services rest skipped el changed)
  show ?case
  proof (cases "volume \<in> set skipped \<or> services = []")
    case True
    then show ?thesis using "2.IH"(1) "2.prems" by auto
  next
    case False
    with "2.prems" obtain common el1 ch1 where
      common: "shared_candidates el services = Ok common" "common \<noteq> []" and
      asg: "assign_services common services el changed = Ok (el1, ch1)" and
      rest: "propagate_pass rest skipped el1 ch1 = Ok (el', changed')"
      by (auto simp: rbind_eq_Ok split: if_splits)
    note sc = shared_candidates_Ok [OF common(1)]
    have get: "\<forall>s. bm_get el1 s = (if s \<in> set services then Some common else bm_get el s)"
      and ch: "ch1 = (changed \<or> (\<exists>s\<in>set services. el_len el s \<noteq> length common))"
      using assign_services_Ok [of services el common changed] sc(2) asg by fastforce+
    have le: "el_len el1 s \<le> el_len el s" for s
      using get sc(2) [of s] by (auto simp: el_len_def)
    have drop: "\<exists>s\<in>set services. el_len el1 s < el_len el s" if "ch1" "\<not> changed"
      using that ch get sc(2) by (fastforce simp: el_len_def)
    have IH: "\<forall>s. el_len el' s \<le> el_len el1 s"
      "changed' \<longrightarrow> ch1 \<or> (\<exists>s\<in>services_of rest. el_len el' s < el_len el1 s)"
      using "2.IH"(2) [OF False common(1) common(2) asg refl] rest by auto
    have "el_len el' s \<le> el_len el s" for s using IH(1) le [of s] le_trans by blast
    moreover have "\<exists>s\<in>set services \<union> services_of rest. el_len el' s < el_len el s" if "changed'" "\<not> changed"
    proof (cases ch1)
      case True
      then obtain s where "s \<in> set services" "el_len el1 s < el_len el s" using drop \<open>\<not> changed\<close> by blast
      with IH(1) show ?thesis using le_less_trans by blast
    next
      case False
      then obtain s where "s \<in> services_of rest" "el_len el' s < el_len el1 s" using IH(2) \<open>changed'\<close> by blast
      with le [of s] show ?thesis using less_le_trans by blast
    qed
    ultimately show ?thesis by auto
  qed
qed simp

subsection \<open>The loop\<close>

function propagate_constraints ::
  "(string \<times> string list) list \<Rightarrow> string bset \<Rightarrow> eligible \<Rightarrow> (schedule_error fault, eligible) result" where
  "propagate_constraints vs skipped el =
     rbind (propagate_pass vs skipped el False) (\<lambda>(el', changed).
     if changed then propagate_constraints vs skipped el' else Ok el')"
  by pat_completeness auto
termination
proof (relation "measure (\<lambda>(vs, skipped, el). el_size vs el)")
  fix vs skipped el x el' changed
  assume "propagate_pass vs skipped el False = Ok x" "(el', changed) = x" changed
  then have "\<forall>s. el_len el' s \<le> el_len el s" "\<exists>s\<in>services_of vs. el_len el' s < el_len el s"
    using propagate_pass_len by fastforce+
  then have "el_size vs el' < el_size vs el"
    unfolding el_size_def by (intro sum_strict_mono_ex1) auto
  then show "((vs, skipped, el'), vs, skipped, el) \<in> measure (\<lambda>(vs, skipped, el). el_size vs el)" by simp
qed simp

declare propagate_constraints.simps [simp del]

text \<open>
  A placement gives every service a set of machines. It respects the candidates when each set is
  within them, and co-location when services that share a volume that is not skipped have the
  same set.
\<close>

definition within :: "eligible \<Rightarrow> (string \<Rightarrow> string set) \<Rightarrow> bool" where
  "within el f \<longleftrightarrow> (\<forall>s. f s \<subseteq> candidates el s)"

definition co_located :: "(string \<times> string list) list \<Rightarrow> string bset \<Rightarrow> (string \<Rightarrow> string set) \<Rightarrow> bool" where
  "co_located vs skipped f \<longleftrightarrow>
     (\<forall>(v, ss)\<in>set vs. v \<notin> set skipped \<longrightarrow> (\<forall>s\<in>set ss. \<forall>t\<in>set ss. f s = f t))"

definition el_ok :: "(string \<times> string list) list \<Rightarrow> eligible \<Rightarrow> bool" where
  "el_ok vs el \<longleftrightarrow> (\<forall>s\<in>services_of vs. bm_get el s \<noteq> None) \<and> sets_ok el"

lemma co_located_Cons:
  "co_located ((v, ss) # vs) skipped f \<longleftrightarrow>
     (v \<notin> set skipped \<longrightarrow> (\<forall>s\<in>set ss. \<forall>t\<in>set ss. f s = f t)) \<and> co_located vs skipped f"
  by (simp add: co_located_def)

text \<open>One volume: its services get the intersection, which keeps every co-located placement.\<close>

lemma assign_step:
  assumes "shared_candidates el services = Ok common" "assign_services common services el changed = Ok (el1, ch1)"
    and "sets_ok el"
  shows "bm_get el1 s = (if s \<in> set services then Some common else bm_get el s)"
    "candidates el1 s = (if s \<in> set services then set common else candidates el s)"
    "candidates el1 s \<subseteq> candidates el s"
    "bm_get el1 s = None \<longleftrightarrow> bm_get el s = None"
    "sets_ok el1"
    "ch1 \<longleftrightarrow> changed \<or> (\<exists>s\<in>set services. el_len el s \<noteq> length common)"
proof -
  note sc = shared_candidates_Ok [OF assms(1)]
  have a: "\<forall>s. bm_get el1 s = (if s \<in> set services then Some common else bm_get el s)"
    and ch: "ch1 = (changed \<or> (\<exists>s\<in>set services. el_len el s \<noteq> length common))"
    using assign_services_Ok [of services el common changed] sc(2) assms(2) by fastforce+
  have ok: "bs_ok common" using sc(4) assms(3) by blast
  from a show "bm_get el1 s = (if s \<in> set services then Some common else bm_get el s)" by simp
  from a show cand: "candidates el1 s = (if s \<in> set services then set common else candidates el s)"
    by (simp add: candidates_def)
  show "candidates el1 s \<subseteq> candidates el s" using cand sc(3) by auto
  show "bm_get el1 s = None \<longleftrightarrow> bm_get el s = None" using a sc(2) [of s] by auto
  show "sets_ok el1" using a ok assms(3) by (auto simp: sets_ok_def)
  show "ch1 \<longleftrightarrow> changed \<or> (\<exists>s\<in>set services. el_len el s \<noteq> length common)" by (rule ch)
qed

lemma shared_candidates_defined:
  assumes "services \<noteq> []" "\<And>s. s \<in> set services \<Longrightarrow> bm_get el s \<noteq> None"
  shows "\<exists>common. shared_candidates el services = Ok common"
proof -
  have "map (bm_index el) services = (map Ok (map (\<lambda>s. the (bm_get el s)) services) :: (schedule_error fault, string bset) result list)"
    using assms(2) by (auto simp: bm_index_def)
  then have "collect_ok (map (bm_index el) services) =
      (Ok (map (\<lambda>s. the (bm_get el s)) services) :: (schedule_error fault, string bset list) result)"
    by (simp only: collect_ok_Ok)
  then show ?thesis using assms(1) by (cases services) (auto simp: shared_candidates_def)
qed

lemma assign_services_defined:
  assumes "shared_candidates el services = Ok common"
  shows "\<exists>el1 ch1. assign_services common services el changed = Ok (el1, ch1)"
  using assign_services_Ok [of services el common changed] shared_candidates_Ok(2) [OF assms] by blast

lemma assign_within:
  assumes "shared_candidates el services = Ok common" "assign_services common services el changed = Ok (el1, ch1)"
    and "sets_ok el" "\<not> (volume \<in> set skipped \<or> services = [])"
    and "co_located ((volume, services) # rest) skipped f" "within el f"
  shows "within el1 f"
  unfolding within_def
proof
  fix s
  have "f s \<subseteq> candidates el t" if "s \<in> set services" "t \<in> set services" for t
    using assms(4-6) that unfolding within_def co_located_Cons by metis
  then show "f s \<subseteq> candidates el1 s"
    using assms(6) shared_candidates_Ok(3) [OF assms(1)] assign_step(2) [OF assms(1-3), of s]
    unfolding within_def by auto
qed

lemma propagate_pass_facts:
  assumes "propagate_pass vs skipped el changed = Ok (el', changed')" "sets_ok el"
  shows "candidates el' s \<subseteq> candidates el s \<and> (bm_get el' s = None \<longleftrightarrow> bm_get el s = None) \<and>
      sets_ok el' \<and> (changed \<longrightarrow> changed') \<and>
      (co_located vs skipped f \<and> within el f \<longrightarrow> f s \<subseteq> candidates el' s)"
  using assms
proof (induction vs skipped el changed arbitrary: s rule: propagate_pass.induct)
  case (1 skipped el changed)
  then show ?case by (auto simp: within_def)
next
  case (2 volume services rest skipped el changed)
  show ?case
  proof (cases "volume \<in> set skipped \<or> services = []")
    case True
    then show ?thesis using "2.IH"(1) "2.prems" by (auto simp: co_located_Cons)
  next
    case False
    with "2.prems" obtain common el1 ch1 where
      common: "shared_candidates el services = Ok common" "common \<noteq> []" and
      asg: "assign_services common services el changed = Ok (el1, ch1)" and
      rest: "propagate_pass rest skipped el1 ch1 = Ok (el', changed')"
      by (auto simp: rbind_eq_Ok split: if_splits)
    note step = assign_step [OF common(1) asg "2.prems"(2)]
    note keep = assign_within [OF common(1) asg "2.prems"(2) False, of rest f]
    have "candidates el' s \<subseteq> candidates el1 s \<and> (bm_get el' s = None \<longleftrightarrow> bm_get el1 s = None) \<and>
        sets_ok el' \<and> (ch1 \<longrightarrow> changed') \<and>
        (co_located rest skipped f \<and> within el1 f \<longrightarrow> f s \<subseteq> candidates el' s)"
      using "2.IH"(2) [OF False common asg refl rest] step(5) by blast
    moreover have "changed \<longrightarrow> ch1" using step(6) by blast
    moreover have "co_located ((volume, services) # rest) skipped f \<longrightarrow> co_located rest skipped f"
      by (simp add: co_located_Cons)
    ultimately show ?thesis using step(3) [of s] step(4) [of s] keep by (metis (no_types, lifting) subset_trans)
  qed
qed

text \<open>A pass without a change: the candidates are co-located and not empty already.\<close>

lemma propagate_pass_stable:
  assumes "propagate_pass vs skipped el False = Ok (el', False)" "sets_ok el"
  shows "(\<forall>s. bm_get el' s = bm_get el s) \<and>
    (\<forall>(v, ss)\<in>set vs. v \<notin> set skipped \<longrightarrow> (\<forall>s\<in>set ss. candidates el s \<noteq> {} \<and> (\<forall>t\<in>set ss. candidates el s = candidates el t)))"
  using assms
proof (induction vs skipped el "False" rule: propagate_pass.induct)
  case (2 volume services rest skipped el)
  show ?case
  proof (cases "volume \<in> set skipped \<or> services = []")
    case True
    then show ?thesis using "2.hyps"(1) "2.prems" by auto
  next
    case False
    with "2.prems" obtain common el1 ch1 where
      common: "shared_candidates el services = Ok common" "common \<noteq> []" and
      asg: "assign_services common services el False = Ok (el1, ch1)" and
      rest: "propagate_pass rest skipped el1 ch1 = Ok (el', False)"
      by (auto simp: rbind_eq_Ok split: if_splits)
    note step = assign_step [OF common(1) asg "2.prems"(2)]
    have ch1: "\<not> ch1" using propagate_pass_facts [OF rest step(5)] by blast
    then have len: "\<forall>s\<in>set services. el_len el s = length common" using step(6) by blast
    have eq: "bm_get el s = Some common" if s: "s \<in> set services" for s
    proof -
      obtain m where m: "bm_get el s = Some m" using shared_candidates_Ok(2) [OF common(1) s] by blast
      have "set common \<subseteq> set m" using shared_candidates_Ok(3) [OF common(1)] s m by (auto simp: candidates_def)
      moreover have "bs_ok m" "bs_ok common"
        using "2.prems"(2) m shared_candidates_Ok(4) [OF common(1)] by (auto simp: sets_ok_def)
      moreover have "length m = length common" using len s m by (auto simp: el_len_def)
      ultimately show ?thesis using m bset.length_eq_subset by metis
    qed
    have "bm_get el1 s = bm_get el s" for s using step(1) eq by simp
    moreover have "(\<forall>s. bm_get el' s = bm_get el1 s) \<and>
        (\<forall>(v, ss)\<in>set rest. v \<notin> set skipped \<longrightarrow>
          (\<forall>s\<in>set ss. candidates el1 s \<noteq> {} \<and> (\<forall>t\<in>set ss. candidates el1 s = candidates el1 t)))"
      by (rule "2.hyps"(2) [OF False common _ refl _ step(5)]) (use asg rest ch1 in simp_all)
    ultimately show ?thesis using eq common(2) by (simp add: candidates_def)
  qed
qed simp

subsection \<open>The fixed point\<close>

lemma propagate_Ok:
  assumes "propagate_constraints vs skipped el = Ok el'" "sets_ok el"
  shows "candidates el' s \<subseteq> candidates el s \<and> (bm_get el' s = None \<longleftrightarrow> bm_get el s = None) \<and> sets_ok el' \<and>
    co_located vs skipped (candidates el') \<and>
    ((v, ss) \<in> set vs \<longrightarrow> v \<notin> set skipped \<longrightarrow> s \<in> set ss \<longrightarrow> candidates el' s \<noteq> {}) \<and>
    (co_located vs skipped f \<and> within el f \<longrightarrow> within el' f)"
  using assms
proof (induction vs skipped el rule: propagate_constraints.induct)
  case (1 vs skipped el)
  then obtain el1 ch where pass: "propagate_pass vs skipped el False = Ok (el1, ch)"
    and rest: "(if ch then propagate_constraints vs skipped el1 else Ok el1) = Ok el'"
    unfolding propagate_constraints.simps [of vs skipped el] rbind_eq_Ok by auto
  note facts = propagate_pass_facts [OF pass "1.prems"(2)]
  have keep: "co_located vs skipped f \<and> within el f \<longrightarrow> within el1 f"
    using facts unfolding within_def by blast
  show ?case
  proof (cases ch)
    case True
    then have "candidates el' s \<subseteq> candidates el1 s \<and> (bm_get el' s = None \<longleftrightarrow> bm_get el1 s = None) \<and> sets_ok el' \<and>
      co_located vs skipped (candidates el') \<and>
      ((v, ss) \<in> set vs \<longrightarrow> v \<notin> set skipped \<longrightarrow> s \<in> set ss \<longrightarrow> candidates el' s \<noteq> {}) \<and>
      (co_located vs skipped f \<and> within el1 f \<longrightarrow> within el' f)"
      using "1.IH" [OF pass refl True] rest facts by auto
    then show ?thesis using facts [of s] keep by (metis (no_types, lifting) subset_trans)
  next
    case False
    then have [simp]: "el1 = el'" using rest by simp
    have same: "\<forall>s. bm_get el' s = bm_get el s"
      and col: "\<forall>(v, ss)\<in>set vs. v \<notin> set skipped \<longrightarrow>
        (\<forall>s\<in>set ss. candidates el s \<noteq> {} \<and> (\<forall>t\<in>set ss. candidates el s = candidates el t))"
      using propagate_pass_stable [of vs skipped el el'] pass False "1.prems"(2) by auto
    have [simp]: "candidates el' = candidates el" using same by (simp add: candidates_def [abs_def])
    have "co_located vs skipped (candidates el')" using col by (fastforce simp: co_located_def)
    moreover have "sets_ok el'" using facts by simp
    ultimately show ?thesis using same col by (auto simp: within_def)
  qed
qed

lemma propagate_pass_Err:
  assumes "propagate_pass vs skipped el changed = Err e" "el_ok vs el"
  shows "\<exists>ss v. e = Fail (SharedServicePlacement ss v) \<and> (v, ss) \<in> set vs \<and> v \<notin> set skipped \<and> ss \<noteq> [] \<and>
      (\<forall>f. co_located vs skipped f \<and> within el f \<longrightarrow> (\<forall>s\<in>set ss. f s = {}))"
  using assms
proof (induction vs skipped el changed rule: propagate_pass.induct)
  case (2 volume services rest skipped el changed)
  have ok: "sets_ok el" "\<forall>s\<in>set services. bm_get el s \<noteq> None" "el_ok rest el"
    using "2.prems"(2) by (auto simp: el_ok_def)
  show ?case
  proof (cases "volume \<in> set skipped \<or> services = []")
    case True
    with "2.prems"(1) have "propagate_pass rest skipped el changed = Err e" by auto
    from "2.IH"(1) [OF True this ok(3)] show ?thesis unfolding co_located_Cons by (metis list.set_intros(2))
  next
    case False
    then obtain common where common: "shared_candidates el services = Ok common"
      using shared_candidates_defined ok(2) by blast
    show ?thesis
    proof (cases "common = []")
      case True
      then have "e = Fail (SharedServicePlacement services volume)" using "2.prems"(1) False common by simp
      moreover have "f s = {}" if "co_located ((volume, services) # rest) skipped f" "within el f" "s \<in> set services" for f s
      proof -
        have "f s \<subseteq> candidates el t" if "t \<in> set services" for t
          using \<open>co_located _ _ f\<close> \<open>within el f\<close> \<open>s \<in> set services\<close> that False
          unfolding within_def co_located_Cons by metis
        then have "f s \<subseteq> set common" using shared_candidates_Ok(3) [OF common] by blast
        then show ?thesis using True by simp
      qed
      ultimately show ?thesis using False by auto
    next
      case nonempty: False
      obtain el1 ch1 where asg: "assign_services common services el changed = Ok (el1, ch1)"
        using assign_services_defined [OF common] by blast
      note step = assign_step [OF common asg ok(1)]
      have rest: "propagate_pass rest skipped el1 ch1 = Err e"
        using "2.prems"(1) False common nonempty asg by simp
      have "el_ok rest el1" using step(4,5) ok(3) unfolding el_ok_def by blast
      from "2.IH"(2) [OF False common nonempty asg refl rest this] obtain ss v where
        sv: "e = Fail (SharedServicePlacement ss v)" "(v, ss) \<in> set rest" "v \<notin> set skipped" "ss \<noteq> []"
          "\<forall>f. co_located rest skipped f \<and> within el1 f \<longrightarrow> (\<forall>s\<in>set ss. f s = {})" by blast
      have "within el1 f" if "co_located ((volume, services) # rest) skipped f" "within el f" for f
        using that by (rule assign_within [OF common asg ok(1) False])
      then show ?thesis using sv unfolding co_located_Cons by (metis list.set_intros(2))
    qed
  qed
qed simp

lemma propagate_Err:
  assumes "propagate_constraints vs skipped el = Err e" "el_ok vs el"
  shows "\<exists>ss v. e = Fail (SharedServicePlacement ss v) \<and> (v, ss) \<in> set vs \<and> v \<notin> set skipped \<and> ss \<noteq> [] \<and>
      (\<forall>f. co_located vs skipped f \<and> within el f \<longrightarrow> (\<forall>s\<in>set ss. f s = {}))"
  using assms
proof (induction vs skipped el rule: propagate_constraints.induct)
  case (1 vs skipped el)
  show ?case
  proof (cases "propagate_pass vs skipped el False")
    case (Inl e')
    then have "e' = e" using "1.prems"(1) by (simp add: propagate_constraints.simps [of vs skipped el])
    then show ?thesis using propagate_pass_Err [OF _ "1.prems"(2)] Inl by blast
  next
    case (Inr p)
    then obtain el1 ch where pass: "propagate_pass vs skipped el False = Ok (el1, ch)" by (cases p) simp
    then have ch: ch and rest: "propagate_constraints vs skipped el1 = Err e"
      using "1.prems"(1) by (auto simp: propagate_constraints.simps [of vs skipped el] split: if_splits)
    have "sets_ok el" using "1.prems"(2) by (simp add: el_ok_def)
    note facts = propagate_pass_facts [OF pass this]
    have "sets_ok el1" and "\<forall>s. bm_get el1 s = None \<longleftrightarrow> bm_get el s = None" using facts by simp_all
    then have "el_ok vs el1" using "1.prems"(2) by (simp add: el_ok_def)
    from "1.IH" [OF pass refl ch rest this] obtain ss v where
      "e = Fail (SharedServicePlacement ss v)" "(v, ss) \<in> set vs" "v \<notin> set skipped" "ss \<noteq> []"
      "\<forall>f. co_located vs skipped f \<and> within el1 f \<longrightarrow> (\<forall>s\<in>set ss. f s = {})" by blast
    moreover have "within el1 f" if "co_located vs skipped f" "within el f" for f
      using facts [where f = f] that unfolding within_def by simp
    ultimately show ?thesis by auto
  qed
qed

text \<open>
  (C19) Constraint propagation computes the best co-located placement. When every service of a
  volume has a candidate set, \<open>propagate_constraints\<close> never panics. When it succeeds, the new
  candidates lie within the old ones, services that share a volume that is not skipped have the
  same, non-empty candidates, and every other co-located placement within the old candidates lies
  within the new ones. When it fails, the error names a volume that is not skipped and its
  services, and no co-located placement within the candidates gives any of them a machine.
\<close>

theorem propagate_constraints_greatest:
  assumes "el_ok vs el"
  shows "case propagate_constraints vs skipped el of
      Ok el' \<Rightarrow>
        within el (candidates el') \<and> co_located vs skipped (candidates el') \<and>
        (\<forall>v ss s. (v, ss) \<in> set vs \<and> v \<notin> set skipped \<and> s \<in> set ss \<longrightarrow> candidates el' s \<noteq> {}) \<and>
        (\<forall>f. within el f \<and> co_located vs skipped f \<longrightarrow> within el' f)
    | Err (Fail (SharedServicePlacement ss v)) \<Rightarrow>
        (v, ss) \<in> set vs \<and> v \<notin> set skipped \<and> ss \<noteq> [] \<and>
        (\<forall>f. within el f \<and> co_located vs skipped f \<longrightarrow> (\<forall>s\<in>set ss. f s = {}))
    | Err _ \<Rightarrow> False"
proof (cases "propagate_constraints vs skipped el")
  case (Inl e)
  from propagate_Err [OF this assms] Inl show ?thesis by auto
next
  case (Inr el')
  have "sets_ok el" using assms by (simp add: el_ok_def)
  note facts = propagate_Ok [OF Inr this]
  then have "within el (candidates el')" unfolding within_def by blast
  moreover have "co_located vs skipped (candidates el')" using facts by blast
  moreover have "\<forall>v ss s. (v, ss) \<in> set vs \<and> v \<notin> set skipped \<and> s \<in> set ss \<longrightarrow> candidates el' s \<noteq> {}"
    using facts by blast
  moreover have "\<forall>f. within el f \<and> co_located vs skipped f \<longrightarrow> within el' f" using facts by blast
  ultimately show ?thesis using Inr by simp
qed

text \<open>Two services share volume \<open>data\<close>; only machine \<open>m2\<close> is a candidate of both.\<close>

definition demo_services :: "(string, string list) bmap" where
  "demo_services = [(''data'', [''api'', ''web''])]"

definition demo_eligible :: eligible where
  "demo_eligible = [(''api'', [''m1'', ''m2'']), (''web'', [''m2'', ''m3''])]"

theorem propagate_constraints_greatest_witness:
  "el_ok demo_services demo_eligible \<and>
   propagate_constraints demo_services [] demo_eligible = Ok [(''api'', [''m2'']), (''web'', [''m2''])] \<and>
   \<not> within [(''api'', [''m2'']), (''web'', [''m2''])] (\<lambda>s. {''m1''}) \<and>
   \<not> (within demo_eligible (\<lambda>s. {''m1''}) \<and> co_located demo_services [] (\<lambda>s. {''m1''}))"
proof -
  have ok: "el_ok demo_services demo_eligible"
    by (auto simp: el_ok_def sets_ok_def demo_services_def demo_eligible_def services_of_def bm_get_def bs_ok_def
        split: if_splits)
  moreover have res: "propagate_constraints demo_services [] demo_eligible = Ok [(''api'', [''m2'']), (''web'', [''m2''])]"
    by code_simp
  moreover have no: "\<not> within [(''api'', [''m2'']), (''web'', [''m2''])] (\<lambda>s. {''m1''})"
    by (auto simp: within_def candidates_def bm_get_def intro!: exI [of _ "''api''"])
  ultimately show ?thesis using propagate_constraints_greatest [OF ok, of "[]"] by auto
qed

section \<open>Scheduling\<close>

text \<open>The candidates of every service by its placement alone: its mounts are cleared first.\<close>

definition without_mounts :: "service_spec \<Rightarrow> service_spec" where
  "without_mounts spec = spec\<lparr>sv_container := (sv_container spec)\<lparr>ct_volume_mounts := gs_from []\<rparr>\<rparr>"

fun initial_eligible ::
  "cluster_state \<Rightarrow> service_spec list \<Rightarrow> eligible \<Rightarrow> (schedule_error fault, eligible) result" where
  "initial_eligible state [] el = Ok el"
| "initial_eligible state (spec # specs) el =
     rbind (map_err (\<lambda>e. Fail (ServiceScheduling (sv_name spec) e)) (eligible_machines state (without_mounts spec)))
       (\<lambda>machines.
     initial_eligible state specs
       (bm_insert (sv_name spec) (bs_of_list (map (\<lambda>m. mi_id (mc_info m)) machines)) el))"

text \<open>Services that mount an existing volume are confined to the machines that have it.\<close>

fun narrow_services ::
  "string \<Rightarrow> string bset \<Rightarrow> string list \<Rightarrow> (string, string list) bmap \<Rightarrow> eligible \<Rightarrow>
   (schedule_error fault, (string, string list) bmap \<times> eligible) result" where
  "narrow_services volume machines [] quoted_volumes el = Ok (quoted_volumes, el)"
| "narrow_services volume machines (service # services) quoted_volumes el =
     (let quoted_volumes = bm_entry [] service (\<lambda>vs. vs @ [volume]) quoted_volumes in
      rbind (bm_index el service) (\<lambda>old.
      let narrowed = bs_inter old machines in
      if narrowed = []
      then rbind (bm_index quoted_volumes service) (\<lambda>volumes. Err (Fail (ExistingVolumesConflict service volumes)))
      else narrow_services volume machines services quoted_volumes (bm_insert service narrowed el)))"

fun narrow_existing ::
  "volume_scheduler \<Rightarrow> (string \<times> string bset) list \<Rightarrow> (string, string list) bmap \<Rightarrow> eligible \<Rightarrow>
   (schedule_error fault, eligible) result" where
  "narrow_existing w [] quoted_volumes el = Ok el"
| "narrow_existing w ((volume, machines) # rest) quoted_volumes el =
     rbind (is_volume_for_global_service w volume) (\<lambda>global.
     if global then narrow_existing w rest quoted_volumes el
     else
       rbind (bm_index (vw_volume_services w) volume) (\<lambda>services.
       rbind (narrow_services volume machines services quoted_volumes el) (\<lambda>(quoted_volumes', el').
       narrow_existing w rest quoted_volumes' el')))"

text \<open>The volumes whose place is settled: the existing ones and those of global services.\<close>

fun placed_existing :: "volume_scheduler \<Rightarrow> string list \<Rightarrow> (schedule_error fault, string bset) result" where
  "placed_existing w [] = Ok []"
| "placed_existing w (volume # volumes) =
     rbind (is_volume_for_global_service w volume) (\<lambda>global.
     rbind (placed_existing w volumes) (\<lambda>placed.
     Ok (if global then placed else bs_insert volume placed)))"

fun placed_global :: "volume_scheduler \<Rightarrow> string list \<Rightarrow> string bset \<Rightarrow> (schedule_error fault, string bset) result" where
  "placed_global w [] placed = Ok placed"
| "placed_global w (volume # volumes) placed =
     rbind (is_volume_shared_between_global_and_replicated w volume) (\<lambda>mixed.
     if mixed then Err (Fail (MixedGlobalAndReplicated volume))
     else
       rbind (is_volume_for_global_service w volume) (\<lambda>global.
       placed_global w volumes (if global then bs_insert volume placed else placed)))"

type_synonym scheduled_volumes = "(string, volume_spec list) bmap"

text \<open>A volume of global services goes to every candidate machine that does not have it.\<close>

fun schedule_global ::
  "string bset option \<Rightarrow> volume_spec \<Rightarrow> string list \<Rightarrow> scheduled_volumes \<Rightarrow> scheduled_volumes" where
  "schedule_global existing spec [] scheduled = scheduled"
| "schedule_global existing spec (machine # machines) scheduled =
     schedule_global existing spec machines
       (if (case existing of Some ms \<Rightarrow> machine \<in> set ms | None \<Rightarrow> False) then scheduled
        else bm_entry [] machine (\<lambda>vs. vs @ [spec]) scheduled)"

text \<open>The candidate machines of one volume.\<close>

definition volume_candidates :: "bool \<Rightarrow> string list \<Rightarrow> eligible \<Rightarrow> (schedule_error fault, string bset) result" where
  "volume_candidates global services el =
     (if global then map_ok (\<lambda>sets. bs_of_list (concat sets)) (collect_ok (map (bm_index el) services))
      else
        (case services of
           [] \<Rightarrow> Err (Panic ''index out of bounds'')
         | service # _ \<Rightarrow> bm_index el service))"

fun schedule_volumes ::
  "volume_scheduler \<Rightarrow> (string \<times> volume_spec) list \<Rightarrow> eligible \<Rightarrow> string bset \<Rightarrow> scheduled_volumes \<Rightarrow>
   (schedule_error fault, scheduled_volumes) result" where
  "schedule_volumes w [] el placed scheduled = Ok scheduled"
| "schedule_volumes w ((volume, spec) # rest) el placed scheduled =
     rbind (bm_index (vw_volume_services w) volume) (\<lambda>services.
     if services = []
     then Err (Fail (InternalError (''bug detected: no services using volume '' @ quoted volume)))
     else
       rbind (is_volume_for_global_service w volume) (\<lambda>global.
       rbind (volume_candidates global services el) (\<lambda>machines.
       if machines = []
       then Err (Fail (InternalError (''bug detected: no eligible machines for volume '' @ quoted volume)))
       else if global then
         schedule_volumes w rest el (bs_insert volume placed)
           (schedule_global (bm_get (vw_existing w) volume) spec machines scheduled)
       else if (case bm_get (vw_existing w) volume of Some ms \<Rightarrow> ms \<noteq> [] | None \<Rightarrow> False)
       then schedule_volumes w rest el placed scheduled
       else
         (let machine = hd machines;
              el' = fold (\<lambda>service. bm_insert service [machine]) services el;
              placed' = bs_insert volume placed;
              scheduled' = bm_entry [] machine (\<lambda>vs. vs @ [spec]) scheduled
          in rbind (map_err (map_fault (PropagationAfterScheduling volume machine))
               (propagate_constraints (vw_volume_services w) placed' el')) (\<lambda>el''.
             schedule_volumes w rest el'' placed' scheduled')))))"

text \<open>The scheduled volumes join the state of their machines.\<close>

definition extend_scheduled :: "volume_spec list \<Rightarrow> machine \<Rightarrow> machine" where
  "extend_scheduled volumes m = m\<lparr>mc_scheduled_volumes := mc_scheduled_volumes m @ volumes\<rparr>"

definition apply_scheduled :: "scheduled_volumes \<Rightarrow> cluster_state \<Rightarrow> cluster_state" where
  "apply_scheduled scheduled state =
     fold (\<lambda>(machine_id, volumes) state. state\<lparr>cl_machines :=
         update_first (\<lambda>m. mi_id (mc_info m) = machine_id) (extend_scheduled volumes) (cl_machines state)\<rparr>)
       scheduled state"

definition schedule ::
  "volume_scheduler \<Rightarrow> cluster_state \<Rightarrow> (schedule_error fault, scheduled_volumes \<times> cluster_state) result" where
  "schedule w state =
     (if vw_service_specs w = [] then Ok ([], state)
      else
        rbind (initial_eligible state (vw_service_specs w) []) (\<lambda>el.
        rbind (narrow_existing w (vw_existing w) [] el) (\<lambda>el.
        rbind (placed_existing w (bm_keys (vw_existing w))) (\<lambda>placed.
        rbind (placed_global w (bm_keys (vw_volume_specs w)) placed) (\<lambda>placed.
        rbind (propagate_constraints (vw_volume_services w) placed el) (\<lambda>el.
        rbind (schedule_volumes w (vw_volume_specs w) el placed []) (\<lambda>scheduled.
        Ok (scheduled, apply_scheduled scheduled state))))))))"

end
