(* ===== verification/Volume_Placement.thy ===== *)
theory Volume_Placement
  imports Volume_Scheduler
begin

text \<open>
  Correctness of the volume scheduler: what \<open>new\<close> guarantees, the stages of \<open>schedule\<close> before its
  main loop, the invariant of the loop, and the outcome. The loop cannot fail once the first
  propagation has succeeded: moving one volume to one machine keeps a co-located placement.
\<close>

section \<open>What the constructor guarantees\<close>

text \<open>
  The well-formedness that \<open>new\<close> establishes: every volume has a specification and a non-empty list
  of services, all of them kept, and the existing volumes are known volumes on at least one machine.
\<close>

definition volumes_wf :: "string set \<Rightarrow> (string, volume_spec) bmap \<Rightarrow> (string, string list) bmap \<Rightarrow> bool" where
  "volumes_wf names specs services \<longleftrightarrow>
     bm_ok specs \<and> bm_ok services \<and> (\<forall>v. bm_get specs v = None \<longleftrightarrow> bm_get services v = None) \<and>
     (\<forall>v ss. bm_get services v = Some ss \<longrightarrow> ss \<noteq> [] \<and> set ss \<subseteq> names)"

definition existing_wf :: "(string, volume_spec) bmap \<Rightarrow> (string, string bset) bmap \<Rightarrow> bool" where
  "existing_wf specs existing \<longleftrightarrow>
     bm_ok existing \<and>
     (\<forall>v ms. bm_get existing v = Some ms \<longrightarrow> ms \<noteq> [] \<and> bs_ok ms \<and> bm_get specs v \<noteq> None)"

definition scheduler_wf :: "volume_scheduler \<Rightarrow> bool" where
  "scheduler_wf w \<longleftrightarrow>
     volumes_wf (sv_name ` set (vw_service_specs w)) (vw_volume_specs w) (vw_volume_services w) \<and>
     existing_wf (vw_volume_specs w) (vw_existing w)"

lemma volumes_wf_mono: "volumes_wf A specs services \<Longrightarrow> A \<subseteq> B \<Longrightarrow> volumes_wf B specs services"
  by (fastforce simp: volumes_wf_def)

lemma collect_volumes_wf:
  "collect_volumes service vs specs services = Ok (specs', services') \<Longrightarrow>
   volumes_wf names specs services \<Longrightarrow> service \<in> names \<Longrightarrow> volumes_wf names specs' services'"
proof (induction service vs specs services rule: collect_volumes.induct)
  case (2 service v vs specs services)
  let ?n = "vs_name (canonical_volume v)"
  let ?services = "bm_entry [] ?n (\<lambda>ss. ss @ [service]) services"
  from "2.prems"(1) obtain specs1 where
    specs1: "specs1 = (if bm_get specs ?n = None then bm_insert ?n (canonical_volume v) specs else specs)"
    and step: "(case bm_get specs ?n of
               Some seen \<Rightarrow>
                 if \<not> volume_equivalent seen (canonical_volume v) then Err (ConflictingVolumeDefinitions ?n)
                 else Ok specs
             | None \<Rightarrow> Ok (bm_insert ?n (canonical_volume v) specs)) = Ok specs1"
    and rest: "collect_volumes service vs specs1 ?services = Ok (specs', services')"
    by (auto simp: Let_def rbind_eq_Ok split: option.splits if_splits)
  have "volumes_wf names specs1 ?services"
    using "2.prems"(2,3) unfolding specs1 volumes_wf_def
    by (auto simp: bm_ok_insert bm_ok_entry bm_get_insert bm_get_entry split: option.splits) blast
  then show ?case using "2.IH" [OF refl step rest _ "2.prems"(3)] by blast
qed simp

lemma collect_specs_wf:
  "collect_specs pr ord ss names kept specs services = Ok (kept', specs', services') \<Longrightarrow>
   volumes_wf (sv_name ` set kept) specs services \<Longrightarrow> volumes_wf (sv_name ` set kept') specs' services'"
proof (induction pr ord ss names kept specs services rule: collect_specs.induct)
  case (2 pr ord s ss names kept specs services)
  show ?case
  proof (cases "mounted_docker_volumes ord s = []")
    case True
    with "2.prems" show ?thesis using "2.IH"(1) by (auto simp: rbind_eq_Ok Let_def split: if_splits)
  next
    case False
    with "2.prems"(1) obtain specs1 services1 where
      "collect_volumes (sv_name s) (mounted_docker_volumes ord s) specs services = Ok (specs1, services1)"
      and ok: "sv_name s \<notin> set names" "service_validate pr s = Ok ()" and
      rest: "collect_specs pr ord ss (bs_insert (sv_name s) names) (kept @ [s]) specs1 services1 =
          Ok (kept', specs', services')"
      by (auto simp: rbind_eq_Ok Let_def split: if_splits)
    moreover from this(1) have "volumes_wf (sv_name ` set (kept @ [s])) specs1 services1"
      by (rule collect_volumes_wf) (use "2.prems"(2) in \<open>auto intro: volumes_wf_mono\<close>)
    ultimately show ?thesis using "2.IH"(2) False by simp
  qed
qed simp

lemma bs_ok_Nil: "bs_ok []"
  by (simp add: bs_ok_def)

lemma existing_on_wf:
  "existing_on specs m vs existing = Ok existing' \<Longrightarrow> existing_wf specs existing \<Longrightarrow> existing_wf specs existing'"
proof (induction specs m vs existing rule: existing_on.induct)
  case (2 specs m v vs existing)
  show ?case
  proof (cases "bm_get specs (dv_name v)")
    case None
    then show ?thesis using "2.IH" "2.prems" by simp
  next
    case (Some spec)
    with "2.prems"(1) have ok: "matches_docker_volume spec v" by (auto split: if_splits)
    have "existing_wf specs (bm_entry [] (dv_name v) (bs_insert (mi_id (mc_info m))) existing)"
      using "2.prems"(2) Some unfolding existing_wf_def
      by (auto simp: bm_ok_entry bm_get_entry bs_ok_insert bs_ok_Nil split: option.splits
          dest: arg_cong [where f = set])
    then show ?thesis using "2.IH" "2.prems"(1) Some ok by simp
  qed
qed simp

lemma collect_existing_wf:
  "collect_existing specs ms existing = Ok existing' \<Longrightarrow> existing_wf specs existing \<Longrightarrow> existing_wf specs existing'"
  by (induction specs ms existing rule: collect_existing.induct) (auto simp: rbind_eq_Ok dest: existing_on_wf)

lemma volumes_wf_Nil [simp]: "volumes_wf names [] []"
  by (simp add: volumes_wf_def bm_ok_def bm_get_def)

lemma existing_wf_Nil [simp]: "existing_wf specs []"
  by (simp add: existing_wf_def bm_ok_def bm_get_def)

lemma scheduler_new_wf: "scheduler_new pr ord state specs = Ok w \<Longrightarrow> scheduler_wf w"
  unfolding scheduler_new_def scheduler_wf_def
  by (auto simp: rbind_eq_Ok dest!: collect_specs_wf collect_existing_wf)

section \<open>The stages before the main loop\<close>

definition services_of_volume :: "volume_scheduler \<Rightarrow> string \<Rightarrow> string list" where
  "services_of_volume w v = (case bm_get (vw_volume_services w) v of Some ss \<Rightarrow> ss | None \<Rightarrow> [])"

definition volume_global :: "volume_scheduler \<Rightarrow> string \<Rightarrow> bool" where
  "volume_global w v \<longleftrightarrow>
     list_ex (\<lambda>service. list_ex (\<lambda>spec. sv_name spec = service \<and> sv_mode spec = SERVICE_MODE_GLOBAL)
       (vw_service_specs w)) (services_of_volume w v)"

lemma services_of_volume_simps [simp]:
  "bm_get (vw_volume_services w) v = Some ss \<Longrightarrow> services_of_volume w v = ss"
  "bm_get (vw_volume_services w) v = None \<Longrightarrow> services_of_volume w v = []"
  by (simp_all add: services_of_volume_def)

lemma is_volume_for_global_service_Ok:
  "bm_get (vw_volume_services w) v \<noteq> None \<Longrightarrow> is_volume_for_global_service w v = Ok (volume_global w v)"
  by (auto simp: is_volume_for_global_service_def volume_global_def services_of_volume_def)

lemma mixed_Ok:
  "bm_get (vw_volume_services w) v \<noteq> None \<Longrightarrow>
   \<exists>mixed. is_volume_shared_between_global_and_replicated w v = Ok mixed"
  by (auto simp: is_volume_shared_between_global_and_replicated_def Let_def)

definition nonempty :: "eligible \<Rightarrow> string set \<Rightarrow> bool" where
  "nonempty el S \<longleftrightarrow> sets_ok el \<and> (\<forall>s\<in>S. candidates el s \<noteq> {})"

lemma candidates_insert: "candidates (bm_insert s m el) t = (if t = s then set m else candidates el t)"
  by (simp add: candidates_def bm_get_insert)

lemma sets_ok_insert: "sets_ok el \<Longrightarrow> bs_ok m \<Longrightarrow> sets_ok (bm_insert s m el)"
  by (auto simp: sets_ok_def bm_get_insert split: if_splits)

lemma sets_ok_Nil [simp]: "sets_ok []"
  by (simp add: sets_ok_def bm_get_def)

lemma nonempty_get: "nonempty el S \<Longrightarrow> s \<in> S \<Longrightarrow> \<exists>m. bm_get el s = Some m \<and> set m = candidates el s \<and> bs_ok m"
  by (cases "bm_get el s") (auto simp: nonempty_def candidates_def sets_ok_def)

lemma nonempty_el_ok: "nonempty el S \<Longrightarrow> services_of vs \<subseteq> S \<Longrightarrow> el_ok vs el"
  using nonempty_get by (fastforce simp: el_ok_def nonempty_def)

lemma initial_eligible_Err:
  "initial_eligible state specs el = Err e \<Longrightarrow> \<exists>name. e = Fail (ServiceScheduling name NoEligibleMachines)"
proof (induction state specs el rule: initial_eligible.induct)
  case (2 state spec specs el)
  then show ?case
    by (cases "eligible_machines state (without_mounts spec)")
      (auto simp: eligible_machines_def Let_def split: if_splits)
qed simp

lemma initial_eligible_nonempty:
  "initial_eligible state specs el = Ok el' \<Longrightarrow> nonempty el S \<Longrightarrow> nonempty el' (S \<union> sv_name ` set specs)"
proof (induction state specs el arbitrary: S rule: initial_eligible.induct)
  case (2 state spec specs el)
  from "2.prems"(1) obtain ms where ms: "eligible_machines state (without_mounts spec) = Ok ms"
    and rest: "initial_eligible state specs
       (bm_insert (sv_name spec) (bs_of_list (map (\<lambda>m. mi_id (mc_info m)) ms)) el) = Ok el'"
    by (auto simp: rbind_eq_Ok map_err_eq_Ok)
  from ms have "ms \<noteq> []" by (auto simp: eligible_machines_def Let_def split: if_splits)
  then have "nonempty (bm_insert (sv_name spec) (bs_of_list (map (\<lambda>m. mi_id (mc_info m)) ms)) el) (insert (sv_name spec) S)"
    using "2.prems"(2) by (auto simp: nonempty_def sets_ok_insert candidates_insert)
  from "2.IH" [OF _ rest this] ms show ?case by simp
qed simp

text \<open>Narrowing to the machines of one existing volume.\<close>

lemma narrow_services_step:
  assumes "nonempty el S" "service \<in> S"
  obtains old where "bm_get el service = Some old"
    "bs_inter old machines = [] \<Longrightarrow> \<exists>vs. narrow_services volume machines (service # services) q el =
       Err (Fail (ExistingVolumesConflict service vs))"
    "bs_inter old machines \<noteq> [] \<Longrightarrow> narrow_services volume machines (service # services) q el =
       narrow_services volume machines services (bm_entry [] service (\<lambda>vs. vs @ [volume]) q)
         (bm_insert service (bs_inter old machines) el)"
    "bs_inter old machines \<noteq> [] \<Longrightarrow> nonempty (bm_insert service (bs_inter old machines) el) S"
    "set old = candidates el service"
proof -
  obtain old where old: "bm_get el service = Some old" "set old = candidates el service"
    using nonempty_get [OF assms] by blast
  have "nonempty (bm_insert service (bs_inter old machines) el) S" if "bs_inter old machines \<noteq> []"
  proof -
    have "set (bs_inter old machines) \<noteq> {}" using that by (simp only: set_empty) simp
    then show ?thesis using assms(1) by (auto simp: nonempty_def sets_ok_insert candidates_insert)
  qed
  with old show ?thesis by (intro that [of old]) (simp_all add: Let_def bm_index_def bm_get_entry)
qed

lemma narrow_services_Err:
  "narrow_services volume machines services q el = Err e \<Longrightarrow> nonempty el S \<Longrightarrow> set services \<subseteq> S \<Longrightarrow>
   \<exists>s vs. e = Fail (ExistingVolumesConflict s vs)"
proof (induction services arbitrary: q el)
  case (Cons service services)
  then have "service \<in> S" by simp
  then obtain old where "bm_get el service = Some old"
    "bs_inter old machines = [] \<Longrightarrow> \<exists>vs. narrow_services volume machines (service # services) q el =
       Err (Fail (ExistingVolumesConflict service vs))"
    "bs_inter old machines \<noteq> [] \<Longrightarrow> narrow_services volume machines (service # services) q el =
       narrow_services volume machines services (bm_entry [] service (\<lambda>vs. vs @ [volume]) q)
         (bm_insert service (bs_inter old machines) el)"
    "bs_inter old machines \<noteq> [] \<Longrightarrow> nonempty (bm_insert service (bs_inter old machines) el) S"
    by (rule narrow_services_step [OF Cons.prems(2)]) blast
  then show ?case using Cons.IH Cons.prems by (cases "bs_inter old machines = []") auto
qed simp

lemma narrow_services_Ok:
  "narrow_services volume machines services q el = Ok (q', el') \<Longrightarrow> nonempty el S \<Longrightarrow> set services \<subseteq> S \<Longrightarrow>
   nonempty el' S \<and> (\<forall>s. candidates el' s \<subseteq> candidates el s) \<and> (\<forall>s\<in>set services. candidates el' s \<subseteq> set machines)"
proof (induction services arbitrary: q el)
  case (Cons service services)
  then have "service \<in> S" by simp
  then obtain old where old: "set old = candidates el service"
    "bs_inter old machines = [] \<Longrightarrow> \<exists>vs. narrow_services volume machines (service # services) q el =
       Err (Fail (ExistingVolumesConflict service vs))"
    "bs_inter old machines \<noteq> [] \<Longrightarrow> narrow_services volume machines (service # services) q el =
       narrow_services volume machines services (bm_entry [] service (\<lambda>vs. vs @ [volume]) q)
         (bm_insert service (bs_inter old machines) el)"
    "bs_inter old machines \<noteq> [] \<Longrightarrow> nonempty (bm_insert service (bs_inter old machines) el) S"
    by (rule narrow_services_step [OF Cons.prems(2)]) blast
  let ?el = "bm_insert service (bs_inter old machines) el"
  have ne: "bs_inter old machines \<noteq> []" using old(2) Cons.prems(1) by force
  have "nonempty el' S \<and> (\<forall>s. candidates el' s \<subseteq> candidates ?el s) \<and> (\<forall>s\<in>set services. candidates el' s \<subseteq> set machines)"
    using Cons.IH [OF _ old(4) [OF ne]] old(3) [OF ne] Cons.prems by simp
  moreover have "candidates ?el s \<subseteq> candidates el s" for s using old(1) by (auto simp: candidates_insert)
  moreover have "candidates ?el service \<subseteq> set machines" by (simp add: candidates_insert)
  ultimately show ?case by (metis set_ConsD subset_trans)
qed simp

lemma narrow_existing_facts:
  assumes "nonempty el S" "\<forall>v\<in>fst ` set existing. bm_get (vw_volume_services w) v \<noteq> None"
    and S: "\<forall>v. set (services_of_volume w v) \<subseteq> S"
  shows "narrow_existing w existing q el = Err e \<Longrightarrow> \<exists>s vs. e = Fail (ExistingVolumesConflict s vs)"
    and "narrow_existing w existing q el = Ok el' \<Longrightarrow> nonempty el' S \<and> (\<forall>s. candidates el' s \<subseteq> candidates el s) \<and>
      (\<forall>v ms s. (v, ms) \<in> set existing \<and> \<not> volume_global w v \<and> s \<in> set (services_of_volume w v) \<longrightarrow>
        candidates el' s \<subseteq> set ms)"
  using assms(1,2)
proof (induction existing arbitrary: q el)
  case (Cons p existing)
  case 1
  obtain v ms where p: "p = (v, ms)" by (cases p)
  obtain ss where ss: "bm_get (vw_volume_services w) v = Some ss" using 1 p by fastforce
  note known = is_volume_for_global_service_Ok [of w v] ss
  have S': "set ss \<subseteq> S" using S ss by (metis services_of_volume_simps(1))
  show ?case
  proof (cases "volume_global w v")
    case True
    then show ?thesis using Cons.IH(1) [of q el] 1 known p by simp
  next
    case False
    then show ?thesis
      using Cons.IH(1) 1 known p S' narrow_services_Err narrow_services_Ok
      by (cases "narrow_services v ms ss q el") (auto; blast)+
  qed
next
  case (Cons p existing)
  case 2
  obtain v ms where p: "p = (v, ms)" by (cases p)
  obtain ss where ss: "bm_get (vw_volume_services w) v = Some ss" using 2 p by fastforce
  note known = is_volume_for_global_service_Ok [of w v] ss
  have sv: "services_of_volume w v = ss" using ss by (simp add: services_of_volume_def)
  show ?case
  proof (cases "volume_global w v")
    case True
    then show ?thesis using Cons.IH(2) [of q el] 2 known p by (auto; blast)
  next
    case False
    then obtain q1 el1 where run: "narrow_services v ms ss q el = Ok (q1, el1)"
      and rest: "narrow_existing w existing q1 el1 = Ok el'"
      using 2 known p by (auto simp: rbind_eq_Ok)
    have el1: "nonempty el1 S" "\<forall>s. candidates el1 s \<subseteq> candidates el s" "\<forall>s\<in>set ss. candidates el1 s \<subseteq> set ms"
      using narrow_services_Ok [OF run 2(2)] S sv by auto
    have "nonempty el' S \<and> (\<forall>s. candidates el' s \<subseteq> candidates el1 s) \<and>
      (\<forall>v ms s. (v, ms) \<in> set existing \<and> \<not> volume_global w v \<and> s \<in> set (services_of_volume w v) \<longrightarrow>
        candidates el' s \<subseteq> set ms)"
      using Cons.IH(2) [OF rest el1(1)] 2(3) by simp
    then show ?thesis using el1 sv p by (auto; blast)
  qed
qed simp_all

lemma placed_existing_Ok:
  "(\<forall>v\<in>set vs. bm_get (vw_volume_services w) v \<noteq> None) \<Longrightarrow>
   \<exists>placed. placed_existing w vs = Ok placed \<and> set placed = {v \<in> set vs. \<not> volume_global w v}"
  by (induction vs) (auto simp: is_volume_for_global_service_Ok)

lemma placed_global_Ok:
  "placed_global w vs placed = Ok placed' \<Longrightarrow> (\<forall>v\<in>set vs. bm_get (vw_volume_services w) v \<noteq> None) \<Longrightarrow>
   set placed' = set placed \<union> {v \<in> set vs. volume_global w v}"
  by (induction w vs placed rule: placed_global.induct)
    (auto simp: rbind_eq_Ok is_volume_for_global_service_Ok split: if_splits)

lemma placed_global_Err:
  "placed_global w vs placed = Err e \<Longrightarrow> (\<forall>v\<in>set vs. bm_get (vw_volume_services w) v \<noteq> None) \<Longrightarrow>
   \<exists>v. e = Fail (MixedGlobalAndReplicated v)"
proof (induction vs arbitrary: placed)
  case (Cons v vs)
  obtain mixed where "is_volume_shared_between_global_and_replicated w v = Ok mixed"
    using mixed_Ok Cons.prems(2) by fastforce
  then show ?case using Cons by (cases mixed) (auto simp: is_volume_for_global_service_Ok)
qed simp

section \<open>The main loop\<close>

text \<open>Narrowing one service list to one machine, and the propagation that follows.\<close>

lemma candidates_fold_insert:
  "candidates (fold (\<lambda>s. bm_insert s m) ss el) t = (if t \<in> set ss then set m else candidates el t)"
  by (induction ss arbitrary: el) (auto simp: candidates_insert)

lemma sets_ok_fold_insert: "bs_ok m \<Longrightarrow> sets_ok el \<Longrightarrow> sets_ok (fold (\<lambda>s. bm_insert s m) ss el)"
  by (induction ss arbitrary: el) (simp_all add: sets_ok_insert)

lemma co_locatedI:
  "(\<And>v ss s t. (v, ss) \<in> set vs \<Longrightarrow> v \<notin> set skipped \<Longrightarrow> s \<in> set ss \<Longrightarrow> t \<in> set ss \<Longrightarrow> f s = f t) \<Longrightarrow>
   co_located vs skipped f"
  unfolding co_located_def by blast

lemma co_locatedD:
  "co_located vs skipped f \<Longrightarrow> (v, ss) \<in> set vs \<Longrightarrow> v \<notin> set skipped \<Longrightarrow> s \<in> set ss \<Longrightarrow> t \<in> set ss \<Longrightarrow> f s = f t"
  unfolding co_located_def by blast

lemma co_located_mono: "co_located vs placed f \<Longrightarrow> set placed \<subseteq> set placed' \<Longrightarrow> co_located vs placed' f"
  by (rule co_locatedI) (blast dest: co_locatedD)

text \<open>A placement computed from a co-located one is co-located.\<close>

lemma co_located_comp:
  assumes "co_located vs placed f"
  shows "co_located vs placed (\<lambda>s. g (f s))"
proof (rule co_locatedI)
  fix v ss s t
  assume "(v, ss) \<in> set vs" "v \<notin> set placed" "s \<in> set ss" "t \<in> set ss"
  then have "f s = f t" by (rule co_locatedD [OF assms])
  then show "g (f s) = g (f t)" by simp
qed

lemma propagate_nonempty:
  assumes "propagate_constraints vs skipped el = Ok el'" "nonempty el S"
  shows "nonempty el' S \<and> (\<forall>s. candidates el' s \<subseteq> candidates el s) \<and> co_located vs skipped (candidates el')"
proof -
  have ok: "sets_ok el" using assms(2) by (simp add: nonempty_def)
  note facts = propagate_Ok [OF assms(1) ok]
  define free where "free s \<longleftrightarrow> (\<forall>v ss. (v, ss) \<in> set vs \<and> s \<in> set ss \<longrightarrow> v \<in> set skipped)" for s
  let ?f = "\<lambda>s. if free s then candidates el s else candidates el' s"
  have sub: "\<forall>s. candidates el' s \<subseteq> candidates el s" using facts by simp
  have col: "co_located vs skipped (candidates el')" using facts by simp
  have "co_located vs skipped ?f"
  proof (rule co_locatedI)
    fix v ss s t
    assume v: "(v, ss) \<in> set vs" "v \<notin> set skipped" "s \<in> set ss" "t \<in> set ss"
    then have "\<not> free s" "\<not> free t" unfolding free_def by blast+
    then show "?f s = ?f t" using co_locatedD [OF col v] by simp
  qed
  moreover have "within el ?f" using sub by (simp add: within_def)
  ultimately have "within el' ?f" using facts [where f = ?f] by simp
  then have free: "candidates el s \<subseteq> candidates el' s" if "free s" for s
    using that unfolding within_def by (metis (full_types))
  have "candidates el' s \<noteq> {}" if "s \<in> S" for s
  proof (cases "free s")
    case True
    then show ?thesis using free [OF True] that assms(2) by (auto simp: nonempty_def)
  next
    case False
    then obtain v ss where "(v, ss) \<in> set vs" "s \<in> set ss" "v \<notin> set skipped" unfolding free_def by blast
    then show ?thesis using facts [where v = v and ss = ss and s = s] by blast
  qed
  then show ?thesis using facts sub col by (simp add: nonempty_def)
qed

lemma propagate_after_scheduling:
  assumes ne: "nonempty el S" and S: "services_of vs \<subseteq> S" and col: "co_located vs placed (candidates el)"
    and v: "(v, ss) \<in> set vs" "v \<notin> set placed" "\<forall>s\<in>set ss. machine \<in> candidates el s"
    and el': "el' = fold (\<lambda>s. bm_insert s [machine]) ss el"
  shows "\<exists>el''. propagate_constraints vs (bs_insert v placed) el' = Ok el'' \<and> nonempty el'' S \<and>
      (\<forall>s. candidates el'' s \<subseteq> candidates el' s) \<and> co_located vs (bs_insert v placed) (candidates el'')"
proof -
  have cand: "candidates el' s = (if s \<in> set ss then {machine} else candidates el s)" for s
    by (simp add: el' candidates_fold_insert)
  have ne': "nonempty el' S"
    using ne cand unfolding nonempty_def el' by (simp add: sets_ok_fold_insert bs_ok_def)
  let ?f = "\<lambda>s. if \<exists>t\<in>set ss. candidates el s = candidates el t then {machine} else candidates el s"
  have f: "co_located vs (bs_insert v placed) ?f"
    by (rule co_located_mono [OF co_located_comp [OF col]]) auto
  have within: "within el' ?f" using v(3) cand by (auto simp: within_def)
  have some: "?f s \<noteq> {}" if "s \<in> S" for s using that ne by (simp add: nonempty_def)
  have "\<nexists>e. propagate_constraints vs (bs_insert v placed) el' = Err e"
  proof
    assume "\<exists>e. propagate_constraints vs (bs_insert v placed) el' = Err e"
    then obtain e where "propagate_constraints vs (bs_insert v placed) el' = Err e" ..
    from propagate_Err [OF this nonempty_el_ok [OF ne' S]] obtain us u where
      u: "(u, us) \<in> set vs" "us \<noteq> []" and none: "\<forall>f. co_located vs (bs_insert v placed) f \<and> within el' f \<longrightarrow> (\<forall>s\<in>set us. f s = {})"
      by blast
    have "\<forall>s\<in>set us. ?f s = {}" using none [rule_format, OF conjI, OF f within] by blast
    moreover have "hd us \<in> set us" using u(2) by simp
    moreover from this u(1) have "hd us \<in> S" using S unfolding services_of_def by blast
    ultimately show False using some [of "hd us"] by blast
  qed
  then obtain el'' where "propagate_constraints vs (bs_insert v placed) el' = Ok el''"
    by (meson sum.exhaust)
  then show ?thesis using propagate_nonempty ne' by blast
qed

text \<open>
  A volume is provided when every candidate machine of each of its services has it already or gets
  it. Narrower candidates and more scheduled volumes keep it provided.
\<close>

definition provided :: "volume_scheduler \<Rightarrow> eligible \<Rightarrow> scheduled_volumes \<Rightarrow> string \<Rightarrow> bool" where
  "provided w el scheduled v \<longleftrightarrow>
     (\<forall>s\<in>set (services_of_volume w v). \<forall>x\<in>candidates el s.
       (\<exists>ms. bm_get (vw_existing w) v = Some ms \<and> x \<in> set ms) \<or>
       (\<exists>vs spec. bm_get scheduled x = Some vs \<and> bm_get (vw_volume_specs w) v = Some spec \<and> spec \<in> set vs))"

definition grows :: "scheduled_volumes \<Rightarrow> scheduled_volumes \<Rightarrow> bool" where
  "grows a b \<longleftrightarrow> (\<forall>x vs. bm_get a x = Some vs \<longrightarrow> (\<exists>vs'. bm_get b x = Some vs' \<and> set vs \<subseteq> set vs'))"

lemma grows_refl [simp]: "grows a a"
  by (simp add: grows_def)

lemma grows_trans: "grows a b \<Longrightarrow> grows b c \<Longrightarrow> grows a c"
  unfolding grows_def by (meson subset_trans)

lemma grows_entry: "grows a (bm_entry [] x (\<lambda>vs. vs @ [spec]) a)"
  by (auto simp: grows_def bm_get_entry)

lemma provided_mono:
  "provided w el scheduled v \<Longrightarrow> (\<forall>s. candidates el' s \<subseteq> candidates el s) \<Longrightarrow> grows scheduled scheduled' \<Longrightarrow>
   provided w el' scheduled' v"
  unfolding provided_def grows_def by (meson subsetD)

lemma grows_schedule_global: "grows a (schedule_global existing spec ms a)"
proof (induction ms arbitrary: a)
  case (Cons m ms)
  have "grows a (if (case existing of Some ms \<Rightarrow> m \<in> set ms | None \<Rightarrow> False) then a
        else bm_entry [] m (\<lambda>vs. vs @ [spec]) a)"
    by (simp add: grows_entry)
  then show ?case using Cons.IH grows_trans by (simp only: schedule_global.simps)
qed simp

lemma schedule_global_provides:
  "x \<in> set ms \<Longrightarrow> (\<exists>e. existing = Some e \<and> x \<in> set e) \<or>
     (\<exists>vs. bm_get (schedule_global existing spec ms a) x = Some vs \<and> spec \<in> set vs)"
proof (induction ms arbitrary: a)
  case (Cons m ms)
  let ?a = "if (case existing of Some ms \<Rightarrow> m \<in> set ms | None \<Rightarrow> False) then a
        else bm_entry [] m (\<lambda>vs. vs @ [spec]) a"
  show ?case
  proof (cases "x = m \<and> \<not> (\<exists>e. existing = Some e \<and> x \<in> set e)")
    case True
    then have "\<exists>vs. bm_get ?a x = Some vs \<and> spec \<in> set vs"
      by (auto simp: bm_get_entry split: option.splits)
    moreover have "grows ?a (schedule_global existing spec ms ?a)" by (rule grows_schedule_global)
    ultimately show ?thesis unfolding grows_def schedule_global.simps by blast
  next
    case False
    then show ?thesis using Cons by auto
  qed
qed simp

lemma volume_candidates_Ok:
  assumes "nonempty el S" "set services \<subseteq> S" "services \<noteq> []"
  shows "\<exists>ms. volume_candidates global services el = Ok ms \<and> ms \<noteq> [] \<and>
      set ms = (if global then (\<Union>s\<in>set services. candidates el s) else candidates el (hd services))"
proof (cases global)
  case False
  obtain s ss where "services = s # ss" using assms(3) by (cases services) auto
  moreover from this have "s \<in> S" using assms(2) by simp
  moreover from this have "candidates el s \<noteq> {}" using assms(1) by (simp add: nonempty_def)
  ultimately show ?thesis using nonempty_get [OF assms(1), of s] False by (auto simp: volume_candidates_def)
next
  case True
  have "map (bm_index el) services = (map Ok (map (\<lambda>s. the (bm_get el s)) services) :: (schedule_error fault, string bset) result list)"
    using assms(2) nonempty_get [OF assms(1)] by (fastforce simp: bm_index_def)
  then have "collect_ok (map (bm_index el) services) =
      (Ok (map (\<lambda>s. the (bm_get el s)) services) :: (schedule_error fault, string bset list) result)"
    by (simp add: collect_ok_Ok)
  moreover have cand: "set (the (bm_get el s)) = candidates el s" "candidates el s \<noteq> {}" if "s \<in> set services" for s
    using that assms(1,2) nonempty_get [OF assms(1), of s] by (fastforce simp: nonempty_def)+
  moreover have all: "set (bs_of_list (concat (map (\<lambda>s. the (bm_get el s)) services))) = (\<Union>s\<in>set services. candidates el s)"
    using cand(1) by auto
  moreover have "(\<Union>s\<in>set services. candidates el s) \<noteq> {}" using assms(3) cand(2) [of "hd services"] by fastforce
  moreover from this all have "bs_of_list (concat (map (\<lambda>s. the (bm_get el s)) services)) \<noteq> []" by (metis set_empty)
  ultimately show ?thesis using True by (simp add: volume_candidates_def)
qed

text \<open>
  The main loop succeeds, only narrows the candidates, keeps them non-empty and provides every
  volume it visits.
\<close>

definition loop_ready :: "volume_scheduler \<Rightarrow> string set \<Rightarrow> (string \<times> volume_spec) list \<Rightarrow> eligible \<Rightarrow> string bset \<Rightarrow> bool" where
  "loop_ready w S rest el placed \<longleftrightarrow>
     nonempty el S \<and> co_located (vw_volume_services w) placed (candidates el) \<and> distinct (map fst rest) \<and>
     (\<forall>v spec. (v, spec) \<in> set rest \<longrightarrow> bm_get (vw_volume_specs w) v = Some spec \<and>
       (\<not> volume_global w v \<and> bm_get (vw_existing w) v = None \<longrightarrow> v \<notin> set placed)) \<and>
     (\<forall>v ms s. bm_get (vw_existing w) v = Some ms \<and> \<not> volume_global w v \<and> s \<in> set (services_of_volume w v) \<longrightarrow>
       candidates el s \<subseteq> set ms)"

lemma loop_ready_tail:
  assumes "loop_ready w S (p # rest) el placed" "nonempty el' S" "\<forall>s. candidates el' s \<subseteq> candidates el s"
    and "co_located (vw_volume_services w) placed' (candidates el')" "set placed' \<subseteq> insert (fst p) (set placed)"
  shows "loop_ready w S rest el' placed'"
proof -
  have "distinct (map fst (p # rest))" using assms(1) unfolding loop_ready_def by blast
  then have d: "distinct (map fst rest)" "\<forall>v spec. (v, spec) \<in> set rest \<longrightarrow> v \<noteq> fst p"
    by (simp, auto simp: image_iff)
  have "bm_get (vw_volume_specs w) v = Some spec"
    "\<not> volume_global w v \<and> bm_get (vw_existing w) v = None \<longrightarrow> v \<notin> set placed'" if v: "(v, spec) \<in> set rest" for v spec
  proof -
    have "(v, spec) \<in> set (p # rest)" using v by simp
    with assms(1) show "bm_get (vw_volume_specs w) v = Some spec" unfolding loop_ready_def by blast
    have "\<not> volume_global w v \<and> bm_get (vw_existing w) v = None \<longrightarrow> v \<notin> set placed"
      using assms(1) \<open>(v, spec) \<in> set (p # rest)\<close> unfolding loop_ready_def by blast
    then show "\<not> volume_global w v \<and> bm_get (vw_existing w) v = None \<longrightarrow> v \<notin> set placed'"
      using assms(5) d(2) v by blast
  qed
  moreover have "candidates el' s \<subseteq> set ms"
    if "bm_get (vw_existing w) v = Some ms \<and> \<not> volume_global w v \<and> s \<in> set (services_of_volume w v)" for v ms s
  proof -
    have "candidates el s \<subseteq> set ms" using assms(1) that unfolding loop_ready_def by blast
    then show ?thesis using assms(3) by blast
  qed
  ultimately show ?thesis using assms(2,4) d(1) unfolding loop_ready_def by simp
qed

lemma schedule_global_provided:
  assumes "services_of_volume w v = ss" "bm_get (vw_volume_specs w) v = Some spec"
    and "set ms = (\<Union>s\<in>set ss. candidates el s)"
  shows "provided w el (schedule_global (bm_get (vw_existing w) v) spec ms scheduled) v"
  unfolding provided_def assms(1)
proof (intro ballI)
  fix s x
  assume "s \<in> set ss" "x \<in> candidates el s"
  then have "x \<in> set ms" using assms(3) by auto
  then show "(\<exists>es. bm_get (vw_existing w) v = Some es \<and> x \<in> set es) \<or>
      (\<exists>vs u. bm_get (schedule_global (bm_get (vw_existing w) v) spec ms scheduled) x = Some vs \<and>
        bm_get (vw_volume_specs w) v = Some u \<and> u \<in> set vs)"
    using schedule_global_provides [of x ms "bm_get (vw_existing w) v" spec scheduled] assms(2) by blast
qed

lemma schedule_volumes_step:
  assumes wf: "scheduler_wf w" and S: "services_of (vw_volume_services w) \<subseteq> S"
    and ready: "loop_ready w S ((v, spec) # rest) el placed"
  shows "\<exists>el1 placed1 scheduled1.
    schedule_volumes w ((v, spec) # rest) el placed scheduled = schedule_volumes w rest el1 placed1 scheduled1 \<and>
    loop_ready w S rest el1 placed1 \<and> (\<forall>s. candidates el1 s \<subseteq> candidates el s) \<and>
    grows scheduled scheduled1 \<and> provided w el1 scheduled1 v"
proof -
  have spec: "bm_get (vw_volume_specs w) v = Some spec" and ne: "nonempty el S"
    and col: "co_located (vw_volume_services w) placed (candidates el)"
    using ready by (simp_all add: loop_ready_def)
  have vwf: "volumes_wf (sv_name ` set (vw_service_specs w)) (vw_volume_specs w) (vw_volume_services w)"
    and ewf: "existing_wf (vw_volume_specs w) (vw_existing w)"
    using wf by (simp_all add: scheduler_wf_def)
  obtain ss where ss: "bm_get (vw_volume_services w) v = Some ss" "ss \<noteq> []"
    using spec vwf unfolding volumes_wf_def by (metis option.exhaust option.distinct(1))
  have vs: "(v, ss) \<in> set (vw_volume_services w)" using ss(1) vwf by (simp add: bm_get_in volumes_wf_def)
  then have inS: "set ss \<subseteq> S" using S by (force simp: services_of_def)
  have sv: "services_of_volume w v = ss" by (simp add: services_of_volume_def ss)
  have glob: "is_volume_for_global_service w v = Ok (volume_global w v)"
    by (simp add: is_volume_for_global_service_Ok ss)
  obtain ms where ms: "volume_candidates (volume_global w v) ss el = Ok ms" "ms \<noteq> []"
    "set ms = (if volume_global w v then (\<Union>s\<in>set ss. candidates el s) else candidates el (hd ss))"
    using volume_candidates_Ok [OF ne inS ss(2)] by blast
  consider (global) "volume_global w v"
    | (existing) es where "\<not> volume_global w v" "bm_get (vw_existing w) v = Some es" "es \<noteq> []"
    | (new) "\<not> volume_global w v" "bm_get (vw_existing w) v = None"
    using ewf by (cases "bm_get (vw_existing w) v") (auto simp: existing_wf_def)
  then show ?thesis
  proof cases
    case global
    let ?sch = "schedule_global (bm_get (vw_existing w) v) spec ms scheduled"
    have "loop_ready w S rest el (bs_insert v placed)"
      by (rule loop_ready_tail [OF ready ne]) (auto intro: co_located_mono [OF col])
    moreover have "provided w el ?sch v"
      using ms(3) global by (intro schedule_global_provided [OF sv spec]) simp
    moreover have "schedule_volumes w ((v, spec) # rest) el placed scheduled =
        schedule_volumes w rest el (bs_insert v placed) ?sch"
      using ss glob ms global by simp
    ultimately show ?thesis using grows_schedule_global by blast
  next
    case existing
    have "loop_ready w S rest el placed" by (rule loop_ready_tail [OF ready ne]) (auto intro: col)
    moreover have "provided w el scheduled v"
      unfolding provided_def sv using ready existing sv unfolding loop_ready_def by blast
    moreover have "schedule_volumes w ((v, spec) # rest) el placed scheduled = schedule_volumes w rest el placed scheduled"
      using ss glob ms existing by simp
    ultimately show ?thesis using grows_refl by blast
  next
    case new
    let ?el = "fold (\<lambda>service. bm_insert service [hd ms]) ss el"
    let ?sch = "bm_entry [] (hd ms) (\<lambda>vs. vs @ [spec]) scheduled"
    have fresh: "v \<notin> set placed" using ready new unfolding loop_ready_def by simp
    have "hd ms \<in> candidates el (hd ss)" using ms(2,3) new(1) by (metis list.set_sel(1))
    then have all: "\<forall>s\<in>set ss. hd ms \<in> candidates el s"
      using co_locatedD [OF col vs fresh] ss(2) by (metis list.set_sel(1))
    obtain el1 where el1: "propagate_constraints (vw_volume_services w) (bs_insert v placed) ?el = Ok el1"
      "nonempty el1 S" "\<forall>s. candidates el1 s \<subseteq> candidates ?el s"
      "co_located (vw_volume_services w) (bs_insert v placed) (candidates el1)"
      using propagate_after_scheduling [OF ne S col vs fresh all refl] by blast
    have sub: "\<forall>s. candidates el1 s \<subseteq> candidates el s"
      using el1(3) all by (fastforce simp: candidates_fold_insert split: if_splits)
    have "loop_ready w S rest el1 (bs_insert v placed)"
      by (rule loop_ready_tail [OF ready el1(2) sub el1(4)]) simp
    moreover have "provided w el1 ?sch v"
      unfolding provided_def sv using el1(3) spec by (fastforce simp: candidates_fold_insert bm_get_entry)
    moreover have "schedule_volumes w ((v, spec) # rest) el placed scheduled =
        schedule_volumes w rest el1 (bs_insert v placed) ?sch"
      using ss glob ms new el1(1) by (simp add: Let_def)
    ultimately show ?thesis using sub grows_entry by blast
  qed
qed

lemma schedule_volumes_provides:
  assumes wf: "scheduler_wf w" and S: "services_of (vw_volume_services w) \<subseteq> S"
    and "loop_ready w S rest el placed"
  shows "\<exists>scheduled' el'. schedule_volumes w rest el placed scheduled = Ok scheduled' \<and> nonempty el' S \<and>
      (\<forall>s. candidates el' s \<subseteq> candidates el s) \<and> grows scheduled scheduled' \<and>
      (\<forall>v\<in>fst ` set rest. provided w el' scheduled' v)"
  using assms(3)
proof (induction rest arbitrary: el placed scheduled)
  case Nil
  then show ?case by (auto simp: loop_ready_def)
next
  case (Cons p rest)
  obtain v spec where p: "p = (v, spec)" by (cases p)
  obtain el1 placed1 scheduled1 where
    run: "schedule_volumes w (p # rest) el placed scheduled = schedule_volumes w rest el1 placed1 scheduled1"
    and r1: "loop_ready w S rest el1 placed1" "\<forall>s. candidates el1 s \<subseteq> candidates el s"
      "grows scheduled scheduled1" "provided w el1 scheduled1 v"
    using schedule_volumes_step [OF wf S Cons.prems [unfolded p]] p by blast
  from Cons.IH [OF r1(1), of scheduled1] obtain scheduled' el' where
    res: "schedule_volumes w rest el1 placed1 scheduled1 = Ok scheduled'" "nonempty el' S"
      "\<forall>s. candidates el' s \<subseteq> candidates el1 s" "grows scheduled1 scheduled'"
      "\<forall>v\<in>fst ` set rest. provided w el' scheduled' v" by blast
  have "provided w el' scheduled' v" using provided_mono [OF r1(4) res(3,4)] .
  moreover have "\<forall>s. candidates el' s \<subseteq> candidates el s" using res(3) r1(2) by (meson subset_trans)
  moreover have "grows scheduled scheduled'" using r1(3) res(4) grows_trans by blast
  moreover have "\<forall>v\<in>fst ` set (p # rest). provided w el' scheduled' v" using calculation(1) res(5) p by simp
  ultimately show ?case unfolding run using res(1,2) by (intro exI [of _ scheduled'] exI [of _ el']) simp
qed

section \<open>The outcome of scheduling\<close>

lemma volumes_wf_services:
  "volumes_wf names specs services \<Longrightarrow> bm_get services v = Some ss \<Longrightarrow> ss \<noteq> [] \<and> set ss \<subseteq> names"
  by (simp add: volumes_wf_def)

lemma services_of_names:
  assumes "scheduler_wf w"
  shows "services_of (vw_volume_services w) \<subseteq> sv_name ` set (vw_service_specs w)"
    and "\<forall>v. set (services_of_volume w v) \<subseteq> sv_name ` set (vw_service_specs w)"
proof -
  have wf: "volumes_wf (sv_name ` set (vw_service_specs w)) (vw_volume_specs w) (vw_volume_services w)"
    using assms by (simp add: scheduler_wf_def)
  then have "bm_ok (vw_volume_services w)" by (simp add: volumes_wf_def)
  then show "services_of (vw_volume_services w) \<subseteq> sv_name ` set (vw_service_specs w)"
    using volumes_wf_services [OF wf] unfolding services_of_def by (auto simp: bm_get_in) blast
  show "\<forall>v. set (services_of_volume w v) \<subseteq> sv_name ` set (vw_service_specs w)"
  proof
    show "set (services_of_volume w v) \<subseteq> sv_name ` set (vw_service_specs w)" for v
      using volumes_wf_services [OF wf, of v] by (cases "bm_get (vw_volume_services w) v") simp_all
  qed
qed

lemma volumes_known:
  assumes "scheduler_wf w"
  shows "\<forall>v\<in>fst ` set (vw_existing w). bm_get (vw_volume_services w) v \<noteq> None"
    and "\<forall>v\<in>set (bm_keys (vw_volume_specs w)). bm_get (vw_volume_services w) v \<noteq> None"
proof -
  have spec: "bm_get (vw_volume_specs w) v \<noteq> None \<Longrightarrow> bm_get (vw_volume_services w) v \<noteq> None" for v
    using assms unfolding scheduler_wf_def volumes_wf_def by metis
  have "existing_wf (vw_volume_specs w) (vw_existing w)" using assms by (simp add: scheduler_wf_def)
  then have "\<forall>v\<in>fst ` set (vw_existing w). bm_get (vw_volume_specs w) v \<noteq> None"
    by (force simp: existing_wf_def bm_get_in)
  then show "\<forall>v\<in>fst ` set (vw_existing w). bm_get (vw_volume_services w) v \<noteq> None" using spec by blast
  show "\<forall>v\<in>set (bm_keys (vw_volume_specs w)). bm_get (vw_volume_services w) v \<noteq> None"
    using spec by (force simp: bm_get_keys)
qed

lemma loop_ready_start:
  assumes wf: "scheduler_wf w"
    and existing: "\<forall>v ms s. (v, ms) \<in> set (vw_existing w) \<and> \<not> volume_global w v \<and> s \<in> set (services_of_volume w v) \<longrightarrow>
        candidates el s \<subseteq> set ms"
    and placed: "set placed = {v \<in> set (bm_keys (vw_existing w)). \<not> volume_global w v} \<union>
        {v \<in> set (bm_keys (vw_volume_specs w)). volume_global w v}"
    and el': "nonempty el' S" "\<forall>s. candidates el' s \<subseteq> candidates el s"
        "co_located (vw_volume_services w) placed (candidates el')"
  shows "loop_ready w S (vw_volume_specs w) el' placed"
proof -
  have ok: "bm_ok (vw_volume_specs w)" "bm_ok (vw_existing w)"
    using wf by (simp_all add: scheduler_wf_def volumes_wf_def existing_wf_def)
  have "distinct (map fst (vw_volume_specs w))" using bmap.distinct_keys [OF ok(1)] by (simp add: bm_keys_def)
  moreover have "bm_get (vw_volume_specs w) v = Some spec" if "(v, spec) \<in> set (vw_volume_specs w)" for v spec
    using that ok(1) by (simp add: bm_get_in)
  moreover have "v \<notin> set placed" if "\<not> volume_global w v" "bm_get (vw_existing w) v = None" for v
    using that placed by (auto simp: bm_get_keys)
  moreover have "candidates el' s \<subseteq> set ms"
    if "bm_get (vw_existing w) v = Some ms" "\<not> volume_global w v" "s \<in> set (services_of_volume w v)" for v ms s
  proof -
    have "(v, ms) \<in> set (vw_existing w)" using that(1) ok(2) by (simp add: bm_get_in)
    then have "candidates el s \<subseteq> set ms" using existing that(2,3) by blast
    then show ?thesis using el'(2) by blast
  qed
  ultimately show ?thesis using el'(1,3) unfolding loop_ready_def by blast
qed

lemma schedule_cases:
  assumes wf: "scheduler_wf w"
  shows "(\<exists>e. schedule w state = Err (Fail e) \<and>
      (\<exists>a b vs. e \<in> {ServiceScheduling a NoEligibleMachines, ExistingVolumesConflict a vs,
        MixedGlobalAndReplicated a, SharedServicePlacement vs b})) \<or>
    (vw_service_specs w = [] \<and> schedule w state = Ok ([], state)) \<or>
    (\<exists>scheduled el0 el. schedule w state = Ok (scheduled, apply_scheduled scheduled state) \<and>
      initial_eligible state (vw_service_specs w) [] = Ok el0 \<and>
      nonempty el (sv_name ` set (vw_service_specs w)) \<and> (\<forall>s. candidates el s \<subseteq> candidates el0 s) \<and>
      (\<forall>v\<in>set (bm_keys (vw_volume_specs w)). provided w el scheduled v))"
proof (cases "vw_service_specs w = []")
  case False
  let ?S = "sv_name ` set (vw_service_specs w)"
  note run = schedule_def [of w state]
  show ?thesis
  proof (cases "initial_eligible state (vw_service_specs w) []")
    case (Inl e)
    then show ?thesis using initial_eligible_Err [OF Inl] False run by auto
  next
    case el0: (Inr el0)
    have "nonempty [] {}" by (simp add: nonempty_def)
    from initial_eligible_nonempty [OF el0 this] have ne0: "nonempty el0 ?S" by simp
    note facts = narrow_existing_facts [OF ne0 volumes_known(1) [OF wf] services_of_names(2) [OF wf]]
    show ?thesis
    proof (cases "narrow_existing w (vw_existing w) [] el0")
      case (Inl e)
      then show ?thesis using facts(1) [OF Inl] False run el0 by auto
    next
      case el1: (Inr el1)
      note f1 = facts(2) [OF el1]
      obtain p0 where p0: "placed_existing w (bm_keys (vw_existing w)) = Ok p0"
        "set p0 = {v \<in> set (bm_keys (vw_existing w)). \<not> volume_global w v}"
        using placed_existing_Ok [of "bm_keys (vw_existing w)" w] volumes_known(1) [OF wf]
        by (auto simp: bm_keys_def)
      show ?thesis
      proof (cases "placed_global w (bm_keys (vw_volume_specs w)) p0")
        case (Inl e)
        then show ?thesis using placed_global_Err [OF Inl volumes_known(2) [OF wf]] False run el0 el1 p0 by auto
      next
        case p1: (Inr p1)
        note placed = placed_global_Ok [OF p1 volumes_known(2) [OF wf], unfolded p0(2)]
        have ne1: "nonempty el1 ?S" using f1 by blast
        note S = services_of_names(1) [OF wf]
        show ?thesis
        proof (cases "propagate_constraints (vw_volume_services w) p1 el1")
          case (Inl e)
          then show ?thesis
            using propagate_Err [OF Inl nonempty_el_ok [OF ne1 S]] False run el0 el1 p0 p1 by auto
        next
          case el2: (Inr el2)
          note f2 = propagate_nonempty [OF el2 ne1]
          have "loop_ready w ?S (vw_volume_specs w) el2 p1"
            using loop_ready_start [OF wf _ placed] f1 f2 by blast
          from schedule_volumes_provides [OF wf S this, of "[]"] obtain scheduled el where
            res: "schedule_volumes w (vw_volume_specs w) el2 p1 [] = Ok scheduled" "nonempty el ?S"
              "\<forall>s. candidates el s \<subseteq> candidates el2 s"
              "\<forall>v\<in>fst ` set (vw_volume_specs w). provided w el scheduled v" by blast
          have "\<forall>s. candidates el s \<subseteq> candidates el0 s" using res(3) f2 f1 by (meson subset_trans)
          moreover have "schedule w state = Ok (scheduled, apply_scheduled scheduled state)"
            using False run el0 el1 p0(1) p1 el2 res(1) by simp
          ultimately show ?thesis using el0 res(2,4) by (auto simp: bm_keys_def)
        qed
      qed
    qed
  qed
qed (simp add: schedule_def)

text \<open>The errors a deployment plan can be refused with, once the scheduler has been built.\<close>

fun schedule_refusal :: "schedule_error \<Rightarrow> bool" where
  "schedule_refusal (ServiceScheduling _ NoEligibleMachines) = True"
| "schedule_refusal (ExistingVolumesConflict _ _) = True"
| "schedule_refusal (MixedGlobalAndReplicated _) = True"
| "schedule_refusal (SharedServicePlacement _ _) = True"
| "schedule_refusal _ = False"

text \<open>
  (C20) A scheduler that \<open>new\<close> has built never fails internally: \<open>schedule\<close> does not panic on an
  index, never reports a detected bug, and propagation after a volume was scheduled never fails.
  It either returns a schedule or refuses the plan: no machine satisfies a placement, existing
  volumes are in conflict, a volume is shared between global and replicated services, or services
  that share a volume have no common machine.
\<close>

theorem schedule_never_fails_internally:
  assumes "scheduler_new parse_reference hash_order state specs = Ok w"
  shows "case schedule w state' of Ok _ \<Rightarrow> True | Err (Fail e) \<Rightarrow> schedule_refusal e | Err (Panic _) \<Rightarrow> False"
  using schedule_cases [OF scheduler_new_wf [OF assms], of state'] by auto

text \<open>Two services share the volume \<open>data\<close>, which exists on no machine yet.\<close>

definition demo_volume :: volume_spec where
  "demo_volume =
     \<lparr>vs_name = ''data'', vs_kind = ''volume'', vs_bind_options = None, vs_tmpfs_options = None, vs_volume_options = None\<rparr>"

definition demo_service :: "string \<Rightarrow> string list \<Rightarrow> service_spec" where
  "demo_service name machines =
     service_spec_default\<lparr>sv_name := name, sv_placement := \<lparr>pl_machines = gs_from machines\<rparr>,
       sv_container := container_spec_default\<lparr>ct_image := ''app'',
         ct_volume_mounts := gs_from [VolumeMount ''data'' ''/d'' False]\<rparr>,
       sv_volumes := gs_from [demo_volume]\<rparr>"

definition demo_machine :: "string \<Rightarrow> machine" where
  "demo_machine ident =
     \<lparr>mc_info = machine_info_default\<lparr>mi_id := ident, mi_name := ident\<rparr>, mc_volumes = [], mc_scheduled_volumes = []\<rparr>"

definition demo_state :: cluster_state where
  "demo_state = \<lparr>cl_machines = [demo_machine ''m1'', demo_machine ''m2'']\<rparr>"

definition demo_specs :: "service_spec list" where
  "demo_specs = [demo_service ''api'' [], demo_service ''web'' [''m2'']]"

definition demo_reference :: "string \<Rightarrow> (string, oci_reference) result" where
  "demo_reference _ = Ok \<lparr>or_tag = None, or_digest = None\<rparr>"

definition demo_scheduler :: volume_scheduler where
  "demo_scheduler =
     \<lparr>vw_service_specs = demo_specs, vw_volume_specs = [(''data'', canonical_volume demo_volume)],
      vw_volume_services = [(''data'', [''api'', ''web''])], vw_existing = []\<rparr>"

lemma demo_scheduler_new: "scheduler_new demo_reference (\<lambda>xs. xs) demo_state demo_specs = Ok demo_scheduler"
  by code_simp

theorem schedule_never_fails_internally_witness:
  "scheduler_new demo_reference (\<lambda>xs. xs) demo_state demo_specs = Ok demo_scheduler \<and>
   schedule demo_scheduler demo_state \<noteq> Err (Panic ''no entry found for key'')"
  using schedule_never_fails_internally [OF demo_scheduler_new, of demo_state] demo_scheduler_new by auto

end
