(* ===== verification/Volume_Eligibility.thy ===== *)
theory Volume_Eligibility
  imports Volume_Placement
begin

text \<open>
  The contract between the volume scheduler and the service scheduler: in the state that a
  successful \<open>schedule\<close> leaves behind, every service with volumes has an eligible machine, judged by
  the constraints of \<open>constraint.rs\<close>.
\<close>

section \<open>What the constructor records\<close>

text \<open>A mounted volume is recorded under its Docker name with an equivalent specification.\<close>

definition recorded ::
  "(string, volume_spec) bmap \<Rightarrow> (string, string list) bmap \<Rightarrow> string \<Rightarrow> volume_spec \<Rightarrow> bool" where
  "recorded specs services name v \<longleftrightarrow>
     (\<exists>seen ss. bm_get specs (vs_name (canonical_volume v)) = Some seen \<and> volume_equivalent seen (canonical_volume v) \<and>
       bm_get services (vs_name (canonical_volume v)) = Some ss \<and> name \<in> set ss)"

definition extends :: "(string, volume_spec) bmap \<Rightarrow> (string, string list) bmap \<Rightarrow>
  (string, volume_spec) bmap \<Rightarrow> (string, string list) bmap \<Rightarrow> bool" where
  "extends specs services specs' services' \<longleftrightarrow>
     (\<forall>v seen. bm_get specs v = Some seen \<longrightarrow> bm_get specs' v = Some seen) \<and>
     (\<forall>v ss. bm_get services v = Some ss \<longrightarrow> (\<exists>ss'. bm_get services' v = Some ss' \<and> set ss \<subseteq> set ss'))"

lemma extends_refl [simp]: "extends specs services specs services"
  by (simp add: extends_def)

lemma extends_trans: "extends a b c d \<Longrightarrow> extends c d e f \<Longrightarrow> extends a b e f"
  unfolding extends_def by (meson subset_trans)

lemma recorded_extends: "recorded a b name v \<Longrightarrow> extends a b c d \<Longrightarrow> recorded c d name v"
  unfolding recorded_def extends_def by (meson subsetD)

lemma volume_equivalent_refl [simp]: "volume_equivalent v v"
  by (simp add: volume_equivalent_def)

lemma collect_volumes_records:
  "collect_volumes service vs specs services = Ok (specs', services') \<Longrightarrow>
   extends specs services specs' services' \<and> (\<forall>v\<in>set vs. recorded specs' services' service v) \<and>
   (\<forall>n seen. bm_get specs' n = Some seen \<longrightarrow> bm_get specs n = Some seen \<or> (\<exists>v\<in>set vs. seen = canonical_volume v))"
proof (induction service vs specs services rule: collect_volumes.induct)
  case (2 service v vs specs services)
  let ?n = "vs_name (canonical_volume v)"
  let ?services = "bm_entry [] ?n (\<lambda>ss. ss @ [service]) services"
  from "2.prems" obtain specs1 where
    specs1: "specs1 = (if bm_get specs ?n = None then bm_insert ?n (canonical_volume v) specs else specs)"
    and step: "(case bm_get specs ?n of
               Some seen \<Rightarrow>
                 if \<not> volume_equivalent seen (canonical_volume v) then Err (ConflictingVolumeDefinitions ?n)
                 else Ok specs
             | None \<Rightarrow> Ok (bm_insert ?n (canonical_volume v) specs)) = Ok specs1"
    and rest: "collect_volumes service vs specs1 ?services = Ok (specs', services')"
    by (auto simp: Let_def rbind_eq_Ok split: option.splits if_splits)
  note IH = "2.IH" [OF refl step rest]
  have ext: "extends specs services specs1 ?services"
    unfolding extends_def specs1 by (auto simp: bm_get_insert bm_get_entry)
  have "recorded specs1 ?services service v"
    using step unfolding recorded_def specs1
    by (auto simp: bm_get_insert bm_get_entry split: option.splits if_splits)
  then have "recorded specs' services' service v" using IH recorded_extends by blast
  moreover have "bm_get specs n = Some seen \<or> seen = canonical_volume v" if "bm_get specs1 n = Some seen" for n seen
    using that unfolding specs1 by (auto simp: bm_get_insert split: if_splits)
  ultimately show ?case using IH extends_trans [OF ext] by (simp, blast)
qed simp

lemma collect_specs_records:
  "collect_specs pr ord ss names kept specs services = Ok (kept', specs', services') \<Longrightarrow>
   (\<forall>s\<in>set kept. \<forall>v\<in>set (mounted_docker_volumes ord s). recorded specs services (sv_name s) v) \<Longrightarrow>
   distinct (map sv_name kept) \<Longrightarrow> sv_name ` set kept \<subseteq> set names \<Longrightarrow>
   (\<forall>s\<in>set kept'. \<forall>v\<in>set (mounted_docker_volumes ord s). recorded specs' services' (sv_name s) v) \<and>
   distinct (map sv_name kept') \<and> kept' = kept @ filter (\<lambda>s. mounted_docker_volumes ord s \<noteq> []) ss \<and>
   (\<forall>n seen. bm_get specs' n = Some seen \<longrightarrow>
     bm_get specs n = Some seen \<or> (\<exists>s\<in>set ss. \<exists>v\<in>set (mounted_docker_volumes ord s). seen = canonical_volume v))"
proof (induction ss arbitrary: names kept specs services)
  case (Cons s ss)
  let ?names = "bs_insert (sv_name s) names"
  have new: "sv_name s \<notin> set names" using Cons.prems(1) by (auto simp: rbind_eq_Ok split: if_splits)
  show ?case
  proof (cases "mounted_docker_volumes ord s = []")
    case True
    then have "collect_specs pr ord ss ?names kept specs services = Ok (kept', specs', services')"
      using Cons.prems(1) by (auto simp: rbind_eq_Ok Let_def split: if_splits)
    note IH = Cons.IH [OF this Cons.prems(2,3)]
    show ?thesis using IH Cons.prems(4) True by (simp, blast)
  next
    case False
    then obtain specs1 services1 where
      vols: "collect_volumes (sv_name s) (mounted_docker_volumes ord s) specs services = Ok (specs1, services1)" and
      rest: "collect_specs pr ord ss ?names (kept @ [s]) specs1 services1 = Ok (kept', specs', services')"
      using Cons.prems(1) by (auto simp: rbind_eq_Ok Let_def split: if_splits)
    note one = collect_volumes_records [OF vols]
    have all: "\<forall>t\<in>set (kept @ [s]). \<forall>v\<in>set (mounted_docker_volumes ord t). recorded specs1 services1 (sv_name t) v"
      using one Cons.prems(2) recorded_extends by fastforce
    have "distinct (map sv_name (kept @ [s]))" "sv_name ` set (kept @ [s]) \<subseteq> set ?names"
      using Cons.prems(3,4) new by auto
    note IH = Cons.IH [OF rest all this]
    have "\<forall>n seen. bm_get specs' n = Some seen \<longrightarrow> bm_get specs n = Some seen \<or>
        (\<exists>t\<in>set (s # ss). \<exists>v\<in>set (mounted_docker_volumes ord t). seen = canonical_volume v)"
      using IH one by (meson list.set_intros)
    moreover have "kept' = kept @ filter (\<lambda>s. mounted_docker_volumes ord s \<noteq> []) (s # ss)" using IH False by simp
    ultimately show ?thesis using IH by blast
  qed
qed simp

lemma existing_on_records:
  "existing_on specs m vs existing = Ok existing' \<Longrightarrow> bm_get existing' n = Some xs \<Longrightarrow> x \<in> set xs \<Longrightarrow>
   (\<exists>xs0. bm_get existing n = Some xs0 \<and> x \<in> set xs0) \<or>
   mi_id (mc_info m) = x \<and> (\<exists>dv\<in>set vs. \<exists>seen. dv_name dv = n \<and> bm_get specs n = Some seen \<and> matches_docker_volume seen dv)"
proof (induction vs arbitrary: existing)
  case (Cons v vs)
  show ?case
  proof (cases "bm_get specs (dv_name v)")
    case None
    then show ?thesis using Cons by auto
  next
    case (Some seen)
    then have ok: "matches_docker_volume seen v"
      and rest: "existing_on specs m vs (bm_entry [] (dv_name v) (bs_insert (mi_id (mc_info m))) existing) = Ok existing'"
      using Cons.prems(1) by (auto split: if_splits)
    from Cons.IH [OF rest Cons.prems(2,3)] show ?thesis
      using Some ok by (cases "bm_get existing (dv_name v)") (auto simp: bm_get_entry split: if_splits)
  qed
qed auto

lemma collect_existing_records:
  "collect_existing specs ms existing = Ok existing' \<Longrightarrow> bm_get existing' n = Some xs \<Longrightarrow> x \<in> set xs \<Longrightarrow>
   (\<exists>xs0. bm_get existing n = Some xs0 \<and> x \<in> set xs0) \<or>
   (\<exists>m\<in>set ms. mi_id (mc_info m) = x \<and>
     (\<exists>dv\<in>set (mc_volumes m). \<exists>seen. dv_name dv = n \<and> bm_get specs n = Some seen \<and> matches_docker_volume seen dv))"
proof (induction ms arbitrary: existing)
  case (Cons m ms)
  then obtain existing1 where one: "existing_on specs m (mc_volumes m) existing = Ok existing1"
    and rest: "collect_existing specs ms existing1 = Ok existing'" by (auto simp: rbind_eq_Ok)
  from Cons.IH [OF rest Cons.prems(2,3)] existing_on_records [OF one] show ?case by fastforce
qed auto

lemma scheduler_new_records:
  assumes "scheduler_new pr ord state specs = Ok w"
  shows "vw_service_specs w = filter (\<lambda>s. mounted_docker_volumes ord s \<noteq> []) specs"
    and "distinct (map sv_name (vw_service_specs w))"
    and "\<forall>s\<in>set (vw_service_specs w). \<forall>v\<in>set (mounted_docker_volumes ord s).
      recorded (vw_volume_specs w) (vw_volume_services w) (sv_name s) v"
    and "\<forall>n seen. bm_get (vw_volume_specs w) n = Some seen \<longrightarrow>
      (\<exists>s\<in>set specs. \<exists>v\<in>set (mounted_docker_volumes ord s). seen = canonical_volume v)"
    and "\<forall>n xs x. bm_get (vw_existing w) n = Some xs \<and> x \<in> set xs \<longrightarrow>
      (\<exists>m\<in>set (cl_machines state). mi_id (mc_info m) = x \<and>
        (\<exists>dv\<in>set (mc_volumes m). \<exists>seen. dv_name dv = n \<and> bm_get (vw_volume_specs w) n = Some seen \<and>
          matches_docker_volume seen dv))"
proof -
  obtain kept vspecs services existing where
    k: "collect_specs pr ord specs [] [] [] [] = Ok (kept, vspecs, services)" and
    e: "collect_existing vspecs (cl_machines state) [] = Ok existing" and
    w: "w = \<lparr>vw_service_specs = kept, vw_volume_specs = vspecs, vw_volume_services = services, vw_existing = existing\<rparr>"
    using assms by (auto simp: scheduler_new_def rbind_eq_Ok)
  have none: "bm_get [] n = None" for n :: string by (simp add: bm_get_def)
  have records: "(\<forall>s\<in>set kept. \<forall>v\<in>set (mounted_docker_volumes ord s). recorded vspecs services (sv_name s) v) \<and>
      distinct (map sv_name kept) \<and> kept = filter (\<lambda>s. mounted_docker_volumes ord s \<noteq> []) specs \<and>
      (\<forall>n seen. bm_get vspecs n = Some seen \<longrightarrow>
        (\<exists>s\<in>set specs. \<exists>v\<in>set (mounted_docker_volumes ord s). seen = canonical_volume v))"
    using collect_specs_records [OF k] by (auto simp: none)
  show "vw_service_specs w = filter (\<lambda>s. mounted_docker_volumes ord s \<noteq> []) specs"
    "distinct (map sv_name (vw_service_specs w))"
    "\<forall>s\<in>set (vw_service_specs w). \<forall>v\<in>set (mounted_docker_volumes ord s).
      recorded (vw_volume_specs w) (vw_volume_services w) (sv_name s) v"
    "\<forall>n seen. bm_get (vw_volume_specs w) n = Some seen \<longrightarrow>
      (\<exists>s\<in>set specs. \<exists>v\<in>set (mounted_docker_volumes ord s). seen = canonical_volume v)"
    using records unfolding w volume_scheduler.simps by blast+
  show "\<forall>n xs x. bm_get (vw_existing w) n = Some xs \<and> x \<in> set xs \<longrightarrow>
      (\<exists>m\<in>set (cl_machines state). mi_id (mc_info m) = x \<and>
        (\<exists>dv\<in>set (mc_volumes m). \<exists>seen. dv_name dv = n \<and> bm_get (vw_volume_specs w) n = Some seen \<and>
          matches_docker_volume seen dv))"
    using collect_existing_records [OF e] w by (simp add: none)
qed

section \<open>Volumes and their drivers\<close>

definition driver_of :: "volume_spec \<Rightarrow> driver option" where
  "driver_of v = Option.bind (vs_volume_options v) vo_driver"

text \<open>A volume with its driver, if any, written out: a name, and options that are not \<open>nil\<close>.\<close>

definition driver_plain :: "volume_spec \<Rightarrow> bool" where
  "driver_plain v \<longleftrightarrow>
     (case driver_of v of None \<Rightarrow> True | Some d \<Rightarrow> drv_name d \<noteq> [] \<and> \<not> gm_nil (drv_options d))"

lemma docker_name_defaults:
  "vs_kind v = VOLUME_TYPE_VOLUME \<Longrightarrow> docker_volume_name (volume_with_defaults v) = docker_volume_name v"
  by (cases v) (auto simp: docker_volume_name_def volume_with_defaults_def Let_def volume_options_default_def
      split: option.splits)

lemma driver_defaults: "driver_plain v \<Longrightarrow> driver_of (volume_with_defaults v) = driver_of v"
  by (auto simp: driver_plain_def driver_of_def volume_with_defaults_def Let_def volume_options_default_def
      split: option.splits)

lemma canonical_volume_keep:
  assumes "vs_kind v = VOLUME_TYPE_VOLUME"
  shows "vs_kind (canonical_volume v) = VOLUME_TYPE_VOLUME" "vs_name (canonical_volume v) = docker_volume_name v"
    "driver_of (canonical_volume v) = driver_of (volume_with_defaults v)"
    "driver_plain v \<Longrightarrow> driver_plain (canonical_volume v)"
    "docker_volume_name (canonical_volume v) = docker_volume_name v"
proof -
  show "vs_kind (canonical_volume v) = VOLUME_TYPE_VOLUME" "vs_name (canonical_volume v) = docker_volume_name v"
    "driver_of (canonical_volume v) = driver_of (volume_with_defaults v)"
    using assms by (simp_all add: canonical_volume_def Let_def docker_name_defaults driver_of_def)
  then show "driver_plain (canonical_volume v)" if "driver_plain v"
    using that driver_defaults [OF that] by (simp add: driver_plain_def)
  show "docker_volume_name (canonical_volume v) = docker_volume_name v"
    using assms by (auto simp: canonical_volume_def docker_volume_name_def volume_with_defaults_def Let_def
        volume_options_default_def split: option.splits)
qed

lemma volume_equivalent_name:
  assumes "volume_equivalent a b"
  shows "docker_volume_name a = docker_volume_name b"
proof -
  have "docker_volume_name (volume_equate_empty (volume_with_defaults a)) =
      docker_volume_name (volume_equate_empty (volume_with_defaults b))"
    using assms by (simp add: volume_equivalent_def)
  then show ?thesis by simp
qed

lemma equate_driver: "driver_plain v \<Longrightarrow> driver_of (volume_equate_empty v) = driver_of v"
  by (cases "vs_volume_options v"; cases "Option.bind (vs_volume_options v) vo_driver")
    (auto simp: driver_plain_def driver_of_def volume_equate_empty_def gm_make_non_nil_def)

lemma equivalent_driver:
  assumes "volume_equivalent a b" "driver_plain a" "driver_plain b"
  shows "driver_of a = driver_of b" "vs_kind a = vs_kind b"
proof -
  have eq: "volume_equate_empty (volume_with_defaults a) = volume_equate_empty (volume_with_defaults b)"
    using assms(1) by (simp add: volume_equivalent_def)
  have "driver_plain (volume_with_defaults v)" if "driver_plain v" for v
    using that driver_defaults [OF that] by (simp add: driver_plain_def)
  then show "driver_of a = driver_of b"
    using arg_cong [OF eq, of driver_of] assms(2,3) by (simp add: equate_driver driver_defaults)
  show "vs_kind a = vs_kind b" using arg_cong [OF eq, of vs_kind] by simp
qed

text \<open>A recorded volume stands for the mounted one, on a machine and in the plan.\<close>

lemma recorded_satisfies:
  assumes "volume_equivalent seen (canonical_volume v)" "driver_plain seen" "driver_plain v" "vs_kind v = VOLUME_TYPE_VOLUME"
  shows "matches_docker_volume seen dv \<Longrightarrow> existing_satisfies v dv" "scheduled_satisfies v seen"
proof -
  note canon = canonical_volume_keep [OF assms(4)]
  have drv: "driver_of seen = driver_of v" and kind: "vs_kind seen = VOLUME_TYPE_VOLUME"
    using equivalent_driver [OF assms(1,2) canon(4) [OF assms(3)]] canon(1,3) driver_defaults [OF assms(3)] by simp_all
  have name: "docker_volume_name seen = docker_volume_name v"
    using volume_equivalent_name [OF assms(1)] canon(5) by simp
  show "existing_satisfies v dv" if "matches_docker_volume seen dv"
    using that drv name kind assms(4) driver_defaults [OF assms(2)] driver_defaults [OF assms(3)]
    unfolding existing_satisfies_def matches_docker_volume_def
    by (simp add: docker_name_defaults driver_of_def Let_def split: if_splits option.splits)
  show "scheduled_satisfies v seen"
    using drv name driver_defaults [OF assms(2)] unfolding scheduled_satisfies_def
    by (auto simp: driver_of_def Let_def split: option.splits)
qed

section \<open>The mounted volumes of a service\<close>

lemma bm_empty: "bm_ok []" "bm_get [] k = None"
  by (simp_all add: bm_get_def bm_ok_def)

lemma bm_of_list_props: "bm_ok (bm_of_list ps) \<and> (\<forall>k. bm_get (bm_of_list ps) k = map_of (rev ps) k)"
  unfolding bm_of_list_def
  by (induction ps rule: rev_induct) (auto simp: bm_get_insert bm_ok_insert bm_empty)

lemma service_volume_name: "service_volume s n = Some v \<Longrightarrow> vs_name v = n"
  unfolding service_volume_def by (induction "gs_values (sv_volumes s)") (auto simp: find_Some_iff)

lemma mounted_named_volume:
  assumes "v \<in> set (mounted_named_volumes s)"
  shows "service_volume s (vs_name v) = Some v" "vs_kind v = VOLUME_TYPE_VOLUME" "v \<in> set (gs_values (sv_volumes s))"
proof -
  obtain n where n: "service_volume s n = Some v" and kind: "vs_kind v = VOLUME_TYPE_VOLUME"
    using assms by (auto simp: mounted_named_volumes_def List.map_filter_def)
  show "service_volume s (vs_name v) = Some v" using n service_volume_name by blast
  show "vs_kind v = VOLUME_TYPE_VOLUME" by (rule kind)
  show "v \<in> set (gs_values (sv_volumes s))" using n by (auto simp: service_volume_def find_Some_iff)
qed

lemma mounted_named_functional:
  "u \<in> set (mounted_named_volumes s) \<Longrightarrow> v \<in> set (mounted_named_volumes s) \<Longrightarrow> vs_name u = vs_name v \<Longrightarrow> u = v"
  using mounted_named_volume(1) by (metis option.inject)

lemma set_mounted_docker_volumes:
  assumes "\<And>xs. mset (hash_order xs) = mset xs"
  shows "set (mounted_docker_volumes hash_order s) = set (mounted_named_volumes s)"
proof -
  let ?ps = "map (\<lambda>v. (vs_name v, v)) (mounted_named_volumes s)"
  have "set (hash_order (bm_of_list ?ps)) = set (bm_of_list ?ps)"
    using arg_cong [OF assms [of "bm_of_list ?ps"], of set_mset] by simp
  then have "set (mounted_docker_volumes hash_order s) = snd ` set (bm_of_list ?ps)"
    by (simp add: mounted_docker_volumes_def)
  moreover have "(k, v) \<in> set (bm_of_list ?ps) \<longleftrightarrow> map_of (rev ?ps) k = Some v" for k v
    using bm_of_list_props [of ?ps] by (simp add: bm_get_in)
  moreover have "map_of (rev ?ps) k = Some v \<longleftrightarrow> v \<in> set (mounted_named_volumes s) \<and> k = vs_name v" for k v
  proof
    show "v \<in> set (mounted_named_volumes s) \<and> k = vs_name v" if "map_of (rev ?ps) k = Some v"
      using map_of_SomeD [OF that] by auto
    show "map_of (rev ?ps) k = Some v" if v: "v \<in> set (mounted_named_volumes s) \<and> k = vs_name v"
    proof -
      have "k \<in> fst ` set (rev ?ps)" using v by force
      then obtain u where u: "map_of (rev ?ps) k = Some u" by (metis map_of_eq_None_iff not_None_eq)
      then have "u = v" using map_of_SomeD [OF u] v mounted_named_functional by auto
      then show ?thesis using u by simp
    qed
  qed
  ultimately have eq: "set (mounted_docker_volumes hash_order s) = snd ` set (bm_of_list ?ps)"
    and mem: "(k, v) \<in> set (bm_of_list ?ps) \<longleftrightarrow> v \<in> set (mounted_named_volumes s) \<and> k = vs_name v" for k v
    by simp_all
  have "snd ` A = {v. \<exists>k. (k, v) \<in> A}" for A :: "(string \<times> volume_spec) set" by force
  then show ?thesis unfolding eq by (simp add: mem)
qed

section \<open>The final state\<close>

lemma ids_update_first:
  "(\<And>m. mi_id (mc_info (f m)) = mi_id (mc_info m)) \<Longrightarrow>
   map (\<lambda>m. mi_id (mc_info m)) (update_first P f ms) = map (\<lambda>m. mi_id (mc_info m)) ms"
  by (induction ms) auto

lemma update_first_unique:
  assumes "distinct (map (\<lambda>m. mi_id (mc_info m)) ms)" "m \<in> set ms"
  shows "(if mi_id (mc_info m) = x then f m else m) \<in> set (update_first (\<lambda>m. mi_id (mc_info m) = x) f ms)"
  using assms by (induction ms) (auto simp: image_iff)

text \<open>A machine with the volumes of \<open>m\<close> and at least its scheduled volumes.\<close>

definition machine_extends :: "machine \<Rightarrow> machine \<Rightarrow> bool" where
  "machine_extends m m' \<longleftrightarrow>
     mc_info m' = mc_info m \<and> mc_volumes m' = mc_volumes m \<and>
     set (mc_scheduled_volumes m) \<subseteq> set (mc_scheduled_volumes m')"

lemma apply_scheduled_machine:
  assumes "distinct (map (\<lambda>m. mi_id (mc_info m)) (cl_machines state))" "m \<in> set (cl_machines state)"
  shows "\<exists>m'\<in>set (cl_machines (apply_scheduled scheduled state)). machine_extends m m' \<and>
      (\<forall>vs. (mi_id (mc_info m), vs) \<in> set scheduled \<longrightarrow> set vs \<subseteq> set (mc_scheduled_volumes m'))"
  using assms
proof (induction scheduled arbitrary: state m)
  case Nil
  then show ?case by (auto simp: apply_scheduled_def machine_extends_def)
next
  case (Cons p scheduled)
  obtain x vs where p: "p = (x, vs)" by (cases p)
  let ?ms = "update_first (\<lambda>m. mi_id (mc_info m) = x) (extend_scheduled vs) (cl_machines state)"
  let ?state = "state\<lparr>cl_machines := ?ms\<rparr>"
  let ?m = "if mi_id (mc_info m) = x then extend_scheduled vs m else m"
  have run: "apply_scheduled (p # scheduled) state = apply_scheduled scheduled ?state"
    by (simp add: apply_scheduled_def p)
  have "distinct (map (\<lambda>m. mi_id (mc_info m)) (cl_machines ?state))"
    using Cons.prems(1) by (simp add: ids_update_first extend_scheduled_def)
  moreover have "?m \<in> set (cl_machines ?state)" using update_first_unique [OF Cons.prems] by simp
  ultimately obtain m' where m': "m' \<in> set (cl_machines (apply_scheduled scheduled ?state))" "machine_extends ?m m'"
    "\<forall>us. (mi_id (mc_info ?m), us) \<in> set scheduled \<longrightarrow> set us \<subseteq> set (mc_scheduled_volumes m')"
    using Cons.IH [of ?state ?m] by blast
  have "machine_extends m m'" using m'(2) by (auto simp: machine_extends_def extend_scheduled_def split: if_splits)
  moreover have "set us \<subseteq> set (mc_scheduled_volumes m')" if "(mi_id (mc_info m), us) \<in> set (p # scheduled)" for us
    using that m'(2,3) p by (auto simp: machine_extends_def extend_scheduled_def split: if_splits)
  ultimately show ?case using m'(1) run by auto
qed

lemma initial_eligible_candidates:
  "initial_eligible state specs el = Ok el' \<Longrightarrow> distinct (map sv_name specs) \<Longrightarrow>
   (\<forall>s\<in>set specs. \<exists>ms. eligible_machines state (without_mounts s) = Ok ms \<and>
      candidates el' (sv_name s) = (\<lambda>m. mi_id (mc_info m)) ` set ms) \<and>
   (\<forall>n. n \<notin> sv_name ` set specs \<longrightarrow> candidates el' n = candidates el n)"
proof (induction state specs el rule: initial_eligible.induct)
  case (2 state spec specs el)
  then obtain ms where ms: "eligible_machines state (without_mounts spec) = Ok ms"
    and rest: "initial_eligible state specs
       (bm_insert (sv_name spec) (bs_of_list (map (\<lambda>m. mi_id (mc_info m)) ms)) el) = Ok el'"
    by (auto simp: rbind_eq_Ok)
  have "map_err (\<lambda>e. Fail (ServiceScheduling (sv_name spec) e)) (eligible_machines state (without_mounts spec)) = Ok ms"
    by (simp add: ms)
  from "2.IH" [OF this rest] "2.prems"(2) show ?case
    by (auto simp: ms candidates_insert)
qed simp

lemma constraints_without_mounts:
  "list_all (\<lambda>c. evaluate c m) (constraints_from_spec spec) \<longleftrightarrow>
   list_all (\<lambda>c. evaluate c m) (constraints_from_spec (without_mounts spec)) \<and>
   list_all (volume_satisfied m) (mounted_named_volumes spec)"
proof -
  have "mounted_named_volumes (without_mounts spec) = []"
    by (simp add: mounted_named_volumes_def without_mounts_def gs_from_def)
  moreover have "sv_placement (without_mounts spec) = sv_placement spec" by (simp add: without_mounts_def)
  ultimately show ?thesis
    by (auto simp: constraints_from_spec_def Let_def evaluate_def volumes_evaluate_def)
qed

lemma evaluate_placement_extends:
  "machine_extends m m' \<Longrightarrow> list_all (\<lambda>c. evaluate c m) (constraints_from_spec (without_mounts spec)) \<Longrightarrow>
   list_all (\<lambda>c. evaluate c m') (constraints_from_spec (without_mounts spec))"
  by (auto simp: constraints_from_spec_def Let_def evaluate_def placement_evaluate_def volumes_evaluate_def
      machine_extends_def mounted_named_volumes_def without_mounts_def gs_from_def)

text \<open>What \<open>new\<close> has recorded of a mounted volume serves for that volume.\<close>

lemma mounted_volume_recorded:
  assumes new: "scheduler_new parse_reference hash_order state specs = Ok w"
    and perm: "\<And>xs. mset (hash_order xs) = mset xs"
    and plain: "\<forall>s\<in>set specs. list_all driver_plain (gs_values (sv_volumes s))"
    and spec: "spec \<in> set specs" "spec \<in> set (vw_service_specs w)"
    and v: "v \<in> set (mounted_named_volumes spec)"
  obtains seen ss where "bm_get (vw_volume_specs w) (docker_volume_name v) = Some seen"
    "bm_get (vw_volume_services w) (docker_volume_name v) = Some ss" "sv_name spec \<in> set ss"
    "\<forall>dv. matches_docker_volume seen dv \<longrightarrow> existing_satisfies v dv" "scheduled_satisfies v seen"
proof -
  note records = scheduler_new_records [OF new]
  note mounted = set_mounted_docker_volumes [OF perm]
  note named = mounted_named_volume [OF v]
  have "recorded (vw_volume_specs w) (vw_volume_services w) (sv_name spec) v"
    using records(3) spec(2) v mounted [of spec] by blast
  then obtain seen ss where seen: "bm_get (vw_volume_specs w) (docker_volume_name v) = Some seen"
      "volume_equivalent seen (canonical_volume v)"
    and ss: "bm_get (vw_volume_services w) (docker_volume_name v) = Some ss" "sv_name spec \<in> set ss"
    unfolding recorded_def canonical_volume_keep(2) [OF named(2)] by blast
  obtain s u where u: "s \<in> set specs" "u \<in> set (mounted_named_volumes s)" "seen = canonical_volume u"
    using records(4) seen(1) mounted by blast
  then have "driver_plain seen"
    using plain mounted_named_volume(2,3) [OF u(2)] canonical_volume_keep(4) by (auto simp: list_all_iff)
  moreover have "driver_plain v" using plain spec(1) named(3) by (auto simp: list_all_iff)
  ultimately have "matches_docker_volume seen dv \<Longrightarrow> existing_satisfies v dv" "scheduled_satisfies v seen" for dv
    using recorded_satisfies [OF seen(2) _ _ named(2)] by auto
  then show ?thesis using that seen(1) ss by blast
qed

text \<open>
  (C24) The volume scheduler keeps its promise to the service scheduler, under three conditions: the
  identifiers of machines are unique; every volume of the specifications that names a driver gives it a
  name that is not empty and options that are not \<open>nil\<close>; and the iteration order of a hash map is a
  permutation. Then in the state left by a successful \<open>schedule\<close> every service that mounts volumes has at
  least one eligible machine: one that satisfies its placement and has, or is scheduled to get, every
  volume it mounts. Without the second condition a volume does not satisfy its own requirement, since its
  driver is compared with the one filled in by default.
\<close>

theorem schedule_makes_services_eligible:
  assumes new: "scheduler_new parse_reference hash_order state specs = Ok w"
    and run: "schedule w state = Ok (scheduled, state')"
    and perm: "\<And>xs. mset (hash_order xs) = mset xs"
    and ids: "distinct (map (\<lambda>m. mi_id (mc_info m)) (cl_machines state))"
    and plain: "\<forall>s\<in>set specs. list_all driver_plain (gs_values (sv_volumes s))"
    and spec: "spec \<in> set specs" "mounted_named_volumes spec \<noteq> []"
  shows "\<exists>machines. eligible_machines state' spec = Ok machines"
proof -
  note records = scheduler_new_records [OF new]
  note mounted = set_mounted_docker_volumes [OF perm]
  have "mounted_docker_volumes hash_order spec \<noteq> []" using mounted [of spec] spec(2) by auto
  then have kept: "spec \<in> set (vw_service_specs w)" using records(1) spec(1) by simp
  obtain el0 el where el0: "initial_eligible state (vw_service_specs w) [] = Ok el0"
    and ne: "nonempty el (sv_name ` set (vw_service_specs w))" and sub: "\<forall>s. candidates el s \<subseteq> candidates el0 s"
    and prov: "\<forall>v\<in>set (bm_keys (vw_volume_specs w)). provided w el scheduled v"
    and st: "state' = apply_scheduled scheduled state"
    using schedule_cases [OF scheduler_new_wf [OF new], of state] run kept by fastforce
  obtain x where x: "x \<in> candidates el (sv_name spec)" using ne kept by (auto simp: nonempty_def)
  obtain ms where ms: "eligible_machines state (without_mounts spec) = Ok ms"
    "candidates el0 (sv_name spec) = (\<lambda>m. mi_id (mc_info m)) ` set ms"
    using initial_eligible_candidates [OF el0 records(2)] kept by blast
  then obtain m where m: "m \<in> set ms" "mi_id (mc_info m) = x" using x sub by fastforce
  have mstate: "m \<in> set (cl_machines state)" and place: "list_all (\<lambda>c. evaluate c m) (constraints_from_spec (without_mounts spec))"
    using m(1) ms(1) by (auto simp: eligible_machines_def Let_def split: if_splits)
  obtain m' where m': "m' \<in> set (cl_machines state')" "machine_extends m m'"
    "\<forall>vs. (x, vs) \<in> set scheduled \<longrightarrow> set vs \<subseteq> set (mc_scheduled_volumes m')"
    using apply_scheduled_machine [OF ids mstate, of scheduled] m(2) st by auto
  have "volume_satisfied m' v" if v: "v \<in> set (mounted_named_volumes spec)" for v
  proof -
    let ?n = "docker_volume_name v"
    obtain seen ss where seen: "bm_get (vw_volume_specs w) ?n = Some seen"
      and ss: "bm_get (vw_volume_services w) ?n = Some ss" "sv_name spec \<in> set ss"
      and sat: "\<forall>dv. matches_docker_volume seen dv \<longrightarrow> existing_satisfies v dv" "scheduled_satisfies v seen"
      using mounted_volume_recorded [OF new perm plain spec(1) kept v] by blast
    have "provided w el scheduled ?n" using prov seen by (force simp: bm_get_keys)
    then consider xs where "bm_get (vw_existing w) ?n = Some xs" "x \<in> set xs"
      | vs where "bm_get scheduled x = Some vs" "seen \<in> set vs"
      using x ss seen unfolding provided_def by fastforce
    then show ?thesis
    proof cases
      case 1
      then obtain k dv where k: "k \<in> set (cl_machines state)" "mi_id (mc_info k) = x" "dv \<in> set (mc_volumes k)"
        "matches_docker_volume seen dv"
        using records(5) seen by fastforce
      have "k = m" using k(1,2) m(2) mstate ids by (auto simp: distinct_map inj_on_def)
      then show ?thesis using k(3,4) sat(1) m'(2) by (auto simp: volume_satisfied_def machine_extends_def list_ex_iff)
    next
      case 2
      have "(x, vs) \<in> set scheduled" using 2(1) by (simp add: bm_get_def map_of_SomeD)
      then show ?thesis using 2(2) m'(3) sat(2) by (auto simp: volume_satisfied_def list_ex_iff)
    qed
  qed
  then have "list_all (volume_satisfied m') (mounted_named_volumes spec)" by (simp add: list_all_iff)
  then have "list_all (\<lambda>c. evaluate c m') (constraints_from_spec spec)"
    using evaluate_placement_extends [OF m'(2) place] constraints_without_mounts [of m' spec] by blast
  then show ?thesis using m'(1) by (auto simp: eligible_machines_def Let_def filter_empty_conv)
qed

definition demo_scheduled :: scheduled_volumes where
  "demo_scheduled = [(''m2'', [canonical_volume demo_volume])]"

lemma demo_schedule:
  "schedule demo_scheduler demo_state = Ok (demo_scheduled, apply_scheduled demo_scheduled demo_state)"
  by code_simp

theorem schedule_makes_services_eligible_witness:
  "\<exists>machines. eligible_machines (apply_scheduled demo_scheduled demo_state) (demo_service ''api'' []) = Ok machines"
proof (rule schedule_makes_services_eligible [OF demo_scheduler_new demo_schedule])
  show "distinct (map (\<lambda>m. mi_id (mc_info m)) (cl_machines demo_state))" by code_simp
  show "\<forall>s\<in>set demo_specs. list_all driver_plain (gs_values (sv_volumes s))" by code_simp
  show "demo_service ''api'' [] \<in> set demo_specs" by (simp add: demo_specs_def)
  show "mounted_named_volumes (demo_service ''api'' []) \<noteq> []" by code_simp
qed simp

end
