(* ===== verification/Civil_Time.thy ===== *)
theory Civil_Time
  imports Utf8 Prelude "HOL-Library.Signed_Division"
begin

text \<open>
  Calendar dates and RFC 3339 times: the reader of container times
  (\<open>ployz-pkg-api/src/container.rs\<close>) and the printer of the cluster service
  (\<open>ployz-internal-machine-cluster/src/service.rs\<close>). Signed division is the truncating one of the
  language. The fields have two to four digits, so none of the machine integers can overflow and
  they are integers here.
\<close>

section \<open>Days and dates\<close>

definition days_in_month :: "int \<Rightarrow> int \<Rightarrow> int" where
  "days_in_month year month =
     (if month \<in> {1, 3, 5, 7, 8, 10, 12} then 31
      else if month \<in> {4, 6, 9, 11} then 30
      else if month = 2 \<and> year smod 4 = 0 \<and> (year smod 100 \<noteq> 0 \<or> year smod 400 = 0) then 29
      else if month = 2 then 28
      else 0)"

definition days_from_civil :: "int \<Rightarrow> int \<Rightarrow> int \<Rightarrow> int" where
  "days_from_civil year month day =
     (let adjusted_year = year - (if month \<le> 2 then 1 else 0);
          era = (if adjusted_year \<ge> 0 then adjusted_year else adjusted_year - 399) sdiv 400;
          year_of_era = adjusted_year - era * 400;
          shifted_month = month + (if month > 2 then - 3 else 9);
          day_of_year = (153 * shifted_month + 2) sdiv 5 + day - 1;
          day_of_era = year_of_era * 365 + year_of_era sdiv 4 - year_of_era sdiv 100 + day_of_year
      in era * 146097 + day_of_era - 719468)"

definition civil_date :: "int \<Rightarrow> int \<times> int \<times> int" where
  "civil_date days_since_epoch =
     (let days = days_since_epoch + 719468;
          era = (if days \<ge> 0 then days else days - 146096) sdiv 146097;
          day_of_era = days - era * 146097;
          year_of_era = (day_of_era - day_of_era sdiv 1460 + day_of_era sdiv 36524 - day_of_era sdiv 146096) sdiv 365;
          year = year_of_era + era * 400;
          day_of_year = day_of_era - (365 * year_of_era + year_of_era sdiv 4 - year_of_era sdiv 100);
          month_prime = (5 * day_of_year + 2) sdiv 153;
          day = day_of_year - (153 * month_prime + 2) sdiv 5 + 1;
          month = month_prime + (if month_prime < 10 then 3 else - 9)
      in (year + (if month \<le> 2 then 1 else 0), month, day))"

definition valid_date :: "int \<Rightarrow> int \<Rightarrow> int \<Rightarrow> bool" where
  "valid_date year month day \<longleftrightarrow> 1 \<le> month \<and> month \<le> 12 \<and> 1 \<le> day \<and> day \<le> days_in_month year month"

subsection \<open>Division\<close>

lemma sdiv_nonneg: "0 \<le> a \<Longrightarrow> 0 < b \<Longrightarrow> a sdiv b = a div (b :: int)"
  by (auto simp: signed_divide_int_def sgn_if)

lemma div_eqI: "0 < k \<Longrightarrow> q * k \<le> n \<Longrightarrow> n < q * k + k \<Longrightarrow> n div k = (q :: int)"
  by (rule int_div_pos_eq [where r = "n - q * k"]) auto

text \<open>The truncating division of a shifted number is the flooring one.\<close>

lemma sdiv_floor:
  assumes b: "0 < b"
  shows "(if a \<ge> 0 then a else a - (b - 1)) sdiv b = a div (b :: int)"
proof (cases "a \<ge> 0")
  case False
  define q r where "q = a div b" and "r = a mod b"
  then have a: "a = q * b + r" and r: "0 \<le> r" "r < b" using b by simp_all
  have "(b - 1 - a) div b = - q"
    by (rule int_div_pos_eq [where r = "b - 1 - r"]) (use a r in \<open>auto simp: algebra_simps\<close>)
  moreover have "(a - (b - 1)) sdiv b = - ((b - 1 - a) div b)"
    using False b by (simp add: signed_divide_int_def sgn_if)
  ultimately show ?thesis using False by (simp add: q_def)
qed (simp add: sdiv_nonneg b)

lemma sdiv_floor_era:
  "(if a \<ge> 0 then a else a - 399) sdiv 400 = a div (400 :: int)"
  "(if a \<ge> 0 then a else a - 146096) sdiv 146097 = a div (146097 :: int)"
  using sdiv_floor [of 400 a] sdiv_floor [of 146097 a] by (auto split: if_splits)

lemma mod_top:
  fixes t k :: int
  assumes "1 \<le> t" "t \<le> k"
  shows "(k * q + t) mod k = 0 \<longleftrightarrow> t = k"
  using assms by (cases "t = k") (simp_all add: mod_pos_pos_trivial)

lemma smod_zero: "0 < b \<Longrightarrow> a smod b = 0 \<longleftrightarrow> a mod b = (0 :: int)"
  by (cases "a = 0") (simp_all add: signed_modulo_int_def mod_eq_0_iff_dvd sgn_0_0)

text \<open>Quotient and remainder with their linear facts, for the linear arithmetic of the calendar.\<close>

lemma div_modE:
  fixes n k :: int
  assumes "0 < k"
  obtains q m where "n div k = q" "n mod k = m" "n = q * k + m" "0 \<le> m" "m < k"
  using assms by (metis div_mult_mod_eq pos_mod_bound pos_mod_sign)

subsection \<open>Years in parts\<close>

text \<open>
  A year that starts in March, as four-hundreds, hundreds, fours and ones, and a day of it. The last
  day of the year, the 29th of February, exists in the last year of a group of four, except at the
  end of a century that does not end a group of four hundred.
\<close>

definition year_parts :: "int \<Rightarrow> int \<Rightarrow> int \<Rightarrow> bool" where
  "year_parts a b c \<longleftrightarrow> 0 \<le> a \<and> a \<le> 3 \<and> 0 \<le> b \<and> b \<le> 24 \<and> 0 \<le> c \<and> c \<le> 3"

definition leap_parts :: "int \<Rightarrow> int \<Rightarrow> int \<Rightarrow> bool" where
  "leap_parts a b c \<longleftrightarrow> c = 3 \<and> (b = 24 \<longrightarrow> a = 3)"

definition day_parts :: "int \<Rightarrow> int \<Rightarrow> int \<Rightarrow> int \<Rightarrow> bool" where
  "day_parts a b c d \<longleftrightarrow> year_parts a b c \<and> 0 \<le> d \<and> d \<le> 365 \<and> (d = 365 \<longrightarrow> leap_parts a b c)"

definition year_of :: "int \<Rightarrow> int \<Rightarrow> int \<Rightarrow> int \<Rightarrow> int" where
  "year_of e a b c = 400 * e + 100 * a + 4 * b + c"

definition day_number :: "int \<Rightarrow> int \<Rightarrow> int \<Rightarrow> int \<Rightarrow> int" where
  "day_number a b c d = 36524 * a + 1461 * b + 365 * c + d"

lemma year_parts_exist: "\<exists>e a b c. year = year_of e a b c \<and> year_parts a b c"
proof -
  obtain e r where r: "year = e * 400 + r" "0 \<le> r" "r < 400" by (rule div_modE [of 400 year]) auto
  obtain a t where t: "r = a * 100 + t" "0 \<le> t" "t < 100" by (rule div_modE [of 100 r]) auto
  obtain b c where c: "t = b * 4 + c" "0 \<le> c" "c < 4" by (rule div_modE [of 4 t]) auto
  have "year = year_of e a b c" using r t c unfolding year_of_def by linarith
  moreover have "year_parts a b c" unfolding year_parts_def
    by (intro conjI; use r t c in linarith)
  ultimately show ?thesis by blast
qed

lemma year_parts_div:
  assumes "year_parts a b c"
  shows "year_of e a b c div 400 = e" "(100 * a + 4 * b + c) div 4 = 25 * a + b" "(100 * a + 4 * b + c) div 100 = a"
    "0 \<le> 100 * a + 4 * b + c"
  using assms unfolding year_parts_def year_of_def by (auto intro!: div_eqI)

lemma day_parts_exist:
  assumes "0 \<le> n" "n < 146097"
  shows "\<exists>a b c d. n = day_number a b c d \<and> day_parts a b c d"
proof -
  obtain a r where r: "n = 36524 * a + r" "0 \<le> r" "r \<le> 36524" "0 \<le> a" "a \<le> 3" "a < 3 \<longrightarrow> r < 36524"
  proof (rule div_modE [of 36524 n])
    fix q m assume qm: "n = q * 36524 + m" "0 \<le> m" "m < 36524"
    show thesis
    proof (cases "q \<le> 3")
      case True
      moreover have "0 \<le> q" using qm assms(1) by linarith
      ultimately show thesis by (intro that [of q m]) (use qm in linarith)+
    next
      case False
      then have "q = 4" "m = 0" using qm assms(2) by linarith+
      then show thesis by (intro that [of 3 36524]) (use qm in linarith)+
    qed
  qed simp
  obtain b s where s: "r = b * 1461 + s" "0 \<le> s" "s < 1461" by (rule div_modE [of 1461 r]) auto
  obtain c d where d: "s = 365 * c + d" "0 \<le> d" "d \<le> 365" "0 \<le> c" "c \<le> 3" "d = 365 \<longrightarrow> c = 3"
  proof (rule div_modE [of 365 s])
    fix q m assume qm: "s = q * 365 + m" "0 \<le> m" "m < 365"
    show thesis
    proof (cases "q \<le> 3")
      case True
      moreover have "0 \<le> q" using qm s by linarith
      ultimately show thesis by (intro that [of q m]) (use qm in linarith)+
    next
      case False
      then have "q = 4" "m = 0" using qm s by linarith+
      then show thesis by (intro that [of 3 365]) (use qm in linarith)+
    qed
  qed simp
  have b: "0 \<le> b" "b \<le> 24" using r(2,3) s by linarith+
  have "n = day_number a b c d" using r(1) s(1) d(1) unfolding day_number_def by linarith
  moreover have "d = 365 \<longrightarrow> b = 24 \<longrightarrow> a = 3"
  proof (intro impI)
    assume "d = 365" "b = 24"
    then have "r = 36524" using d s by simp
    then show "a = 3" using r(5,6) by linarith
  qed
  then have "day_parts a b c d"
    using r b d unfolding day_parts_def year_parts_def leap_parts_def by blast
  ultimately show ?thesis by blast
qed

lemma day_number_bounds: "day_parts a b c d \<Longrightarrow> 0 \<le> day_number a b c d \<and> day_number a b c d < 146097"
  unfolding day_parts_def year_parts_def leap_parts_def day_number_def by auto

text \<open>The era arithmetic of both directions, on the parts.\<close>

lemma day_of_era_parts:
  assumes "day_parts a b c d" and n: "n = day_number a b c d"
  shows "(n - n sdiv 1460 + n sdiv 36524 - n sdiv 146096) sdiv 365 = 100 * a + 4 * b + c"
proof -
  have p: "0 \<le> a" "a \<le> 3" "0 \<le> b" "b \<le> 24" "0 \<le> c" "c \<le> 3" "0 \<le> d" "d \<le> 365" "d = 365 \<longrightarrow> c = 3" "d = 365 \<and> b = 24 \<longrightarrow> a = 3"
    using assms(1) unfolding day_parts_def year_parts_def leap_parts_def by auto
  have n': "n = 36524 * a + 1461 * b + 365 * c + d" using n by (simp add: day_number_def)
  have n0: "0 \<le> n" using p n' by linarith
  define k where "k = 24 * a + b + 365 * c + d"
  define e where "e = (if k < 1460 then 0 else 1 :: int)"
  have "n div 1460 = 25 * a + b + e"
    by (rule div_eqI) (use p n' in \<open>auto simp: e_def k_def split: if_splits\<close>)
  moreover have "n div 36524 - n div 146096 = a"
  proof (cases "a = 3 \<and> b = 24 \<and> c = 3 \<and> d = 365")
    case True
    then have "n = 146096" using n' by simp
    then show ?thesis using True by simp
  next
    case False
    then have "1461 * b + 365 * c + d < 36524" using p by auto
    then have "n div 36524 = a" "n div 146096 = 0"
      using p n' by (auto intro!: div_eqI)
    then show ?thesis by simp
  qed
  moreover have "(n - (25 * a + b + e) + a) div 365 = 100 * a + 4 * b + c"
    by (rule div_eqI) (use p n' in \<open>auto simp: e_def k_def split: if_splits\<close>)
  moreover have "0 \<le> n - (25 * a + b + e) + a" using p n' by (auto simp: e_def k_def split: if_splits)
  ultimately show ?thesis using n0 by (simp add: sdiv_nonneg algebra_simps)
qed

section \<open>Months\<close>

text \<open>The first day of a month in a year that starts in March, and the length of its months.\<close>

definition month_start :: "int \<Rightarrow> int" where
  "month_start m = (153 * m + 2) div 5"

lemma month_cases:
  assumes "0 \<le> m" "m \<le> (11 :: int)"
  shows "m \<in> {0, 1, 2, 3, 4, 5, 6, 7, 8, 9, 10, 11}"
  using assms by simp presburger

definition month_length :: "int \<Rightarrow> int" where
  "month_length m = (if m = 11 then 29 else month_start (m + 1) - month_start m)"

lemma month_of_day:
  assumes m: "0 \<le> m" "m \<le> 11" and d: "1 \<le> d" "d \<le> month_length m"
  shows "(5 * (month_start m + d - 1) + 2) div 153 = m" "0 \<le> month_start m + d - 1"
    "month_start m + d - 1 \<le> 365" "month_start m + d - 1 = 365 \<longleftrightarrow> m = 11 \<and> d = 29"
  using month_cases [OF m] d
  by (auto simp: month_start_def month_length_def intro!: div_eqI)

lemma month_of_day_exists:
  assumes "0 \<le> n" "n \<le> 365"
  shows "\<exists>m d. 0 \<le> m \<and> m \<le> 11 \<and> 1 \<le> d \<and> d \<le> month_length m \<and> n = month_start m + d - 1"
proof -
  let ?m = "(5 * n + 2) div 153"
  obtain q r where qr: "?m = q" "5 * n + 2 = q * 153 + r" "0 \<le> r" "r < 153"
    by (rule div_modE [of 153 "5 * n + 2"]) auto
  then have m: "0 \<le> q" "q \<le> 11" using assms by linarith+
  have "1 \<le> n - month_start q + 1 \<and> n - month_start q + 1 \<le> month_length q"
    using month_cases [OF m] qr assms by (auto simp: month_start_def month_length_def)
  then show ?thesis using m by (intro exI [of _ q] exI [of _ "n - month_start q + 1"]) simp
qed

section \<open>The two directions are inverse\<close>

lemma days_from_civil_parts:
  assumes "year_parts a b c" "year_of e a b c = year - (if month \<le> 2 then 1 else 0)" "1 \<le> month"
  shows "days_from_civil year month day =
    146097 * e + day_number a b c (month_start (month + (if month > 2 then - 3 else 9)) + day - 1) - 719468"
proof -
  let ?y = "year - (if month \<le> 2 then 1 else 0)"
  have era: "?y div 400 = e" using year_parts_div(1) [OF assms(1), of e] assms(2) by simp
  have yoe: "?y - e * 400 = 100 * a + 4 * b + c" using assms(2) by (simp add: year_of_def)
  have "(153 * (month + (if month > 2 then - 3 else 9)) + 2) sdiv 5 = month_start (month + (if month > 2 then - 3 else 9))"
    using assms(3) by (simp add: month_start_def sdiv_nonneg)
  then show ?thesis
    unfolding days_from_civil_def Let_def sdiv_floor_era era yoe
    using year_parts_div(2-4) [OF assms(1)] by (simp add: sdiv_nonneg day_number_def)
qed

lemma civil_date_parts:
  assumes m: "0 \<le> m" "m \<le> 11" and d: "1 \<le> d" "d \<le> month_length m"
    and parts: "day_parts a b c (month_start m + d - 1)"
  shows "civil_date (146097 * e + day_number a b c (month_start m + d - 1) - 719468) =
    (let month = m + (if m < 10 then 3 else - 9) in (year_of e a b c + (if month \<le> 2 then 1 else 0), month, d))"
proof -
  let ?doy = "month_start m + d - 1"
  let ?n = "day_number a b c ?doy"
  let ?days = "146097 * e + ?n"
  have n: "0 \<le> ?n" "?n < 146097" using day_number_bounds [OF parts] by simp_all
  have y: "year_parts a b c" using parts by (simp add: day_parts_def)
  have era: "?days div 146097 = e" using n by (intro div_eqI) simp_all
  have doe: "?days - e * 146097 = ?n" by simp
  note yoe = day_of_era_parts [OF parts refl]
  have doy: "?n - (365 * (100 * a + 4 * b + c) + (100 * a + 4 * b + c) sdiv 4 - (100 * a + 4 * b + c) sdiv 100) = ?doy"
    using year_parts_div(2-4) [OF y] by (simp add: sdiv_nonneg day_number_def)
  have mp: "(5 * ?doy + 2) sdiv 153 = m" using month_of_day(1,2) [OF m d] by (simp add: sdiv_nonneg)
  have start: "(153 * m + 2) sdiv 5 = month_start m" using m by (simp add: sdiv_nonneg month_start_def)
  have shift: "146097 * e + ?n - 719468 + 719468 = ?days" by simp
  show ?thesis
    unfolding civil_date_def Let_def shift sdiv_floor_era era doe yoe doy mp start by (auto simp: year_of_def)
qed

lemma leap_year_parts:
  assumes "year_parts a b c" "year_of e a b c = year - 1"
  shows "(year smod 4 = 0 \<and> (year smod 100 \<noteq> 0 \<or> year smod 400 = 0)) \<longleftrightarrow> leap_parts a b c"
proof -
  have p: "0 \<le> a" "a \<le> 3" "0 \<le> b" "b \<le> 24" "0 \<le> c" "c \<le> 3" using assms(1) by (simp_all add: year_parts_def)
  have year: "year = 400 * e + (100 * a + 4 * b + c + 1)" using assms(2) by (simp add: year_of_def)
  have "year mod 4 = 0 \<longleftrightarrow> c = 3"
    using mod_top [of "c + 1" 4 "100 * e + 25 * a + b"] p year by (simp add: algebra_simps)
  moreover have "year mod 100 = 0 \<longleftrightarrow> 4 * b + c + 1 = 100"
    using mod_top [of "4 * b + c + 1" 100 "4 * e + a"] p year by (simp add: algebra_simps)
  moreover have "year mod 400 = 0 \<longleftrightarrow> 100 * a + 4 * b + c + 1 = 400"
    using mod_top [of "100 * a + 4 * b + c + 1" 400 e] p year by (simp add: algebra_simps)
  ultimately show ?thesis using p unfolding leap_parts_def by (auto simp: smod_zero)
qed

lemma valid_date_parts:
  assumes "year_parts a b c" "year_of e a b c = year - (if month \<le> 2 then 1 else 0)"
    and "1 \<le> month" "month \<le> 12"
  shows "day \<le> days_in_month year month \<longleftrightarrow>
    (let m = month + (if month > 2 then - 3 else 9) in
     day \<le> month_length m \<and> (m = 11 \<and> day = 29 \<longrightarrow> leap_parts a b c))"
proof -
  have "month - 1 \<in> {0, 1, 2, 3, 4, 5, 6, 7, 8, 9, 10, 11}" using assms(3,4) by (intro month_cases) simp_all
  then consider "month = 2" | "month \<in> {1, 3, 4, 5, 6, 7, 8, 9, 10, 11, 12}" by auto
  then show ?thesis
  proof cases
    case 1
    then show ?thesis
      using leap_year_parts [OF assms(1), of e year] assms(2) by (auto simp: days_in_month_def month_length_def)
  next
    case 2
    then show ?thesis by (auto simp: days_in_month_def month_length_def month_start_def)
  qed
qed

text \<open>The days are a bijection between the integers and the valid dates.\<close>

lemma civil_date_from_civil:
  assumes "valid_date year month day"
  shows "civil_date (days_from_civil year month day) = (year, month, day)"
proof -
  let ?m = "month + (if month > 2 then - 3 else 9)"
  obtain e a b c where y: "year_of e a b c = year - (if month \<le> 2 then 1 else 0)" and parts: "year_parts a b c"
    using year_parts_exist [of "year - (if month \<le> 2 then 1 else 0)"] by metis
  have v: "1 \<le> month" "month \<le> 12" "1 \<le> day" "day \<le> days_in_month year month"
    using assms by (simp_all add: valid_date_def)
  have m: "0 \<le> ?m" "?m \<le> 11" using v by auto
  have d: "day \<le> month_length ?m" "?m = 11 \<and> day = 29 \<longrightarrow> leap_parts a b c"
    using valid_date_parts [OF parts y v(1,2), of day] v(4) unfolding Let_def by blast+
  have "day_parts a b c (month_start ?m + day - 1)"
    unfolding day_parts_def using parts month_of_day(2-4) [OF m v(3) d(1)] d(2) by blast
  from civil_date_parts [OF m v(3) d(1) this, of e] show ?thesis
    using days_from_civil_parts [OF parts y v(1), of day] y v(1,2) by (simp add: Let_def split: if_splits)
qed

lemma days_from_civil_date:
  assumes "civil_date n = (year, month, day)"
  shows "valid_date year month day" "days_from_civil year month day = n"
proof -
  obtain e r where r: "n + 719468 = e * 146097 + r" "0 \<le> r" "r < 146097"
    by (rule div_modE [of 146097 "n + 719468"]) auto
  obtain a b c t where t: "r = day_number a b c t" "day_parts a b c t" using day_parts_exist [OF r(2,3)] by blast
  obtain m d where md: "0 \<le> m" "m \<le> 11" "1 \<le> d" "d \<le> month_length m" "t = month_start m + d - 1"
    using month_of_day_exists [of t] t(2) by (auto simp: day_parts_def)
  let ?month = "m + (if m < 10 then 3 else - 9)"
  have n: "n = 146097 * e + day_number a b c (month_start m + d - 1) - 719468" using r(1) t(1) md(5) by simp
  have date: "year = year_of e a b c + (if ?month \<le> 2 then 1 else 0)" "month = ?month" "day = d"
    using civil_date_parts [OF md(1-4) t(2) [unfolded md(5)], of e] assms n by (auto simp: Let_def split: if_splits)
  have y: "year_of e a b c = year - (if month \<le> 2 then 1 else 0)" using date by simp
  have parts: "year_parts a b c" using t(2) by (simp add: day_parts_def)
  have month: "1 \<le> month" "month \<le> 12" "month + (if month > 2 then - 3 else 9) = m" using date md(1,2) by auto
  have leap: "m = 11 \<and> d = 29 \<longrightarrow> leap_parts a b c"
    using t(2) month_of_day(4) [OF md(1-4)] md(5) unfolding day_parts_def by blast
  show "valid_date year month day"
    unfolding valid_date_def using month(1,2) md(3,4) leap date(3) valid_date_parts [OF parts y month(1,2), of day]
    unfolding month(3) Let_def by blast
  show "days_from_civil year month day = n"
    using days_from_civil_parts [OF parts y month(1), of day] n date(3) unfolding month(3) by simp
qed

end
