(* ===== verification/Rfc3339.thy ===== *)
theory Rfc3339
  imports Civil_Time
begin

text \<open>
  RFC 3339 times as text: \<open>parse_rfc3339\<close> of the API crate and \<open>rfc3339_utc\<close> of the cluster
  service. A system time is the number of nanoseconds since the epoch.
\<close>

section \<open>Text by byte positions\<close>

definition is_char_boundary :: "string \<Rightarrow> nat \<Rightarrow> bool" where
  "is_char_boundary s i =
     (if i = 0 \<or> i = length s then True else i < length s \<and> \<not> is_cont (byte_of (s ! i)))"

definition str_get :: "string \<Rightarrow> nat \<Rightarrow> nat \<Rightarrow> string option" where
  "str_get s a b =
     (if a \<le> b \<and> b \<le> length s \<and> is_char_boundary s a \<and> is_char_boundary s b
      then Some (take (b - a) (drop a s)) else None)"

definition parse_sint :: "int \<Rightarrow> int \<Rightarrow> string \<Rightarrow> int option" where
  "parse_sint lowest highest s =
     (case s of
        [] \<Rightarrow> None
      | c # cs \<Rightarrow>
          let negative = (c = CHR ''-'');
              ds = (if c = CHR ''-'' \<or> c = CHR ''+'' then cs else s);
              n = (if negative then - int (dec_val ds) else int (dec_val ds))
          in if ds \<noteq> [] \<and> list_all is_ascii_digit ds \<and> lowest \<le> n \<and> n \<le> highest then Some n else None)"

definition parse_i32 :: "string \<Rightarrow> int option" where
  "parse_i32 = parse_sint (- (2 ^ 31)) (2 ^ 31 - 1)"

definition parse_i64 :: "string \<Rightarrow> int option" where
  "parse_i64 = parse_sint (- (2 ^ 63)) (2 ^ 63 - 1)"

definition parse_u32 :: "string \<Rightarrow> int option" where
  "parse_u32 s = map_option int (parse_uint (2 ^ 32 - 1) s)"

text \<open>Zero padding to a width, which counts the sign.\<close>

definition pad_nat :: "nat \<Rightarrow> nat \<Rightarrow> string" where
  "pad_nat w n = replicate (w - length (nat_to_string n)) (CHR ''0'') @ nat_to_string n"

definition pad_int :: "nat \<Rightarrow> int \<Rightarrow> string" where
  "pad_int w i = (if i < 0 then CHR ''-'' # pad_nat (w - 1) (nat (- i)) else pad_nat w (nat i))"

section \<open>Reading a time\<close>

record rfc3339_time =
  rt_unix_seconds :: int
  rt_nanos :: nat
  rt_year :: int

definition is_go_zero :: "rfc3339_time \<Rightarrow> bool" where
  "is_go_zero t \<longleftrightarrow> rt_year t = 1 \<and> rt_unix_seconds t = - 62135596800 \<and> rt_nanos t = 0"

definition seconds_since :: "rfc3339_time \<Rightarrow> rfc3339_time \<Rightarrow> int" where
  "seconds_since later earlier = rt_unix_seconds later - rt_unix_seconds earlier"

definition rfc3339_now :: "int \<Rightarrow> rfc3339_time" where
  "rfc3339_now t =
     (let d = max 0 t
      in \<lparr>rt_unix_seconds = d div 10 ^ 9, rt_nanos = nat (d mod 10 ^ 9), rt_year = 1970\<rparr>)"

definition time_field :: "string \<Rightarrow> nat \<Rightarrow> nat \<Rightarrow> (string \<Rightarrow> int option) \<Rightarrow> string \<Rightarrow> (string, int) result" where
  "time_field value a b parse message =
     rbind (ok_or message (str_get value a b)) (\<lambda>s. ok_or message (parse s))"

definition split_fraction :: "string \<Rightarrow> (string, string \<times> string) result" where
  "split_fraction tail =
     (case strip_prefix tail ''.'' of
        Some rest \<Rightarrow>
          (let stop = (\<lambda>c. c = CHR ''Z'' \<or> c = CHR ''+'' \<or> c = CHR ''-'')
           in if list_ex stop rest
              then Ok (takeWhile (\<lambda>c. \<not> stop c) rest, dropWhile (\<lambda>c. \<not> stop c) rest)
              else Err ''missing timezone'')
      | None \<Rightarrow> Ok ([], tail))"

definition parse_nanos :: "string \<Rightarrow> string \<Rightarrow> (string, nat) result" where
  "parse_nanos tail fraction =
     (if length fraction > 9 \<or> starts_with tail ''.'' \<and> fraction = [] \<or> \<not> list_all is_ascii_digit fraction
      then Err ''invalid fractional second''
      else if fraction = [] then Ok 0
      else rbind (ok_or ''invalid fractional second'' (parse_uint (2 ^ 32 - 1) fraction)) (\<lambda>n.
        Ok (n * 10 ^ (9 - length fraction))))"

definition parse_zone :: "string \<Rightarrow> (string, int) result" where
  "parse_zone zone =
     (if zone = ''Z'' then Ok 0
      else
        rbind (case zone of
                 [] \<Rightarrow> Err ''invalid timezone''
               | c # _ \<Rightarrow> if c = CHR ''+'' then Ok 1 else if c = CHR ''-'' then Ok (- 1) else Err ''invalid timezone'')
          (\<lambda>sign.
        if length zone \<noteq> 6 \<or> zone ! 3 \<noteq> CHR '':'' then Err ''invalid timezone''
        else
          rbind (ok_or ''invalid timezone'' (parse_i64 (take 2 (drop 1 zone)))) (\<lambda>hours.
          rbind (ok_or ''invalid timezone'' (parse_i64 (take 2 (drop 4 zone)))) (\<lambda>minutes.
          if hours > 24 \<or> minutes > 59 then Err ''invalid timezone''
          else Ok (sign * (hours * 3600 + minutes * 60))))))"

definition byte_is :: "string \<Rightarrow> nat \<Rightarrow> char \<Rightarrow> bool" where
  "byte_is s i c \<longleftrightarrow> i < length s \<and> s ! i = c"

definition parse_rfc3339 :: "string \<Rightarrow> (string, rfc3339_time) result" where
  "parse_rfc3339 value =
     (if length value < 20 then Err ''cannot parse as RFC3339Nano''
      else
        rbind (time_field value 0 4 parse_i32 ''invalid year'') (\<lambda>year.
        rbind (time_field value 5 7 parse_u32 ''invalid month'') (\<lambda>month.
        rbind (time_field value 8 10 parse_u32 ''invalid day'') (\<lambda>day.
        rbind (time_field value 11 13 parse_i64 ''invalid hour'') (\<lambda>hour.
        rbind (time_field value 14 16 parse_i64 ''invalid minute'') (\<lambda>minute.
        rbind (time_field value 17 19 parse_i64 ''invalid second'') (\<lambda>second.
        if \<not> byte_is value 4 CHR ''-'' \<or> \<not> byte_is value 7 CHR ''-'' \<or> \<not> byte_is value 10 CHR ''T'' \<or>
           \<not> byte_is value 13 CHR '':'' \<or> \<not> byte_is value 16 CHR '':''
        then Err ''cannot parse as RFC3339Nano''
        else if \<not> (1 \<le> month \<and> month \<le> 12) \<or> day = 0 \<or> day > days_in_month year month \<or>
           \<not> (0 \<le> hour \<and> hour \<le> 23) \<or> \<not> (0 \<le> minute \<and> minute \<le> 59) \<or> \<not> (0 \<le> second \<and> second \<le> 59)
        then Err ''cannot parse as RFC3339Nano''
        else
          (let tail = drop 19 value in
           rbind (split_fraction tail) (\<lambda>(fraction, zone).
           rbind (parse_nanos tail fraction) (\<lambda>nanos.
           rbind (parse_zone zone) (\<lambda>offset.
           Ok \<lparr>rt_unix_seconds = days_from_civil year month day * 86400 + hour * 3600 + minute * 60 + second - offset,
               rt_nanos = nanos, rt_year = year\<rparr>)))))))))))"

section \<open>Printing a time\<close>

definition system_seconds :: "int \<Rightarrow> int" where
  "system_seconds t =
     (if t \<ge> 0 then t div 10 ^ 9
      else - ((- t) div 10 ^ 9) - (if (- t) mod 10 ^ 9 \<noteq> 0 then 1 else 0))"

definition rfc3339_utc :: "int \<Rightarrow> string" where
  "rfc3339_utc t =
     (let seconds = system_seconds t;
          days = seconds div 86400;
          day_seconds = seconds mod 86400;
          (year, month, day) = civil_date days;
          hour = day_seconds div 3600;
          minute = day_seconds mod 3600 div 60;
          second = day_seconds mod 60
      in pad_int 4 year @ ''-'' @ pad_int 2 month @ ''-'' @ pad_int 2 day @ ''T'' @ pad_int 2 hour @ '':'' @
         pad_int 2 minute @ '':'' @ pad_int 2 second @ ''Z'')"

section \<open>A printed time is read back\<close>

lemma length_nat_to_string: "1 \<le> w \<Longrightarrow> n < 10 ^ w \<Longrightarrow> length (nat_to_string n) \<le> w"
proof (induction n arbitrary: w rule: nat_to_string.induct)
  case (1 n)
  show ?case
  proof (cases "n < 10")
    case False
    then have "1 < w" using 1(2,3) by (cases "w = 1") auto
    then obtain v where v: "w = Suc v" "1 \<le> v" by (cases w) auto
    then have "n div 10 < 10 ^ v" using 1(3) by (simp add: less_mult_imp_div_less mult.commute)
    then have "length (nat_to_string (n div 10)) \<le> v" using 1(1) False v(2) by simp
    then show ?thesis using False v(1) by (subst nat_to_string.simps) simp
  qed (use 1 in \<open>subst nat_to_string.simps, simp\<close>)
qed

lemma dec_val_zeros: "dec_val (replicate k (CHR ''0'') @ s) = dec_val s"
proof -
  have z: "digit_val (CHR ''0'') = 0" by code_simp
  have "foldl (\<lambda>acc c. 10 * acc + digit_val c) 0 (replicate k (CHR ''0'')) = 0" by (induction k) (simp_all add: z)
  then show ?thesis by (simp add: dec_val_def)
qed

lemma pad_nat_props:
  assumes "1 \<le> w" "n < 10 ^ w"
  shows "length (pad_nat w n) = w" "list_all is_ascii_digit (pad_nat w n)" "dec_val (pad_nat w n) = n"
proof -
  have "is_ascii_digit (CHR ''0'')" by code_simp
  then show "list_all is_ascii_digit (pad_nat w n)"
    using nat_to_string_digits [of n] by (auto simp: pad_nat_def list_all_iff set_replicate_conv_if)
  show "length (pad_nat w n) = w" using length_nat_to_string [OF assms] by (simp add: pad_nat_def)
  show "dec_val (pad_nat w n) = n" by (simp add: pad_nat_def dec_val_zeros)
qed

lemma parse_sint_digits:
  assumes "list_all is_ascii_digit s" "s \<noteq> []"
  shows "parse_sint lowest highest s = (if lowest \<le> int (dec_val s) \<and> int (dec_val s) \<le> highest then Some (int (dec_val s)) else None)"
    "parse_sint lowest highest (CHR ''-'' # s) =
      (if lowest \<le> - int (dec_val s) \<and> - int (dec_val s) \<le> highest then Some (- int (dec_val s)) else None)"
proof -
  obtain c cs where s: "s = c # cs" using assms(2) by (cases s) auto
  then have "is_ascii_digit c" using assms(1) by simp
  then have "c \<noteq> CHR ''-''" "c \<noteq> CHR ''+''" by (auto simp: is_ascii_digit_def)
  then show "parse_sint lowest highest s = (if lowest \<le> int (dec_val s) \<and> int (dec_val s) \<le> highest then Some (int (dec_val s)) else None)"
    using assms(1) s by (simp add: parse_sint_def Let_def)
  show "parse_sint lowest highest (CHR ''-'' # s) =
      (if lowest \<le> - int (dec_val s) \<and> - int (dec_val s) \<le> highest then Some (- int (dec_val s)) else None)"
    using assms by (simp add: parse_sint_def Let_def)
qed

lemma parse_two_digits:
  assumes "0 \<le> i" "i < 100"
  shows "parse_i64 (pad_int 2 i) = Some i" "parse_u32 (pad_int 2 i) = Some i" "length (pad_int 2 i) = 2"
    "list_all is_ascii_digit (pad_int 2 i)"
proof -
  have n: "nat i < 10 ^ 2" using assms by simp
  note p = pad_nat_props [of 2 "nat i", OF _ n]
  have eq: "pad_int 2 i = pad_nat 2 (nat i)" using assms(1) by (simp add: pad_int_def)
  have ne: "pad_nat 2 (nat i) \<noteq> []" using p(1) by auto
  show "length (pad_int 2 i) = 2" "list_all is_ascii_digit (pad_int 2 i)" using p by (simp_all add: eq)
  show "parse_i64 (pad_int 2 i) = Some i"
    unfolding eq parse_i64_def using parse_sint_digits(1) [OF p(2) ne] p(3) assms by simp
  have "hd (pad_nat 2 (nat i)) \<noteq> CHR ''+''"
    using p(2) ne by (cases "pad_nat 2 (nat i)") (auto simp: is_ascii_digit_def)
  then show "parse_u32 (pad_int 2 i) = Some i"
    unfolding eq parse_u32_def parse_uint_def using p(2,3) ne assms
    by (cases "pad_nat 2 (nat i)") simp_all
qed

lemma parse_year:
  assumes "- 999 \<le> i" "i \<le> 9999"
  shows "parse_i32 (pad_int 4 i) = Some i" "length (pad_int 4 i) = 4" "list_all (\<lambda>c. byte_of c < 128) (pad_int 4 i)"
proof -
  have ascii: "list_all (\<lambda>c. byte_of c < 128) s" if "list_all is_ascii_digit s" for s
    using that by (auto simp: list_all_iff is_ascii_digit_def)
  have "parse_i32 (pad_int 4 i) = Some i \<and> length (pad_int 4 i) = 4 \<and> list_all (\<lambda>c. byte_of c < 128) (pad_int 4 i)"
  proof (cases "i < 0")
    case True
    have n: "nat (- i) < 10 ^ 3" using assms(1) by simp
    note p = pad_nat_props [of 3 "nat (- i)", OF _ n]
    have ne: "pad_nat 3 (nat (- i)) \<noteq> []" using p(1) by auto
    show ?thesis
      unfolding parse_i32_def using True p parse_sint_digits(2) [OF p(2) ne] assms ascii [OF p(2)]
      by (simp add: pad_int_def)
  next
    case False
    have n: "nat i < 10 ^ 4" using assms(2) by simp
    note p = pad_nat_props [of 4 "nat i", OF _ n]
    have ne: "pad_nat 4 (nat i) \<noteq> []" using p(1) by auto
    show ?thesis
      unfolding parse_i32_def using False p parse_sint_digits(1) [OF p(2) ne] assms ascii [OF p(2)]
      by (simp add: pad_int_def)
  qed
  then show "parse_i32 (pad_int 4 i) = Some i" "length (pad_int 4 i) = 4" "list_all (\<lambda>c. byte_of c < 128) (pad_int 4 i)"
    by blast+
qed

lemma str_get_ascii:
  assumes "list_all (\<lambda>c. byte_of c < 128) s" "a \<le> b" "b \<le> length s"
  shows "str_get s a b = Some (take (b - a) (drop a s))"
proof -
  have "is_char_boundary s i" if "i \<le> length s" for i
  proof (cases "i = length s")
    case False
    then have "byte_of (s ! i) < 128" using assms(1) that by (simp add: list_all_length)
    then show ?thesis using that False by (simp add: is_char_boundary_def is_cont_def in_range_def)
  qed (simp add: is_char_boundary_def)
  then show ?thesis using assms(2,3) by (simp add: str_get_def)
qed

lemma system_seconds_floor: "system_seconds t = t div 10 ^ 9"
proof (cases "t \<ge> 0")
  case False
  define q r where "q = (- t) div 10 ^ 9" and "r = (- t) mod 10 ^ 9"
  then have t: "t = - (q * 10 ^ 9 + r)" "0 \<le> r" "r < 10 ^ 9" using div_mult_mod_eq [of "- t" "10 ^ 9"] by simp_all
  have "t div 10 ^ 9 = - q - (if r \<noteq> 0 then 1 else 0)"
    by (rule div_eqI) (use t in \<open>auto split: if_splits\<close>)
  then show ?thesis using False by (simp add: system_seconds_def q_def r_def)
qed (simp add: system_seconds_def)

text \<open>A text with the shape that \<open>rfc3339_utc\<close> prints.\<close>

lemma parse_rfc3339_fields:
  assumes "- 999 \<le> year" "year \<le> 9999" "valid_date year month day"
    and "0 \<le> hour" "hour \<le> 23" "0 \<le> minute" "minute \<le> 59" "0 \<le> second" "second \<le> 59"
  shows "parse_rfc3339 (pad_int 4 year @ ''-'' @ pad_int 2 month @ ''-'' @ pad_int 2 day @ ''T'' @ pad_int 2 hour @ '':'' @
      pad_int 2 minute @ '':'' @ pad_int 2 second @ ''Z'') =
    Ok \<lparr>rt_unix_seconds = days_from_civil year month day * 86400 + hour * 3600 + minute * 60 + second,
        rt_nanos = 0, rt_year = year\<rparr>"
    (is "parse_rfc3339 ?s = _")
proof -
  have d: "1 \<le> month" "month \<le> 12" "1 \<le> day" "day \<le> days_in_month year month"
    using assms(3) by (simp_all add: valid_date_def)
  then have "day \<le> 31" by (auto simp: days_in_month_def split: if_splits)
  note Y = parse_year [OF assms(1,2)]
  note two = parse_two_digits
  have M: "0 \<le> month" "month < 100" and D: "0 \<le> day" "day < 100" using d \<open>day \<le> 31\<close> by simp_all
  have H: "hour < 100" and N: "minute < 100" and S: "second < 100" using assms by simp_all
  note len = Y(2) two(3) [OF M] two(3) [OF D] two(3) [OF assms(4) H] two(3) [OF assms(6) N] two(3) [OF assms(8) S]
  have digits: "list_all (\<lambda>c. byte_of c < 128) s" if "list_all is_ascii_digit s" for s
    using that by (auto simp: list_all_iff is_ascii_digit_def)
  have ascii: "list_all (\<lambda>c. byte_of c < 128) ?s"
    using Y(3) digits [OF two(4) [OF M]] digits [OF two(4) [OF D]] digits [OF two(4) [OF assms(4) H]]
      digits [OF two(4) [OF assms(6) N]] digits [OF two(4) [OF assms(8) S]] by simp
  define s where "s = ?s"
  have total: "length s = 20" by (simp add: s_def len)
  have get: "str_get s a b = Some (take (b - a) (drop a s))" if "a \<le> b" "b \<le> 20" for a b
    using str_get_ascii [OF ascii] that total unfolding s_def by simp
  have "take 4 s = pad_int 4 year" "take 2 (drop 5 s) = pad_int 2 month" "take 2 (drop 8 s) = pad_int 2 day"
    "take 2 (drop 11 s) = pad_int 2 hour" "take 2 (drop 14 s) = pad_int 2 minute" "take 2 (drop 17 s) = pad_int 2 second"
    unfolding s_def by (simp_all add: len)
  then have "time_field s 0 4 parse_i32 ''invalid year'' = Ok year"
    "time_field s 5 7 parse_u32 ''invalid month'' = Ok month"
    "time_field s 8 10 parse_u32 ''invalid day'' = Ok day"
    "time_field s 11 13 parse_i64 ''invalid hour'' = Ok hour"
    "time_field s 14 16 parse_i64 ''invalid minute'' = Ok minute"
    "time_field s 17 19 parse_i64 ''invalid second'' = Ok second"
    using Y(1) two(2) [OF M] two(2) [OF D] two(1) [OF assms(4) H] two(1) [OF assms(6) N] two(1) [OF assms(8) S]
    unfolding time_field_def by (simp_all add: get)
  moreover have "byte_is s 4 CHR ''-''" "byte_is s 7 CHR ''-''" "byte_is s 10 CHR ''T''"
    "byte_is s 13 CHR '':''" "byte_is s 16 CHR '':''"
    unfolding byte_is_def s_def by (simp_all add: len nth_append)
  moreover have "drop 19 s = ''Z''" unfolding s_def by (simp add: len)
  ultimately have "parse_rfc3339 s =
    Ok \<lparr>rt_unix_seconds = days_from_civil year month day * 86400 + hour * 3600 + minute * 60 + second,
        rt_nanos = 0, rt_year = year\<rparr>"
    using d assms(4-9) unfolding parse_rfc3339_def total
    by (simp add: Let_def split_fraction_def parse_nanos_def parse_zone_def strip_prefix_def starts_with_iff)
  then show ?thesis by (simp add: s_def)
qed

text \<open>
  (C25) A time printed by the cluster service is read back by the reader of the API crate: for every
  system time between the years -999 and 9999, before or after the epoch, the text parses to the
  same number of whole seconds and to the year of the date. In between, every day number has exactly
  one valid date and every valid date one day number.
\<close>

theorem rfc3339_roundtrip:
  assumes "civil_date (system_seconds t div 86400) = (year, month, day)" "- 999 \<le> year" "year \<le> 9999"
  shows "parse_rfc3339 (rfc3339_utc t) =
      Ok \<lparr>rt_unix_seconds = t div 10 ^ 9, rt_nanos = 0, rt_year = year\<rparr> \<and>
    valid_date year month day \<and> days_from_civil year month day = system_seconds t div 86400"
proof -
  let ?s = "system_seconds t"
  let ?d = "?s mod 86400"
  note date = days_from_civil_date [OF assms(1)]
  have d: "0 \<le> ?d" "?d < 86400" by simp_all
  obtain h r where h: "?d div 3600 = h" "?d mod 3600 = r" "?d = h * 3600 + r" "0 \<le> r" "r < 3600"
    by (rule div_modE [of 3600 ?d]) auto
  obtain m s where m: "r div 60 = m" "r mod 60 = s" "r = m * 60 + s" "0 \<le> s" "s < 60"
    by (rule div_modE [of 60 r]) auto
  have s: "?d mod 60 = s" using h(2) m(2) mod_mod_cancel [of 60 3600 ?d] by simp
  have "0 \<le> h" "h \<le> 23" "0 \<le> m" "m \<le> 59" "s \<le> 59" using h(3-5) m(3-5) d by linarith+
  note fields = parse_rfc3339_fields [OF assms(2,3) date(1) this(1-4) m(4) this(5)]
  have "?d = h * 3600 + m * 60 + s" using h(3) m(3) by simp
  moreover have "?s div 86400 * 86400 + ?d = ?s" by simp
  ultimately have "?s div 86400 * 86400 + h * 3600 + m * 60 + s = t div 10 ^ 9"
    by (simp add: system_seconds_floor)
  then show ?thesis
    using date assms(1) fields by (simp add: rfc3339_utc_def Let_def h(1,2) m(1) s)
qed

theorem rfc3339_roundtrip_witness:
  "rfc3339_utc (- 1) = ''1969-12-31T23:59:59Z'' \<and>
   parse_rfc3339 (rfc3339_utc (- 1)) = Ok \<lparr>rt_unix_seconds = - 1, rt_nanos = 0, rt_year = 1969\<rparr>"
proof -
  have "civil_date (system_seconds (- 1) div 86400) = (1969, 12, 31)" by code_simp
  then have "parse_rfc3339 (rfc3339_utc (- 1)) = Ok \<lparr>rt_unix_seconds = (- 1) div 10 ^ 9, rt_nanos = 0, rt_year = 1969\<rparr>"
    using rfc3339_roundtrip by auto
  moreover have "rfc3339_utc (- 1) = ''1969-12-31T23:59:59Z''" by code_simp
  ultimately show ?thesis by simp
qed

end
