(* ===== verification/Go_Duration.thy ===== *)
theory Go_Duration
  imports Utf8 Prelude "HOL-Library.Signed_Division"
begin

text \<open>
  Durations in the syntax of Go and durations for people
  (\<open>ployz-pkg-api/src/container.rs\<close>). The checked 128-bit arithmetic of the source is the partial
  function \<open>checked_i128\<close>.
\<close>

section \<open>Reading a Go duration\<close>

definition checked_i128 :: "int \<Rightarrow> int option" where
  "checked_i128 i = (if - (2 ^ 127) \<le> i \<and> i < 2 ^ 127 then Some i else None)"

definition is_number_char :: "char \<Rightarrow> bool" where
  "is_number_char c \<longleftrightarrow> is_ascii_digit c \<or> c = CHR ''.''"

text \<open>The unit in front of the text, in nanoseconds, and the length of its name.\<close>

definition go_unit :: "string \<Rightarrow> (int \<times> nat) option" where
  "go_unit rest =
     (if starts_with rest ''ns'' then Some (1, 2)
      else if starts_with rest ''us'' then Some (1000, 2)
      else if starts_with rest [CHR 0xC2, CHR 0xB5, CHR ''s''] then Some (1000, 3)
      else if starts_with rest [CHR 0xCE, CHR 0xBC, CHR ''s''] then Some (1000, 3)
      else if starts_with rest ''ms'' then Some (1000000, 2)
      else if starts_with rest ''s'' then Some (1000000000, 1)
      else if starts_with rest ''m'' then Some (60000000000, 1)
      else if starts_with rest ''h'' then Some (3600000000000, 1)
      else None)"

fun add_fraction :: "int \<Rightarrow> int \<Rightarrow> string \<Rightarrow> int option" where
  "add_fraction acc decimal_place [] = Some acc"
| "add_fraction acc decimal_place (digit # digits) =
     (let decimal_place = decimal_place sdiv 10 in
      if decimal_place = 0 then Some acc
      else
        Option.bind (checked_i128 (int (digit_val digit) * decimal_place)) (\<lambda>part.
        Option.bind (checked_i128 (acc + part)) (\<lambda>acc.
        add_fraction acc decimal_place digits)))"

text \<open>One number with its unit: the new total and the rest of the text.\<close>

definition go_duration_step :: "string \<Rightarrow> int \<Rightarrow> (int \<times> string) option" where
  "go_duration_step rest acc =
     (let number = takeWhile is_number_char rest in
      if number = [] then None
      else
        (let (whole, fraction) = (case split_once CHR ''.'' number of Some parts \<Rightarrow> parts | None \<Rightarrow> (number, []))
         in if length (filter (\<lambda>c. c = CHR ''.'') number) > 1 \<or> whole = [] \<and> fraction = [] then None
            else
              Option.bind (if whole = [] then Some 0 else map_option int (parse_uint (2 ^ 127 - 1) whole)) (\<lambda>whole.
              if \<not> list_all is_ascii_digit fraction then None
              else
                (let rest = drop (length number) rest in
                 Option.bind (go_unit rest) (\<lambda>(unit, consumed).
                 Option.bind (checked_i128 (whole * unit)) (\<lambda>part.
                 Option.bind (checked_i128 (acc + part)) (\<lambda>acc.
                 Option.bind (add_fraction acc unit fraction) (\<lambda>acc.
                 Some (acc, drop consumed rest)))))))))"

lemma go_duration_step_shorter:
  "go_duration_step rest acc = Some (acc', rest') \<Longrightarrow> length rest' < length rest"
proof -
  assume step: "go_duration_step rest acc = Some (acc', rest')"
  let ?n = "takeWhile is_number_char rest"
  obtain k where "rest' = drop k (drop (length ?n) rest)" "?n \<noteq> []"
    using step unfolding go_duration_step_def Let_def
    by (auto simp: bind_eq_Some_conv split: if_splits prod.splits option.splits)
  moreover have "length ?n \<le> length rest" by (simp add: length_takeWhile_le)
  ultimately show "length rest' < length rest" by (cases rest) (auto split: if_splits)
qed

function go_duration_loop :: "string \<Rightarrow> int \<Rightarrow> int option" where
  "go_duration_loop rest acc =
     (if rest = [] then Some acc
      else (case go_duration_step rest acc of
              None \<Rightarrow> None
            | Some (acc', rest') \<Rightarrow> go_duration_loop rest' acc'))"
  by pat_completeness auto
termination
  by (relation "measure (\<lambda>(rest, acc). length rest)") (auto dest: go_duration_step_shorter)

declare go_duration_loop.simps [simp del]

definition parse_go_duration :: "string \<Rightarrow> int option" where
  "parse_go_duration value =
     (if value = ''0'' then Some 0
      else
        (let (sign, rest) = (case strip_prefix value ''-'' of
               Some rest \<Rightarrow> (- 1, rest)
             | None \<Rightarrow> (case strip_prefix value ''+'' of Some rest \<Rightarrow> (1, rest) | None \<Rightarrow> (1, value)))
         in if rest = [] then None
            else
              Option.bind (go_duration_loop rest 0) (\<lambda>acc.
              Option.bind (checked_i128 (acc * sign)) (\<lambda>n.
              if - (2 ^ 63) \<le> n \<and> n < 2 ^ 63 then Some n else None))))"

section \<open>Durations for people\<close>

text \<open>
  The hours are rounded to the nearest with floating-point numbers in the source. The quotient of a
  number of seconds below 2 ^ 43 by 3600 is at least 1/7200 away from the next half hour unless it
  is one exactly, so the rounding of the floating-point division cannot cross it; larger numbers
  take the last branch, which does not print the hours.
\<close>

definition human_duration :: "int \<Rightarrow> string" where
  "human_duration seconds =
     (if seconds < 1 then ''Less than a second''
      else if seconds = 1 then ''1 second''
      else if seconds < 60 then int_to_string seconds @ '' seconds''
      else if seconds sdiv 60 = 1 then ''About a minute''
      else if seconds sdiv 60 < 60 then int_to_string (seconds sdiv 60) @ '' minutes''
      else
        (let hours = (seconds + 1800) div 3600 in
         if hours = 1 then ''About an hour''
         else if hours < 48 then int_to_string hours @ '' hours''
         else if hours < 24 * 7 * 2 then int_to_string (hours sdiv 24) @ '' days''
         else if hours < 24 * 30 * 2 then int_to_string (hours sdiv 24 sdiv 7) @ '' weeks''
         else if hours < 24 * 365 * 2 then int_to_string (hours sdiv 24 sdiv 30) @ '' months''
         else int_to_string (seconds sdiv 3600 sdiv 24 sdiv 365) @ '' years''))"

section \<open>What a duration is read as\<close>

text \<open>The unit of microseconds has three names: two of them with a micro sign, a different character each.\<close>

datatype duration_unit = Nanosecond | Microsecond | MicroSign | GreekMu | Millisecond | Second | Minute | Hour

fun unit_text :: "duration_unit \<Rightarrow> string" where
  "unit_text Nanosecond = ''ns''"
| "unit_text Microsecond = ''us''"
| "unit_text MicroSign = [CHR 0xC2, CHR 0xB5, CHR ''s'']"
| "unit_text GreekMu = [CHR 0xCE, CHR 0xBC, CHR ''s'']"
| "unit_text Millisecond = ''ms''"
| "unit_text Second = ''s''"
| "unit_text Minute = ''m''"
| "unit_text Hour = ''h''"

fun unit_nanos :: "duration_unit \<Rightarrow> int" where
  "unit_nanos Nanosecond = 1"
| "unit_nanos Microsecond = 1000"
| "unit_nanos MicroSign = 1000"
| "unit_nanos GreekMu = 1000"
| "unit_nanos Millisecond = 1000000"
| "unit_nanos Second = 1000000000"
| "unit_nanos Minute = 60000000000"
| "unit_nanos Hour = 3600000000000"

text \<open>
  A term of a duration: the digits before the point, the digits after it when there is a point, and the
  unit. One of the two groups of digits is not empty.
\<close>

type_synonym duration_term = "string \<times> string option \<times> duration_unit"

fun fraction_digits :: "string option \<Rightarrow> string" where
  "fraction_digits None = []"
| "fraction_digits (Some ds) = ds"

fun term_text :: "duration_term \<Rightarrow> string" where
  "term_text (ws, f, u) = ws @ (case f of None \<Rightarrow> [] | Some ds \<Rightarrow> CHR ''.'' # ds) @ unit_text u"

fun term_ok :: "duration_term \<Rightarrow> bool" where
  "term_ok (ws, f, u) \<longleftrightarrow> list_all is_ascii_digit ws \<and> list_all is_ascii_digit (fraction_digits f) \<and> (ws \<noteq> [] \<or> fraction_digits f \<noteq> [])"

text \<open>
  The value: each digit after the point counts its place, in whole nanoseconds. Where the number of
  digits divides the unit, this is the value of the decimal fraction.
\<close>

definition fraction_nanos :: "int \<Rightarrow> string \<Rightarrow> int" where
  "fraction_nanos place ds = (\<Sum>i<length ds. int (digit_val (ds ! i)) * (place div 10 ^ Suc i))"

fun term_nanos :: "duration_term \<Rightarrow> int" where
  "term_nanos (ws, f, u) = int (dec_val ws) * unit_nanos u + fraction_nanos (unit_nanos u) (fraction_digits f)"

fun decimal_nanos :: "duration_term \<Rightarrow> int" where
  "decimal_nanos (ws, f, u) =
     int (dec_val ws) * unit_nanos u + int (dec_val (fraction_digits f)) * (unit_nanos u div 10 ^ length (fraction_digits f))"

fun term_even :: "duration_term \<Rightarrow> bool" where
  "term_even (ws, f, u) \<longleftrightarrow> 10 ^ length (fraction_digits f) dvd unit_nanos u"

lemma unit_nanos_pos: "1 \<le> unit_nanos u"
  by (cases u) simp_all

lemma dec_val_Cons: "dec_val (c # cs) = digit_val c * 10 ^ length cs + dec_val cs"
proof -
  have "foldl (\<lambda>acc c. 10 * acc + digit_val c) a cs = a * 10 ^ length cs + foldl (\<lambda>acc c. 10 * acc + digit_val c) 0 cs" for a
  proof (induction cs rule: rev_induct)
    case (snoc c cs)
    then show ?case by (simp add: algebra_simps)
  qed simp
  from this [of "digit_val c"] show ?thesis by (simp add: dec_val_def)
qed

lemma fraction_nanos_Nil [simp]: "fraction_nanos place [] = 0"
  by (simp add: fraction_nanos_def)

lemma fraction_nanos_Cons: "fraction_nanos place (d # ds) = int (digit_val d) * (place div 10) + fraction_nanos (place div 10) ds"
  by (simp add: fraction_nanos_def sum.lessThan_Suc_shift zdiv_zmult2_eq del: sum.lessThan_Suc)

lemma fraction_nanos_0 [simp]: "fraction_nanos 0 ds = 0"
  by (simp add: fraction_nanos_def)

lemma fraction_nanos_nonneg: "0 \<le> place \<Longrightarrow> 0 \<le> fraction_nanos place ds"
  by (auto simp: fraction_nanos_def intro!: sum_nonneg mult_nonneg_nonneg pos_imp_zdiv_nonneg_iff [THEN iffD2])

lemma fraction_nanos_decimal: "10 ^ length ds dvd place \<Longrightarrow> fraction_nanos place ds = int (dec_val ds) * (place div 10 ^ length ds)"
proof (induction ds arbitrary: place)
  case (Cons d ds)
  then obtain k where k: "place = 10 * (10 ^ length ds * k)" by (auto simp: dvd_def mult.assoc)
  then have "fraction_nanos (place div 10) ds = int (dec_val ds) * k" using Cons.IH [of "10 ^ length ds * k"] by simp
  with k show ?case by (simp add: fraction_nanos_Cons dec_val_Cons algebra_simps)
qed (simp add: dec_val_def)

lemma term_nanos_decimal: "term_even t \<Longrightarrow> term_nanos t = decimal_nanos t"
  by (cases t) (simp add: fraction_nanos_decimal)

lemma add_fraction_sum:
  assumes "0 \<le> acc" "acc < 2 ^ 127" "0 \<le> place"
  shows "add_fraction acc place ds =
    (let v = acc + fraction_nanos place ds in if v < 2 ^ 127 then Some v else None)"
  using assms
proof (induction ds arbitrary: acc place)
  case (Cons d ds)
  define p where "p = place div 10"
  have pos: "0 \<le> p" using Cons.prems(3) by (simp add: p_def pos_imp_zdiv_nonneg_iff)
  have div: "place sdiv 10 = p" using Cons.prems(3) by (simp add: signed_divide_int_def sgn_if abs_if p_def)
  define part where "part = int (digit_val d) * p"
  define more where "more = fraction_nanos p ds"
  have v: "fraction_nanos place (d # ds) = part + more" by (simp add: fraction_nanos_Cons part_def more_def p_def)
  have nonneg: "0 \<le> part" "0 \<le> more" using pos fraction_nanos_nonneg by (simp_all add: part_def more_def)
  show ?case
  proof (cases "p = 0")
    case True
    then show ?thesis using Cons.prems(2) by (simp add: div v part_def more_def)
  next
    case False
    then have step: "add_fraction acc place (d # ds) =
        Option.bind (checked_i128 part) (\<lambda>x. Option.bind (checked_i128 (acc + x)) (\<lambda>acc. add_fraction acc p ds))"
      by (simp add: div Let_def part_def)
    show ?thesis
    proof (cases "acc + part < 2 ^ 127")
      case True
      then have "add_fraction (acc + part) p ds = (let v = acc + part + more in if v < 2 ^ 127 then Some v else None)"
        unfolding more_def by (intro Cons.IH) (use Cons.prems(1) nonneg(1) pos in auto)
      moreover have "checked_i128 part = Some part" "checked_i128 (acc + part) = Some (acc + part)"
        using True Cons.prems(1) nonneg(1) by (simp_all add: checked_i128_def)
      ultimately show ?thesis unfolding step v by (simp add: Let_def add.assoc)
    next
      case False
      then have "checked_i128 part = None \<or> checked_i128 part = Some part \<and> checked_i128 (acc + part) = None"
        by (auto simp: checked_i128_def)
      then show ?thesis unfolding step v using False nonneg(2) by (auto simp: Let_def)
    qed
  qed
qed simp

lemma unit_text_head: "unit_text u \<noteq> []" "\<not> is_number_char (hd (unit_text u))"
  by (cases u; simp add: is_number_char_def is_ascii_digit_def)+

lemma go_unit_text:
  assumes "rest = [] \<or> is_number_char (hd rest)"
  shows "go_unit (unit_text u @ rest) = Some (unit_nanos u, length (unit_text u))"
proof -
  have "\<not> starts_with rest ''s''" using assms by (auto simp: starts_with_iff is_number_char_def is_ascii_digit_def)
  then show ?thesis by (cases u) (auto simp: go_unit_def starts_with_iff)
qed

lemma whole_digits:
  assumes "list_all is_ascii_digit ws"
  shows "(if ws = [] then Some 0 else map_option int (parse_uint (2 ^ 127 - 1) ws)) =
    (if int (dec_val ws) < 2 ^ 127 then Some (int (dec_val ws)) else None)"
proof (cases ws)
  case Nil
  then show ?thesis by (simp add: dec_val_def)
next
  case (Cons c cs)
  then have "c \<noteq> CHR ''+''" using assms by (auto simp: is_ascii_digit_def)
  then have "parse_uint (2 ^ 127 - 1) ws = (if dec_val ws \<le> 2 ^ 127 - 1 then Some (dec_val ws) else None)"
    using Cons assms by (simp add: parse_uint_def)
  moreover have "dec_val ws \<le> 2 ^ 127 - 1 \<longleftrightarrow> int (dec_val ws) < 2 ^ 127" by auto
  ultimately show ?thesis using Cons by simp
qed

text \<open>One step on the text of a term reads its number and unit.\<close>

lemma go_duration_step_text:
  assumes ok: "term_ok (ws, f, u)" and rest: "rest = [] \<or> is_number_char (hd rest)"
  shows "go_duration_step (term_text (ws, f, u) @ rest) acc =
    Option.bind (if ws = [] then Some 0 else map_option int (parse_uint (2 ^ 127 - 1) ws)) (\<lambda>whole.
    Option.bind (checked_i128 (whole * unit_nanos u)) (\<lambda>part.
    Option.bind (checked_i128 (acc + part)) (\<lambda>acc.
    Option.bind (add_fraction acc (unit_nanos u) (fraction_digits f)) (\<lambda>acc. Some (acc, rest)))))"
proof -
  define ds where "ds = fraction_digits f"
  have digits: "list_all is_ascii_digit ws" "list_all is_ascii_digit ds" "ws \<noteq> [] \<or> ds \<noteq> []" using ok by (simp_all add: ds_def)
  have nodot: "CHR ''.'' \<notin> set s" if "list_all is_ascii_digit s" for s
    using that by (auto simp: list_all_iff is_ascii_digit_def)
  have nofilter: "filter (\<lambda>c. c = CHR ''.'') s = []" if "list_all is_ascii_digit s" for s
    using nodot [OF that] by (auto simp: filter_empty_conv)
  define number where "number = ws @ (case f of None \<Rightarrow> [] | Some ds \<Rightarrow> CHR ''.'' # ds)"
  have chars: "\<forall>c\<in>set number. is_number_char c"
    using digits(1,2) by (cases f) (auto simp: number_def ds_def list_all_iff is_number_char_def)
  obtain c cs where u: "unit_text u = c # cs" "\<not> is_number_char c"
    using unit_text_head [of u] by (cases "unit_text u") auto
  have shape: "term_text (ws, f, u) @ rest = number @ unit_text u @ rest" by (simp add: number_def)
  have take: "takeWhile is_number_char (number @ unit_text u @ rest) = number"
    using chars u by (simp add: takeWhile_append2)
  have nonempty: "number \<noteq> []" using digits(3) by (cases f) (auto simp: number_def ds_def)
  have dots: "\<not> 1 < length (filter (\<lambda>c. c = CHR ''.'') number)"
    using nofilter [OF digits(1)] nofilter [OF digits(2)] by (cases f) (auto simp: number_def ds_def)
  have split: "(case split_once CHR ''.'' number of Some parts \<Rightarrow> parts | None \<Rightarrow> (number, [])) = (ws, ds)"
    using nodot [OF digits(1)] by (cases f) (simp_all add: number_def ds_def)
  show ?thesis
    unfolding shape go_duration_step_def Let_def take split ds_def [symmetric]
    using nonempty dots digits(2,3) go_unit_text [OF rest, of u] by auto
qed

lemma go_duration_step_term:
  assumes ok: "term_ok t" and rest: "rest = [] \<or> is_number_char (hd rest)" and acc: "0 \<le> acc" "acc < 2 ^ 127"
  shows "go_duration_step (term_text t @ rest) acc =
    (if acc + term_nanos t < 2 ^ 127 then Some (acc + term_nanos t, rest) else None)"
proof -
  obtain ws f u where t: "t = (ws, f, u)" by (cases t)
  have digits: "list_all is_ascii_digit ws" using ok t by simp
  define n where "n = int (dec_val ws)"
  define part where "part = n * unit_nanos u"
  define more where "more = fraction_nanos (unit_nanos u) (fraction_digits f)"
  have upos: "1 \<le> unit_nanos u" by (rule unit_nanos_pos)
  have nonneg: "0 \<le> part" "0 \<le> more" using upos fraction_nanos_nonneg by (simp_all add: part_def more_def n_def)
  have le: "n \<le> part" using mult_left_mono [OF upos, of n] by (simp add: part_def n_def)
  have nanos: "term_nanos t = part + more" by (simp add: t part_def more_def n_def)
  have step: "go_duration_step (term_text t @ rest) acc =
      (if n < 2 ^ 127 then
         Option.bind (checked_i128 part) (\<lambda>part.
         Option.bind (checked_i128 (acc + part)) (\<lambda>acc.
         Option.bind (add_fraction acc (unit_nanos u) (fraction_digits f)) (\<lambda>acc. Some (acc, rest))))
       else None)"
    unfolding t go_duration_step_text [OF ok [unfolded t] rest] whole_digits [OF digits] n_def [symmetric]
    by (cases "n < 2 ^ 127") (simp_all only: part_def bind.simps if_True if_False)
  show ?thesis
  proof (cases "acc + part < 2 ^ 127")
    case True
    then have "checked_i128 part = Some part" "checked_i128 (acc + part) = Some (acc + part)" "n < 2 ^ 127"
      using acc nonneg(1) le by (simp_all add: checked_i128_def)
    moreover have "add_fraction (acc + part) (unit_nanos u) (fraction_digits f) =
        (let v = acc + part + more in if v < 2 ^ 127 then Some v else None)"
      unfolding more_def using True acc nonneg(1) upos by (intro add_fraction_sum) simp_all
    ultimately show ?thesis unfolding step nanos by (simp only: Let_def add.assoc bind.simps if_True split: if_split) simp
  next
    case False
    then have "checked_i128 part = None \<or> checked_i128 part = Some part \<and> checked_i128 (acc + part) = None"
      by (auto simp: checked_i128_def)
    then have "go_duration_step (term_text t @ rest) acc = None" unfolding step by auto
    then show ?thesis unfolding nanos using False nonneg(2) by simp
  qed
qed

lemma term_text_head: "term_ok t \<Longrightarrow> term_text t \<noteq> [] \<and> is_number_char (hd (term_text t))"
proof (cases t)
  case (fields ws f u)
  moreover assume "term_ok t"
  ultimately show ?thesis by (cases ws; cases f) (auto simp: is_number_char_def)
qed

lemma terms_text_head: "list_all term_ok ts \<Longrightarrow> concat (map term_text ts) = [] \<or> is_number_char (hd (concat (map term_text ts)))"
  by (cases ts) (auto simp: term_text_head hd_append)

lemma term_nanos_nonneg: "0 \<le> term_nanos t"
proof (cases t)
  case (fields ws f u)
  then show ?thesis using unit_nanos_pos [of u] fraction_nanos_nonneg [of "unit_nanos u"] by simp
qed

lemma terms_nanos_nonneg: "0 \<le> sum_list (map term_nanos ts)"
  by (rule sum_list_nonneg) (use term_nanos_nonneg in auto)

lemma go_duration_loop_terms:
  assumes "list_all term_ok ts" "0 \<le> acc" "acc < 2 ^ 127"
  shows "go_duration_loop (concat (map term_text ts)) acc =
    (if acc + sum_list (map term_nanos ts) < 2 ^ 127 then Some (acc + sum_list (map term_nanos ts)) else None)"
  using assms
proof (induction ts arbitrary: acc)
  case Nil
  then show ?case by (simp add: go_duration_loop.simps)
next
  case (Cons t ts)
  have step: "go_duration_step (term_text t @ concat (map term_text ts)) acc =
      (if acc + term_nanos t < 2 ^ 127 then Some (acc + term_nanos t, concat (map term_text ts)) else None)"
    using Cons.prems terms_text_head by (intro go_duration_step_term) simp_all
  have later: "0 \<le> sum_list (map term_nanos ts)"
    by (rule terms_nanos_nonneg)
  have unfold: "go_duration_loop (concat (map term_text (t # ts))) acc =
      (if acc + term_nanos t < 2 ^ 127 then go_duration_loop (concat (map term_text ts)) (acc + term_nanos t) else None)"
    using Cons.prems(1) term_text_head [of t] by (subst go_duration_loop.simps) (simp add: step)
  show ?case
  proof (cases "acc + term_nanos t < 2 ^ 127")
    case True
    then have "go_duration_loop (concat (map term_text ts)) (acc + term_nanos t) =
        (if acc + term_nanos t + sum_list (map term_nanos ts) < 2 ^ 127
         then Some (acc + term_nanos t + sum_list (map term_nanos ts)) else None)"
      using Cons.prems term_nanos_nonneg [of t] by (intro Cons.IH) simp_all
    then show ?thesis using True unfolding unfold by (simp add: add.assoc)
  next
    case False
    then show ?thesis using later unfolding unfold by simp
  qed
qed

lemma terms_text_last: "ts \<noteq> [] \<Longrightarrow> last (concat (map term_text ts)) \<in> {CHR ''s'', CHR ''m'', CHR ''h''}"
proof (induction ts rule: rev_induct)
  case (snoc t ts)
  obtain ws f u where t: "t = (ws, f, u)" by (cases t)
  have "unit_text u \<noteq> []" "last (unit_text u) \<in> {CHR ''s'', CHR ''m'', CHR ''h''}" by (cases u; simp)+
  then show ?case by (simp add: t)
qed simp

fun duration_sign :: "bool option \<Rightarrow> string" where
  "duration_sign None = []"
| "duration_sign (Some False) = ''+''"
| "duration_sign (Some True) = ''-''"

text \<open>
  (C26) What a Go duration is read as. A duration is an optional sign and a sequence of terms: digits, a
  point and further digits, either group possibly missing, and a unit. It is read as the sum of its terms
  in nanoseconds when that sum fits 64 bits and refused when it does not: no intermediate overflow of the
  128-bit accumulator changes the verdict. A digit after the point counts its place in whole nanoseconds,
  the rest of the place being dropped. When each place of each term is a whole number of nanoseconds the
  value is that of the decimal numbers.
\<close>

theorem parse_go_duration_exact:
  assumes "ts \<noteq> []" "list_all term_ok ts"
  shows "parse_go_duration (duration_sign sign @ concat (map term_text ts)) =
      (let n = (if sign = Some True then - 1 else 1) * sum_list (map term_nanos ts)
       in if - (2 ^ 63) \<le> n \<and> n < 2 ^ 63 then Some n else None)
    \<and> (list_all term_even ts \<longrightarrow> sum_list (map term_nanos ts) = sum_list (map decimal_nanos ts))"
proof
  let ?s = "concat (map term_text ts)"
  define total_nanos where "total_nanos = sum_list (map term_nanos ts)"
  obtain t ts' where ts: "ts = t # ts'" using assms(1) by (cases ts) auto
  obtain c cs where s: "?s = c # cs" "is_number_char c"
    using terms_text_head [OF assms(2)] term_text_head [of t] assms(2) ts by (cases "term_text t") auto
  have nonneg: "0 \<le> total_nanos"
    unfolding total_nanos_def by (rule terms_nanos_nonneg)
  have loop: "go_duration_loop (c # cs) 0 = (if total_nanos < 2 ^ 127 then Some total_nanos else None)"
    using go_duration_loop_terms [OF assms(2), of 0] by (simp add: s(1) total_nanos_def)
  have nonzero: "c # cs \<noteq> ''0''" using terms_text_last [OF assms(1)] s(1) by auto
  have finish: "Option.bind (if total_nanos < 2 ^ 127 then Some total_nanos else None) (\<lambda>acc.
      Option.bind (checked_i128 (acc * e)) (\<lambda>n. if - (2 ^ 63) \<le> n \<and> n < 2 ^ 63 then Some n else None)) =
      (if - (2 ^ 63) \<le> e * total_nanos \<and> e * total_nanos < 2 ^ 63 then Some (e * total_nanos) else None)"
    if "e = 1 \<or> e = - 1" for e :: int
    using that nonneg by (auto simp: checked_i128_def)
  show "parse_go_duration (duration_sign sign @ ?s) =
      (let n = (if sign = Some True then - 1 else 1) * sum_list (map term_nanos ts)
       in if - (2 ^ 63) \<le> n \<and> n < 2 ^ 63 then Some n else None)"
    unfolding s(1) total_nanos_def [symmetric]
    using loop nonzero s(2) finish [of 1] finish [of "- 1"]
    by (cases sign rule: duration_sign.cases)
      (auto simp: parse_go_duration_def strip_prefix_def starts_with_iff is_number_char_def is_ascii_digit_def Let_def)
  show "list_all term_even ts \<longrightarrow> sum_list (map term_nanos ts) = sum_list (map decimal_nanos ts)"
    by (induction ts) (auto simp: term_nanos_decimal)
qed

text \<open>A fraction of a minute is cut off at the place that is less than a nanosecond.\<close>

theorem parse_go_duration_exact_witness:
  "parse_go_duration (duration_sign (Some True) @ concat (map term_text
     [(''1'', None, Hour), (''15'', Some ''5'', Minute), ([], Some ''003'', Second), (''0'', Some ''00000000019'', Minute)])) =
     Some (- 4530003000006)"
  using parse_go_duration_exact [of
    "[(''1'', None, Hour), (''15'', Some ''5'', Minute), ([], Some ''003'', Second), (''0'', Some ''00000000019'', Minute)]" "Some True"]
  by (simp add: dec_val_def digit_val_def is_ascii_digit_def fraction_nanos_Cons)

end
