(* ===== verification/Container_Spec.thy ===== *)
theory Container_Spec
  imports Rfc3339 Go_Duration Service_Spec
begin

text \<open>
  Containers as the API reports them: \<open>container.rs\<close> of the API crate and the \<open>Service\<close> of
  \<open>service.rs\<close> that groups them. The state of a container for people, its address in the cluster
  network, the ports of its service and the conflicts with other ports, the search for a container
  of a service and its endpoints. Reading the fields of a container from JSON is \<open>serde\<close>'s work: the
  decoder of the fields and the printer of a JSON value are parameters.
\<close>

section \<open>Data\<close>

definition DOCKER_NETWORK_NAME :: string where "DOCKER_NETWORK_NAME = ''uncloud''"
definition LABEL_SERVICE_ID :: string where "LABEL_SERVICE_ID = ''uncloud.service.id''"
definition LABEL_SERVICE_NAME :: string where "LABEL_SERVICE_NAME = ''uncloud.service.name''"
definition LABEL_SERVICE_PORTS :: string where "LABEL_SERVICE_PORTS = ''uncloud.service.ports''"
definition LABEL_HOOK :: string where "LABEL_HOOK = ''uncloud.service.hook''"

type_synonym extra = "(string, json) bmap"

record health_config =
  hc_test :: "string goslice"
  hc_interval :: int
  hc_timeout :: int
  hc_start_period :: int
  hc_start_interval :: int
  hc_retries :: int

record container_config =
  cc_hostname :: string
  cc_domainname :: string
  cc_user :: string
  cc_attach_stdin :: bool
  cc_attach_stdout :: bool
  cc_attach_stderr :: bool
  cc_tty :: bool
  cc_open_stdin :: bool
  cc_stdin_once :: bool
  cc_env :: "string goslice"
  cc_cmd :: "string goslice"
  cc_image :: string
  cc_working_dir :: string
  cc_entrypoint :: "string goslice"
  cc_labels :: "(string, string) gomap"
  cc_healthcheck :: "health_config option"
  cc_extra :: extra

record container_health =
  ch_status :: string
  ch_extra :: extra

record container_state =
  cs_status :: string
  cs_running :: bool
  cs_paused :: bool
  cs_restarting :: bool
  cs_oom_killed :: bool
  cs_dead :: bool
  cs_pid :: int
  cs_exit_code :: int
  cs_error :: string
  cs_started_at :: string
  cs_finished_at :: string
  cs_health :: "container_health option"
  cs_extra :: extra

record port_binding =
  pb_host_ip :: string
  pb_host_port :: string

record endpoint_settings =
  es_ip_address :: string
  es_extra :: extra

record network_settings =
  ns_ports :: "(string, port_binding goslice) gomap"
  ns_networks :: "(string, endpoint_settings) gomap"
  ns_extra :: extra

record docker_log_config =
  dl_kind :: string
  dl_config :: "(string, string) gomap"
  dl_extra :: extra

record docker_restart_policy =
  dr_name :: string
  dr_maximum_retry_count :: int
  dr_extra :: extra

record docker_mount =
  dm_kind :: string
  dm_source :: string
  dm_target :: string
  dm_read_only :: bool
  dm_consistency :: string
  dm_extra :: extra

record container_mount_point =
  mp_kind :: string
  mp_name :: string
  mp_source :: string
  mp_destination :: string
  mp_driver :: string
  mp_mode :: string
  mp_read_write :: bool
  mp_propagation :: string
  mp_extra :: extra

record docker_host_resources =
  hr_nano_cpus :: int
  hr_memory :: int
  hr_memory_reservation :: int
  hr_devices :: "json goslice"
  hr_device_requests :: "json goslice"
  hr_ulimits :: "json goslice"

record container_host_config =
  ho_binds :: "string goslice"
  ho_init :: "bool option"
  ho_log_config :: docker_log_config
  ho_mounts :: "docker_mount goslice"
  ho_pid_mode :: string
  ho_port_bindings :: "(string, port_binding goslice) gomap"
  ho_privileged :: bool
  ho_restart_policy :: docker_restart_policy
  ho_resources :: docker_host_resources
  ho_shm_size :: int
  ho_sysctls :: "(string, string) gomap"
  ho_cap_add :: "string goslice"
  ho_cap_drop :: "string goslice"
  ho_dns :: "string goslice"
  ho_dns_options :: "string goslice"
  ho_dns_search :: "string goslice"
  ho_extra :: extra

record container =
  co_id :: string
  co_created :: string
  co_path :: string
  co_args :: "string goslice"
  co_image :: string
  co_name :: string
  co_config :: "container_config option"
  co_state :: "container_state option"
  co_host_config :: "container_host_config option"
  co_mounts :: "container_mount_point goslice"
  co_network_settings :: "network_settings option"
  co_extra :: extra
  co_created_cache :: "rfc3339_time option"

record service_container =
  sc_container :: container
  sc_service_spec :: service_spec

record machine_service_container =
  mc_machine_id :: string
  mc_machine_name :: string
  mc_container :: service_container

record service =
  se_id :: string
  se_name :: string
  se_mode :: string
  se_containers :: "machine_service_container list"
  se_hook_containers :: "machine_service_container list"

section \<open>The state of a container\<close>

text \<open>The creation time is parsed once: the container is returned with its cache.\<close>

definition created_time :: "container \<Rightarrow> rfc3339_time option \<times> container" where
  "created_time c =
     (let c = (if co_created_cache c = None \<and> co_created c \<noteq> []
               then c\<lparr>co_created_cache := ok_opt (parse_rfc3339 (co_created c))\<rparr> else c)
      in (co_created_cache c, c))"

definition has_healthcheck :: "container \<Rightarrow> bool" where
  "has_healthcheck c =
     (case Option.bind (co_config c) cc_healthcheck of
        None \<Rightarrow> False
      | Some healthcheck \<Rightarrow> (case gs_values (hc_test healthcheck) of [] \<Rightarrow> True | v # _ \<Rightarrow> v \<noteq> ''NONE''))"

definition healthy :: "container \<Rightarrow> bool" where
  "healthy c =
     (case co_state c of
        None \<Rightarrow> False
      | Some state \<Rightarrow>
          cs_running state \<and> \<not> cs_paused state \<and> \<not> cs_restarting state \<and>
          (case cs_health state of None \<Rightarrow> True | Some health \<Rightarrow> ch_status health = ''healthy''))"

definition human_state :: "rfc3339_time \<Rightarrow> container \<Rightarrow> (api_error, string) result" where
  "human_state now c =
     rbind (ok_or (invalid_lit ''container state is missing'') (co_state c)) (\<lambda>state.
     rbind (map_err (\<lambda>e. invalid_lit (''parse started time: '' @ e)) (parse_rfc3339 (cs_started_at state))) (\<lambda>started.
     rbind (map_err (\<lambda>e. invalid_lit (''parse finished time: '' @ e)) (parse_rfc3339 (cs_finished_at state))) (\<lambda>finished.
     let up = ''Up '' @ human_duration (seconds_since now started);
         code = int_to_string (cs_exit_code state);
         ago = human_duration (seconds_since now finished) @ '' ago''
     in if cs_running state then
          (if cs_paused state then Ok (up @ '' (Paused)'')
           else if cs_restarting state then Ok (''Restarting ('' @ code @ '') '' @ ago)
           else
             (case cs_health state of
                Some health \<Rightarrow>
                  let status = (if ch_status health = ''starting'' then ''health: starting'' else ch_status health)
                  in Ok (up @ '' ('' @ status @ '')'')
              | None \<Rightarrow> Ok up))
        else if cs_status state = ''removing'' then Ok ''Removal In Progress''
        else if cs_dead state then Ok ''Dead''
        else if is_go_zero started then Ok ''Created''
        else if is_go_zero finished then Ok []
        else Ok (''Exited ('' @ code @ '') '' @ ago))))"

definition uncloud_network_ip :: "container \<Rightarrow> ip_addr option" where
  "uncloud_network_ip c =
     Option.bind (co_network_settings c) (\<lambda>settings.
     Option.bind (gm_get (ns_networks settings) DOCKER_NETWORK_NAME) (\<lambda>endpoint.
     parse_ip (es_ip_address endpoint)))"

section \<open>Reading a container\<close>

text \<open>
  \<open>decode\<close> is the derived decoder of the fields, \<open>print_json\<close> the text of a value; the keys of an
  object are tested before the fields are read.
\<close>

definition base_fields :: "string list" where
  "base_fields = [''Id'', ''ID'', ''Created'', ''Path'', ''Args'', ''State'', ''Image'', ''Name'', ''HostConfig'']"

definition bm_remove :: "'k \<Rightarrow> ('k, 'v) bmap \<Rightarrow> ('k, 'v) bmap" where
  "bm_remove k m = filter (\<lambda>e. fst e \<noteq> k) m"

definition container_deserialize ::
  "(json \<Rightarrow> string) \<Rightarrow> (json \<Rightarrow> (string, container) result) \<Rightarrow> json \<Rightarrow> (string, container) result" where
  "container_deserialize print_json decode value =
     (case value of
        JObject object \<Rightarrow>
          if \<not> list_ex (\<lambda>field. field \<in> set (map fst object)) base_fields
          then Err (''container data is missing mandatory base fields: '' @ print_json value)
          else
            rbind (decode value) (\<lambda>wire.
            Ok (wire\<lparr>co_name := dropWhile (\<lambda>c. c = CHR ''/'') (co_name wire),
                     co_extra := bm_remove ''ServiceSpec'' (co_extra wire),
                     co_created_cache := None\<rparr>))
      | _ \<Rightarrow> Err ''container must be a JSON object'')"

definition service_container_deserialize ::
  "(json \<Rightarrow> string) \<Rightarrow> (json \<Rightarrow> (string, container) result) \<Rightarrow> (json \<Rightarrow> (string, service_spec) result) \<Rightarrow>
   json \<Rightarrow> (string, service_container) result" where
  "service_container_deserialize print_json decode decode_spec value =
     rbind (container_deserialize print_json decode value) (\<lambda>container.
     rbind (case value of
              JObject object \<Rightarrow>
                (case map_of object ''ServiceSpec'' of Some spec \<Rightarrow> decode_spec spec | None \<Rightarrow> Ok service_spec_default)
            | _ \<Rightarrow> Ok service_spec_default) (\<lambda>service_spec.
     Ok \<lparr>sc_container = container, sc_service_spec = service_spec\<rparr>))"

section \<open>Containers of services\<close>

definition short_id :: "service_container \<Rightarrow> string" where
  "short_id c =
     (let i = (case split_once CHR '':'' (co_id (sc_container c)) of
                 Some (_, suffix) \<Rightarrow> suffix
               | None \<Rightarrow> co_id (sc_container c))
      in case str_get i 0 12 of Some s \<Rightarrow> s | None \<Rightarrow> i)"

definition container_label :: "service_container \<Rightarrow> string \<Rightarrow> string option" where
  "container_label c label = Option.bind (co_config (sc_container c)) (\<lambda>config. gm_get (cc_labels config) label)"

definition service_id :: "service_container \<Rightarrow> string" where
  "service_id c = (case container_label c LABEL_SERVICE_ID of Some s \<Rightarrow> s | None \<Rightarrow> [])"

definition service_name :: "service_container \<Rightarrow> string" where
  "service_name c = (case container_label c LABEL_SERVICE_NAME of Some s \<Rightarrow> s | None \<Rightarrow> [])"

definition service_mode :: "service_container \<Rightarrow> string" where
  "service_mode c = sv_mode (sc_service_spec c)"

definition is_hook :: "service_container \<Rightarrow> bool" where
  "is_hook c \<longleftrightarrow> container_label c LABEL_HOOK \<noteq> None"

definition service_ports :: "service_container \<Rightarrow> (api_error, port_spec list) result" where
  "service_ports c =
     (case container_label c LABEL_SERVICE_PORTS of
        None \<Rightarrow> Ok []
      | Some encoded \<Rightarrow>
          if trim encoded = [] then Ok []
          else collect_ok (map (\<lambda>port. parse_port_spec (trim port)) (split_on CHR '','' encoded)))"

definition ports_conflict :: "port_spec \<Rightarrow> port_spec \<Rightarrow> bool" where
  "ports_conflict service_port port \<longleftrightarrow>
     ps_mode service_port = PORT_MODE_HOST \<and>
     ps_published_port service_port = ps_published_port port \<and>
     ps_protocol service_port = ps_protocol port \<and>
     (ps_host_ip service_port = None \<or> ps_host_ip port = None \<or> ps_host_ip service_port = ps_host_ip port)"

definition conflicting_service_ports :: "service_container \<Rightarrow> port_spec list \<Rightarrow> (api_error, port_spec list) result" where
  "conflicting_service_ports c ports =
     rbind (map_err (in_context ''get service ports'') (service_ports c)) (\<lambda>service_ports.
     Ok (concat (map (\<lambda>port. map (\<lambda>_. port) (filter (\<lambda>service_port. ports_conflict service_port port) service_ports))
       (filter (\<lambda>port. ps_mode port = PORT_MODE_HOST) ports))))"

text \<open>The monitor period: the environment's, read at the first use, unless it does not parse.\<close>

definition initial_health_monitor_period :: "string option \<Rightarrow> int" where
  "initial_health_monitor_period variable =
     (case Option.bind variable parse_go_duration of Some n \<Rightarrow> n | None \<Rightarrow> 5000000000)"

section \<open>Services\<close>

fun find_container_loop ::
  "string \<Rightarrow> machine_service_container list \<Rightarrow> machine_service_container list \<Rightarrow>
   (machine_service_container list, machine_service_container) result" where
  "find_container_loop name_or_id prefixes [] = Err prefixes"
| "find_container_loop name_or_id prefixes (c # cs) =
     (let container = sc_container (mc_container c) in
      if co_id container = name_or_id \<or> co_name container = name_or_id then Ok c
      else find_container_loop name_or_id
        (if starts_with (co_id container) name_or_id then prefixes @ [c] else prefixes) cs)"

definition find_container :: "service \<Rightarrow> string \<Rightarrow> (api_error, machine_service_container) result" where
  "find_container s name_or_id =
     (case find_container_loop name_or_id [] (se_containers s @ se_hook_containers s) of
        Ok c \<Rightarrow> Ok c
      | Err [c] \<Rightarrow> Ok c
      | Err [] \<Rightarrow> Err NotFound
      | Err _ \<Rightarrow> Err (invalid_lit (''multiple containers found with ID prefix '' @ quoted name_or_id)))"

text \<open>The set of machines is collected in a hash set, whose order the parameter \<open>order\<close> gives.\<close>

definition machine_ids :: "(string list \<Rightarrow> string list) \<Rightarrow> service \<Rightarrow> string list" where
  "machine_ids order s = order (remdups (map mc_machine_id (se_containers s)))"

definition images :: "service \<Rightarrow> string list" where
  "images s =
     bs_of_list (map cc_image (List.map_filter (\<lambda>c. co_config (sc_container (mc_container c))) (se_containers s)))"

text \<open>The arrow is the character U+2192.\<close>

definition arrow :: string where
  "arrow = [CHR '' '', CHR 0xE2, CHR 0x86, CHR 0x92, CHR '' '', CHR '':'']"

definition port_endpoint :: "port_spec \<Rightarrow> string option" where
  "port_endpoint port =
     (if ps_hostname port = [] \<or> \<not> (ps_protocol port = PROTOCOL_HTTP \<or> ps_protocol port = PROTOCOL_HTTPS) then None
      else Some
        (ps_protocol port @ ''://'' @ ps_hostname port @
         (if ps_published_port port \<noteq> 0 \<and>
             \<not> (ps_protocol port = PROTOCOL_HTTP \<and> ps_published_port port = 80 \<or>
                ps_protocol port = PROTOCOL_HTTPS \<and> ps_published_port port = 443)
          then CHR '':'' # show_port (ps_published_port port) else []) @
         arrow @ show_port (ps_container_port port)))"

definition endpoints :: "service \<Rightarrow> string list" where
  "endpoints s =
     bs_of_list (concat (map (\<lambda>c.
       case service_ports (mc_container c) of
         Ok ports \<Rightarrow> List.map_filter port_endpoint ports
       | Err _ \<Rightarrow> []) (se_containers s)))"

text \<open>A service as it arrives: \<open>from_json\<close> reads the bytes of a container.\<close>

record pb_service_container =
  pc_machine_id :: string
  pc_container :: string

record pb_service =
  pv_id :: string
  pv_name :: string
  pv_mode :: string
  pv_containers :: "pb_service_container list"

definition service_from_proto ::
  "(string \<Rightarrow> (api_error, container) result) \<Rightarrow> pb_service \<Rightarrow> (api_error, service) result" where
  "service_from_proto from_json service =
     rbind (collect_ok (map (\<lambda>source.
       rbind (map_err (in_context ''unmarshal container'') (from_json (pc_container source))) (\<lambda>container.
       Ok \<lparr>mc_machine_id = pc_machine_id source, mc_machine_name = [],
           mc_container = \<lparr>sc_container = container, sc_service_spec = service_spec_default\<rparr>\<rparr>))
       (pv_containers service))) (\<lambda>containers.
     Ok \<lparr>se_id = pv_id service, se_name = pv_name service, se_mode = pv_mode service,
         se_containers = containers, se_hook_containers = []\<rparr>)"

section \<open>Searching a container\<close>

definition named_exactly :: "string \<Rightarrow> machine_service_container \<Rightarrow> bool" where
  "named_exactly n c \<longleftrightarrow> co_id (sc_container (mc_container c)) = n \<or> co_name (sc_container (mc_container c)) = n"

definition id_begins :: "string \<Rightarrow> machine_service_container \<Rightarrow> bool" where
  "id_begins n c \<longleftrightarrow> starts_with (co_id (sc_container (mc_container c))) n"

lemma find_container_loop_spec:
  "find_container_loop n prefixes cs =
     (case List.find (named_exactly n) cs of
        Some c \<Rightarrow> Ok c
      | None \<Rightarrow> Err (prefixes @ filter (id_begins n) cs))"
  by (induction cs arbitrary: prefixes) (auto simp: named_exactly_def id_begins_def Let_def cong: option.case_cong)

text \<open>
  (C27) A container of a service is found by its full identifier or its name wherever it stands in
  the lists, regular containers first, even when the text is also a prefix of the identifiers of
  others. Only when no container has that identifier or name do prefixes count: one container whose
  identifier begins with the text is returned, none gives \<open>NotFound\<close>, and several are refused with
  an error that quotes the text.
\<close>

theorem find_container_prefers_exact:
  "find_container s n =
     (let all = se_containers s @ se_hook_containers s in
      case List.find (named_exactly n) all of
        Some c \<Rightarrow> Ok c
      | None \<Rightarrow>
          let candidates = filter (id_begins n) all in
          if length candidates = 1 then Ok (hd candidates)
          else if candidates = [] then Err NotFound
          else Err (invalid_lit (''multiple containers found with ID prefix '' @ quoted n)))"
proof -
  let ?all = "se_containers s @ se_hook_containers s"
  show ?thesis
    unfolding find_container_def find_container_loop_spec Let_def append_Nil
    by (cases "List.find (named_exactly n) ?all"; cases "filter (id_begins n) ?all"; cases "tl (filter (id_begins n) ?all)")
      (simp_all del: filter_append)
qed

section \<open>Conflicts between published ports\<close>

text \<open>The sockets a port occupies on its host: every address unless it names one.\<close>

type_synonym socket = "scoped_ip_addr \<times> string \<times> 16 word"

definition occupies :: "port_spec \<Rightarrow> socket \<Rightarrow> bool" where
  "occupies p = (\<lambda>(address, protocol, port).
     ps_mode p = PORT_MODE_HOST \<and> ps_protocol p = protocol \<and> ps_published_port p = port \<and>
     (ps_host_ip p = None \<or> ps_host_ip p = Some address))"

lemma ports_conflict_socket:
  assumes "ps_mode port = PORT_MODE_HOST"
  shows "ports_conflict service_port port \<longleftrightarrow> (\<exists>socket. occupies service_port socket \<and> occupies port socket)"
  using assms
  by (cases "ps_host_ip service_port"; cases "ps_host_ip port") (auto simp: ports_conflict_def occupies_def)

text \<open>
  (C28) The ports reported as conflicting with a container are exactly the ports of the list that
  occupy a socket (address, protocol, port) that a published port of the container's service
  occupies as well, where a port without a host address occupies its port on every address. In
  particular nothing is reported exactly when the two can run on one machine. The ports compared
  against are all valid, since they come from the parser.
\<close>

theorem conflicting_service_ports_exact:
  assumes "service_ports c = Ok ps"
  shows "\<exists>conflicts. conflicting_service_ports c ports = Ok conflicts \<and>
    set conflicts = {p. p \<in> set ports \<and> (\<exists>socket q. q \<in> set ps \<and> occupies q socket \<and> occupies p socket)} \<and>
    list_all (\<lambda>q. port_validate q = Ok ()) ps"
proof -
  let ?conflicts = "concat (map (\<lambda>port. map (\<lambda>_. port) (filter (\<lambda>q. ports_conflict q port) ps))
       (filter (\<lambda>port. ps_mode port = PORT_MODE_HOST) ports))"
  have "port_validate q = Ok ()" if "q \<in> set ps" for q
  proof -
    from assms that obtain parts where "map (\<lambda>port. parse_port_spec (trim port)) parts = map Ok ps"
      by (auto simp: service_ports_def collect_ok_Ok split: option.splits if_splits)
    then have "Ok q \<in> (\<lambda>port. parse_port_spec (trim port)) ` set parts" using that by (metis image_eqI list.set_map)
    then show ?thesis using parse_port_spec_valid by (metis imageE)
  qed
  moreover have "p \<in> set ?conflicts \<longleftrightarrow> p \<in> set ports \<and> (\<exists>socket q. q \<in> set ps \<and> occupies q socket \<and> occupies p socket)" for p
  proof -
    have "p \<in> set ?conflicts \<longleftrightarrow> p \<in> set ports \<and> ps_mode p = PORT_MODE_HOST \<and> (\<exists>q. q \<in> set ps \<and> ports_conflict q p)"
      by auto
    moreover have "ps_mode p = PORT_MODE_HOST" if "occupies p socket" for socket
      using that by (cases socket) (simp add: occupies_def)
    ultimately show ?thesis using ports_conflict_socket [of p] by blast
  qed
  ultimately have "set ?conflicts = {p. p \<in> set ports \<and> (\<exists>socket q. q \<in> set ps \<and> occupies q socket \<and> occupies p socket)} \<and>
      list_all (\<lambda>q. port_validate q = Ok ()) ps"
    unfolding list_all_iff by blast
  moreover have "conflicting_service_ports c ports = Ok ?conflicts"
    by (simp add: conflicting_service_ports_def assms)
  ultimately show ?thesis by blast
qed

definition demo_container :: "string \<Rightarrow> service_container" where
  "demo_container ports =
     \<lparr>sc_container =
        \<lparr>co_id = ''c1'', co_created = [], co_path = [], co_args = gs_default, co_image = [], co_name = ''web-1'',
         co_config = Some
           \<lparr>cc_hostname = [], cc_domainname = [], cc_user = [], cc_attach_stdin = False, cc_attach_stdout = False,
            cc_attach_stderr = False, cc_tty = False, cc_open_stdin = False, cc_stdin_once = False,
            cc_env = gs_default, cc_cmd = gs_default, cc_image = ''web'', cc_working_dir = [],
            cc_entrypoint = gs_default, cc_labels = gm_from [(LABEL_SERVICE_PORTS, ports)],
            cc_healthcheck = None, cc_extra = []\<rparr>,
         co_state = None, co_host_config = None, co_mounts = gs_default, co_network_settings = None,
         co_extra = [], co_created_cache = None\<rparr>,
      sc_service_spec = service_spec_default\<rparr>"

theorem conflicting_service_ports_exact_witness:
  "\<exists>ps conflicts. service_ports (demo_container ''8:9/tcp@host'') = Ok ps \<and>
    conflicting_service_ports (demo_container ''8:9/tcp@host'') ps = Ok conflicts \<and> set conflicts = set ps \<and> ps \<noteq> []"
proof -
  let ?p = "\<lparr>ps_hostname = [], ps_host_ip = None, ps_host_prefix = None, ps_published_port = 8,
         ps_container_port = 9, ps_protocol = ''tcp'', ps_mode = ''host''\<rparr> :: port_spec"
  have "port_format ?p = Ok ''8:9/tcp@host''" by code_simp
  moreover have "port_plain ?p" by (simp add: port_plain_def plain_text_def)
  ultimately have parsed: "parse_port_spec ''8:9/tcp@host'' = Ok ?p" by (rule parse_format)
  have "trim ''8:9/tcp@host'' = ''8:9/tcp@host''" "split_on CHR '','' ''8:9/tcp@host'' = [''8:9/tcp@host'']" by code_simp+
  with parsed have ports: "service_ports (demo_container ''8:9/tcp@host'') = Ok [?p]"
    by (simp add: service_ports_def container_label_def demo_container_def gm_get_def bm_get_def gm_from_def)
  obtain conflicts where found: "conflicting_service_ports (demo_container ''8:9/tcp@host'') [?p] = Ok conflicts"
      "set conflicts = {p. p \<in> set [?p] \<and> (\<exists>socket q. q \<in> set [?p] \<and> occupies q socket \<and> occupies p socket)}"
    using conflicting_service_ports_exact [OF ports, of "[?p]"] by blast
  have "occupies ?p (\<lparr>si_address = V4 0, si_zone = []\<rparr>, ''tcp'', 8)" by (simp add: occupies_def PORT_MODE_HOST_def)
  then have "?p \<in> set conflicts" unfolding found(2) mem_Collect_eq by (meson list.set_intros(1))
  moreover have "set conflicts \<subseteq> {?p}" unfolding found(2) by (simp add: subset_eq)
  ultimately have "set conflicts = set [?p]" by (simp add: set_eq_subset)
  with ports found(1) show ?thesis by (intro exI [of _ "[?p]"] exI [of _ conflicts]) simp
qed

end
