(* ===== verification/Ipam.thy ===== *)
theory Ipam
  imports Ip_Text
begin

text \<open>
  The subnet allocator of the cluster (\<open>ployz-internal-machine-cluster/src/ipam.rs\<close>): prefixes that
  keep their input address, masks computed in \<open>u128\<close>, and the first-fit allocator \<open>Ipam\<close>. A prefix
  length is a natural number whose bound (a \<open>u8\<close> at most the address width) is the type invariant
  \<open>prefix_ok\<close>, established by \<open>IpPrefix::new\<close>. The \<open>expect\<close> inside \<open>from_u128\<close> is the predicate
  \<open>from_u128_panics\<close>, which no call site of the allocator satisfies.
\<close>

section \<open>Prefixes\<close>

record ip_prefix =
  pfx_address :: ip_addr
  pfx_bits :: nat

datatype ip_prefix_error =
  InvalidNetwork
| InvalidSubnetSize
| SubnetNotInNetwork
| SubnetOverlap
| NoAvailableSubnet
| IpamInvalidPrefix
| AllocatedSubnet ip_prefix ip_prefix_error

definition bit_len :: "ip_addr \<Rightarrow> nat" where
  "bit_len a = (case a of V4 _ \<Rightarrow> 32 | V6 _ \<Rightarrow> 128)"

definition same_family :: "ip_addr \<Rightarrow> ip_addr \<Rightarrow> bool" where
  "same_family a b =
     (case (a, b) of (V4 _, V4 _) \<Rightarrow> True | (V6 _, V6 _) \<Rightarrow> True | _ \<Rightarrow> False)"

definition address_mask :: "ip_addr \<Rightarrow> 128 word" where
  "address_mask a = (case a of V4 _ \<Rightarrow> ucast (-1 :: 32 word) | V6 _ \<Rightarrow> - 1)"

definition prefix_mask :: "ip_addr \<Rightarrow> nat \<Rightarrow> 128 word" where
  "prefix_mask a bits =
     (case a of
        V4 _ \<Rightarrow> if bits = 0 then 0 else ucast (push_bit (32 - bits) (-1 :: 32 word))
      | V6 _ \<Rightarrow> if bits = 0 then 0 else push_bit (128 - bits) (- 1))"

definition to_u128 :: "ip_addr \<Rightarrow> 128 word" where
  "to_u128 a = (case a of V4 w \<Rightarrow> ucast w | V6 w \<Rightarrow> w)"

definition from_u128 :: "ip_addr \<Rightarrow> 128 word \<Rightarrow> ip_addr" where
  "from_u128 family v = (case family of V4 _ \<Rightarrow> V4 (ucast v) | V6 _ \<Rightarrow> V6 v)"

definition from_u128_panics :: "ip_addr \<Rightarrow> 128 word \<Rightarrow> bool" where
  "from_u128_panics family v \<longleftrightarrow> is_ipv4 family \<and> ucast (-1 :: 32 word) < v"

definition network_value :: "ip_prefix \<Rightarrow> 128 word" where
  "network_value p = to_u128 (pfx_address p) AND prefix_mask (pfx_address p) (pfx_bits p)"

definition ip_prefix_make :: "ip_addr \<Rightarrow> nat \<Rightarrow> (ip_prefix_error, ip_prefix) result" where
  "ip_prefix_make address bits =
     (if bit_len address < bits then Err IpamInvalidPrefix
      else Ok \<lparr>pfx_address = address, pfx_bits = bits\<rparr>)"

text \<open>\<open>Display\<close> and \<open>FromStr\<close> of a prefix.\<close>

definition ip_prefix_display :: "ip_prefix \<Rightarrow> string" where
  "ip_prefix_display p = show_ip (pfx_address p) @ ''/'' @ nat_to_string (pfx_bits p)"

definition ip_prefix_from_str :: "string \<Rightarrow> (ip_prefix_error, ip_prefix) result" where
  "ip_prefix_from_str value =
     rbind (ok_or IpamInvalidPrefix (rsplit_once CHR ''/'' value)) (\<lambda>(address, bits).
     if bits = [] \<or> \<not> list_all is_ascii_digit bits \<or> (1 < length bits \<and> starts_with bits ''0'')
     then Err IpamInvalidPrefix
     else
       rbind (ok_or IpamInvalidPrefix (parse_ip address)) (\<lambda>address.
       rbind (ok_or IpamInvalidPrefix (parse_uint 255 bits)) (\<lambda>bits.
       ip_prefix_make address bits)))"

fun ip_prefix_error_display :: "ip_prefix_error \<Rightarrow> string" where
  "ip_prefix_error_display InvalidNetwork = ''invalid network''"
| "ip_prefix_error_display InvalidSubnetSize = ''invalid subnet size''"
| "ip_prefix_error_display SubnetNotInNetwork = ''subnet not in network''"
| "ip_prefix_error_display SubnetOverlap = ''subnet overlaps with allocated subnets''"
| "ip_prefix_error_display NoAvailableSubnet = ''no available subnet''"
| "ip_prefix_error_display IpamInvalidPrefix = ''invalid prefix''"
| "ip_prefix_error_display (AllocatedSubnet subnet source) =
     ''allocate subnet '' @ ip_prefix_display subnet @ '': '' @ ip_prefix_error_display source"

definition masked :: "ip_prefix \<Rightarrow> ip_prefix" where
  "masked p =
     \<lparr>pfx_address = from_u128 (pfx_address p) (network_value p), pfx_bits = pfx_bits p\<rparr>"

definition contains :: "ip_prefix \<Rightarrow> ip_addr \<Rightarrow> bool" where
  "contains p address \<longleftrightarrow>
     same_family (pfx_address p) address \<and>
     to_u128 address AND prefix_mask (pfx_address p) (pfx_bits p) = network_value p"

definition last_address :: "ip_prefix \<Rightarrow> ip_addr" where
  "last_address p =
     (let host_mask = NOT (prefix_mask (pfx_address p) (pfx_bits p)) AND address_mask (pfx_address p)
      in from_u128 (pfx_address p) (network_value p OR host_mask))"

definition overlaps :: "ip_prefix \<Rightarrow> ip_prefix \<Rightarrow> bool" where
  "overlaps p q \<longleftrightarrow>
     same_family (pfx_address p) (pfx_address q) \<and> contains p (pfx_address (masked q)) \<or>
     same_family (pfx_address p) (pfx_address q) \<and> contains q (pfx_address (masked p))"

definition DEFAULT_SUBNET_BITS :: nat where
  "DEFAULT_SUBNET_BITS = 24"

definition DEFAULT_NETWORK :: ip_prefix where
  "DEFAULT_NETWORK = \<lparr>pfx_address = V4 (be_word [10, 210, 0, 0]), pfx_bits = 16\<rparr>"

section \<open>The allocator\<close>

record ipam =
  ipam_network :: ip_prefix
  ipam_allocated :: "ip_prefix list"

definition ipam_new :: "ip_prefix \<Rightarrow> (ip_prefix_error, ipam) result" where
  "ipam_new network =
     (if pfx_bits network = 0 then Err InvalidNetwork
      else Ok \<lparr>ipam_network = masked network, ipam_allocated = []\<rparr>)"

definition allocate_subnet :: "ipam \<Rightarrow> ip_prefix \<Rightarrow> (ip_prefix_error, ipam) result" where
  "allocate_subnet s subnet =
     (if \<not> contains (ipam_network s) (pfx_address subnet) \<or>
         \<not> contains (ipam_network s) (last_address subnet) then Err SubnetNotInNetwork
      else if list_ex (\<lambda>used. overlaps used subnet) (ipam_allocated s) then Err SubnetOverlap
      else Ok (s\<lparr>ipam_allocated := ipam_allocated s @ [subnet]\<rparr>))"

fun allocate_all :: "ipam \<Rightarrow> ip_prefix list \<Rightarrow> (ip_prefix_error, ipam) result" where
  "allocate_all s [] = Ok s"
| "allocate_all s (subnet # subnets) =
     rbind (map_err (AllocatedSubnet subnet) (allocate_subnet s subnet)) (\<lambda>s'.
     allocate_all s' subnets)"

definition with_allocated ::
  "ip_prefix \<Rightarrow> ip_prefix list \<Rightarrow> (ip_prefix_error, ipam) result" where
  "with_allocated network subnets = rbind (ipam_new network) (\<lambda>s. allocate_all s subnets)"

text \<open>\<open>u128::checked_add\<close>.\<close>

definition checked_add_u128 :: "128 word \<Rightarrow> 128 word \<Rightarrow> 128 word option" where
  "checked_add_u128 a b = (if b \<le> - 1 - a then Some (a + b) else None)"

lemma checked_add_u128_nat:
  "checked_add_u128 a b = (if unat a + unat b < 2 ^ 128 then Some (a + b) else None)"
proof -
  have "unat (- 1 - a) = unat (- 1 :: 128 word) - unat a" by (rule unat_sub) simp
  moreover have "unat (- 1 :: 128 word) = 2 ^ 128 - 1"
    by (simp only: unsigned_minus_1_eq_mask mask_eq_exp_minus_1) simp
  moreover have "unat a < 2 ^ 128" using unat_less [of a] by simp
  ultimately show ?thesis unfolding checked_add_u128_def word_le_nat_alt by simp linarith
qed

text \<open>The address the search continues at: \<open>None\<close> is the \<open>break\<close> of the loop.\<close>

definition next_address :: "ip_addr \<Rightarrow> nat \<Rightarrow> ip_addr option" where
  "next_address address bits =
     (case checked_add_u128
             (to_u128 (last_address \<lparr>pfx_address = address, pfx_bits = bits\<rparr>)) 1 of
        Some n \<Rightarrow> if n \<le> address_mask address then Some (from_u128 address n) else None
      | None \<Rightarrow> None)"

section \<open>Masks as arithmetic\<close>

abbreviation host_bits :: "ip_prefix \<Rightarrow> nat" where
  "host_bits p \<equiv> bit_len (pfx_address p) - pfx_bits p"

definition prefix_ok :: "ip_prefix \<Rightarrow> bool" where
  "prefix_ok p \<longleftrightarrow> pfx_bits p \<le> bit_len (pfx_address p)"

text \<open>The value of an address, and the ends of the interval of addresses of a prefix.\<close>

definition addr_val :: "ip_addr \<Rightarrow> nat" where
  "addr_val a = unat (to_u128 a)"

definition pfx_lo :: "ip_prefix \<Rightarrow> nat" where
  "pfx_lo p = addr_val (pfx_address p) div 2 ^ host_bits p * 2 ^ host_bits p"

definition pfx_hi :: "ip_prefix \<Rightarrow> nat" where
  "pfx_hi p = pfx_lo p + (2 ^ host_bits p - 1)"

lemma bit_len_le: "bit_len a \<le> 128"
  by (cases a) (simp_all add: bit_len_def)

lemma same_family_iff: "same_family a b \<longleftrightarrow> is_ipv4 a = is_ipv4 b"
  by (cases a; cases b) (simp_all add: same_family_def)

lemma bit_len_same: "same_family a b \<Longrightarrow> bit_len a = bit_len b"
  by (cases a; cases b) (simp_all add: same_family_def bit_len_def)

lemma address_mask_mask: "address_mask a = mask (bit_len a)"
  by (cases a) (auto simp: address_mask_def bit_len_def intro!: bit_word_eqI simp: bit_simps)

lemma prefix_mask_mask:
  "bits \<le> bit_len a \<Longrightarrow> prefix_mask a bits = mask (bit_len a) AND NOT (mask (bit_len a - bits))"
  by (cases a)
    (auto simp: prefix_mask_def bit_len_def intro!: bit_word_eqI simp: bit_simps)

lemma to_u128_mask: "to_u128 a AND mask (bit_len a) = to_u128 a"
proof (cases a)
  case (V4 w)
  have "n < 32" if "bit w n" for n using bit_imp_le_length [OF that] by simp
  with V4 show ?thesis
    by (auto simp: to_u128_def bit_len_def intro!: bit_word_eqI simp: bit_simps)
qed (auto simp: to_u128_def bit_len_def intro!: bit_word_eqI simp: bit_simps)

lemma unat_v4 [simp]: "unat (ucast (w :: 32 word) :: 128 word) = unat w"
proof -
  have "unat w < 2 ^ 32" using unat_less [of w] by simp
  then show ?thesis by (simp add: unsigned_ucast_eq take_bit_nat_eq_self)
qed

lemma addr_val_less: "addr_val a < 2 ^ bit_len a"
proof (cases a)
  case (V4 w)
  then show ?thesis
    using unat_less [of w] by (simp add: addr_val_def to_u128_def bit_len_def)
next
  case (V6 w)
  then show ?thesis
    using unat_less [of w] by (simp add: addr_val_def to_u128_def bit_len_def)
qed

lemma and_not_mask: "x AND NOT (mask n) = push_bit n (drop_bit n x)" for x :: "'a::len word"
  by (rule bit_word_eqI) (auto simp: bit_simps)

lemma unat_and_not_mask: "unat (x AND NOT (mask n)) = unat x div 2 ^ n * 2 ^ n" for x :: "'a::len word"
proof -
  have "unat x div 2 ^ n * 2 ^ n \<le> unat x" by (rule div_times_less_eq_dividend)
  also have "\<dots> < 2 ^ LENGTH('a)" by (rule unsigned_less)
  finally have "unat x div 2 ^ n * 2 ^ n < 2 ^ LENGTH('a)" .
  then show ?thesis
    by (simp only: and_not_mask unsigned_push_bit_eq unsigned_drop_bit_eq)
      (simp add: push_bit_eq_mult drop_bit_eq_div take_bit_nat_eq_self)
qed

lemma and_prefix_mask:
  assumes "bits \<le> bit_len a" "same_family a b"
  shows "to_u128 b AND prefix_mask a bits = to_u128 b AND NOT (mask (bit_len a - bits))"
proof -
  have "to_u128 b AND prefix_mask a bits = (to_u128 b AND mask (bit_len b)) AND NOT (mask (bit_len a - bits))"
    using assms by (simp add: prefix_mask_mask bit_len_same and.assoc)
  then show ?thesis by (simp add: to_u128_mask)
qed

lemma unat_network_value: "prefix_ok p \<Longrightarrow> unat (network_value p) = pfx_lo p"
  by (simp add: network_value_def prefix_ok_def and_prefix_mask same_family_iff
      unat_and_not_mask pfx_lo_def addr_val_def)

lemma pfx_lo_le: "pfx_lo p \<le> addr_val (pfx_address p)"
  by (simp add: pfx_lo_def div_times_less_eq_dividend)

lemma le_pfx_hi: "addr_val (pfx_address p) \<le> pfx_hi p"
proof -
  let ?h = "2 ^ host_bits p :: nat"
  have "addr_val (pfx_address p) = pfx_lo p + addr_val (pfx_address p) mod ?h"
    by (simp only: pfx_lo_def div_mult_mod_eq)
  moreover have "addr_val (pfx_address p) mod ?h < ?h" by simp
  ultimately show ?thesis unfolding pfx_hi_def by linarith
qed

lemma pfx_hi_less: "prefix_ok p \<Longrightarrow> pfx_hi p < 2 ^ bit_len (pfx_address p)"
proof -
  assume "prefix_ok p"
  then have split: "(2::nat) ^ bit_len (pfx_address p) = 2 ^ pfx_bits p * 2 ^ host_bits p"
    by (simp add: prefix_ok_def flip: power_add)
  let ?q = "addr_val (pfx_address p) div 2 ^ host_bits p"
  have "?q < 2 ^ pfx_bits p"
    using addr_val_less [of "pfx_address p"] by (simp add: split less_mult_imp_div_less)
  then have "(?q + 1) * 2 ^ host_bits p \<le> 2 ^ bit_len (pfx_address p)"
    by (simp only: split mult_le_mono1 Suc_eq_plus1 [symmetric] Suc_leI)
  then have "pfx_lo p + 2 ^ host_bits p \<le> 2 ^ bit_len (pfx_address p)"
    by (simp add: pfx_lo_def)
  moreover have "(0::nat) < 2 ^ host_bits p" by simp
  ultimately show ?thesis unfolding pfx_hi_def by linarith
qed

lemma addr_val_eqD: "same_family a b \<Longrightarrow> addr_val a = addr_val b \<Longrightarrow> a = b"
  by (cases a; cases b)
    (auto simp: same_family_def addr_val_def to_u128_def dest: unat_eqD)

lemma unat_address_mask: "unat (address_mask a) = 2 ^ bit_len a - 1"
  by (cases a)
    (simp_all add: address_mask_def bit_len_def unsigned_minus_1_eq_mask mask_eq_exp_minus_1)

lemma le_address_mask: "v \<le> address_mask a \<longleftrightarrow> unat v < 2 ^ bit_len a"
proof -
  have "(0::nat) < 2 ^ bit_len a" by simp
  then show ?thesis unfolding word_le_nat_alt unat_address_mask by linarith
qed

lemma from_u128_val:
  assumes "v \<le> address_mask f"
  shows "addr_val (from_u128 f v) = unat v" "same_family f (from_u128 f v)"
    "\<not> from_u128_panics f v"
proof -
  have lt: "unat v < 2 ^ bit_len f" using assms by (simp add: le_address_mask)
  show "addr_val (from_u128 f v) = unat v"
  proof (cases f)
    case (V4 w)
    with lt have "unat v < 2 ^ 32" by (simp add: bit_len_def)
    with V4 show ?thesis
      by (simp add: from_u128_def addr_val_def to_u128_def unsigned_ucast_eq
          unsigned_take_bit_eq take_bit_nat_eq_self)
  qed (simp add: from_u128_def addr_val_def to_u128_def)
  show "same_family f (from_u128 f v)"
    by (cases f) (simp_all add: from_u128_def same_family_def)
  show "\<not> from_u128_panics f v"
    using assms by (cases f) (simp_all add: from_u128_panics_def address_mask_def not_less)
qed

text \<open>Containment, masking, the last address and overlap, over the interval of a prefix.\<close>

lemma network_value_le: "prefix_ok p \<Longrightarrow> network_value p \<le> address_mask (pfx_address p)"
  using pfx_lo_le [of p] addr_val_less [of "pfx_address p"]
  by (simp add: le_address_mask unat_network_value)

lemma contains_div:
  "prefix_ok p \<Longrightarrow> contains p a \<longleftrightarrow> same_family (pfx_address p) a \<and>
     addr_val a div 2 ^ host_bits p = addr_val (pfx_address p) div 2 ^ host_bits p"
proof (cases "same_family (pfx_address p) a")
  case True
  assume ok: "prefix_ok p"
  have "to_u128 a AND prefix_mask (pfx_address p) (pfx_bits p) = to_u128 a AND NOT (mask (host_bits p))"
    using ok True by (intro and_prefix_mask) (simp_all add: prefix_ok_def)
  then have "contains p a \<longleftrightarrow> unat (to_u128 a AND NOT (mask (host_bits p))) = pfx_lo p"
    using True ok unat_eqD unat_network_value unfolding contains_def by metis
  with True show ?thesis
    by (simp add: unat_and_not_mask pfx_lo_def addr_val_def)
qed (simp add: contains_def)

lemma contains_iff:
  "prefix_ok p \<Longrightarrow> contains p a \<longleftrightarrow>
     same_family (pfx_address p) a \<and> pfx_lo p \<le> addr_val a \<and> addr_val a \<le> pfx_hi p"
proof -
  assume ok: "prefix_ok p"
  let ?h = "2 ^ host_bits p :: nat"
  have pos: "0 < ?h" by simp
  have "addr_val a div ?h = addr_val (pfx_address p) div ?h \<longleftrightarrow> pfx_lo p \<le> addr_val a \<and> addr_val a < pfx_lo p + ?h"
    unfolding pfx_lo_def using pos by (metis add.commute div_nat_eqI dividend_less_times_div
        div_times_less_eq_dividend mult.commute mult_Suc_right)
  moreover have "addr_val a < pfx_lo p + ?h \<longleftrightarrow> addr_val a \<le> pfx_hi p"
    unfolding pfx_hi_def using pos by linarith
  ultimately show ?thesis unfolding contains_div [OF ok] by simp
qed

lemma masked_facts:
  assumes "prefix_ok p"
  shows "addr_val (pfx_address (masked p)) = pfx_lo p"
    "same_family (pfx_address p) (pfx_address (masked p))"
    "pfx_bits (masked p) = pfx_bits p"
  using from_u128_val [OF network_value_le [OF assms]] assms
  by (simp_all add: masked_def unat_network_value)

lemma masked_interval:
  assumes "prefix_ok p"
  shows "prefix_ok (masked p)" "pfx_lo (masked p) = pfx_lo p" "pfx_hi (masked p) = pfx_hi p"
proof -
  have len: "bit_len (pfx_address (masked p)) = bit_len (pfx_address p)"
    using masked_facts [OF assms] bit_len_same by metis
  show "prefix_ok (masked p)"
    using assms masked_facts(3) [OF assms] by (simp add: prefix_ok_def len)
  show lo: "pfx_lo (masked p) = pfx_lo p"
    using masked_facts [OF assms] by (simp add: pfx_lo_def [of "masked p"] len)
      (simp add: pfx_lo_def)
  then show "pfx_hi (masked p) = pfx_hi p"
    using masked_facts(3) [OF assms] by (simp add: pfx_hi_def len)
qed

lemma last_address_value:
  assumes "prefix_ok p"
  shows "network_value p OR (NOT (prefix_mask (pfx_address p) (pfx_bits p)) AND address_mask (pfx_address p))
     = (to_u128 (pfx_address p) AND NOT (mask (host_bits p))) OR mask (host_bits p)"
    and "unat ((to_u128 (pfx_address p) AND NOT (mask (host_bits p))) OR mask (host_bits p)) = pfx_hi p"
proof -
  let ?a = "pfx_address p" and ?h = "host_bits p"
  let ?x = "to_u128 ?a"
  let ?v = "(?x AND NOT (mask ?h)) OR mask ?h"
  have bits: "pfx_bits p \<le> bit_len ?a" using assms by (simp add: prefix_ok_def)
  have h: "?h \<le> bit_len ?a" "?h \<le> 128" using bit_len_le [of ?a] by simp_all
  have "NOT (prefix_mask ?a (pfx_bits p)) AND address_mask ?a = mask ?h"
    unfolding prefix_mask_mask [OF bits] address_mask_mask
    using h by (intro bit_word_eqI) (auto simp: bit_simps)
  then show "network_value p OR (NOT (prefix_mask ?a (pfx_bits p)) AND address_mask ?a) = ?v"
    using bits by (simp add: network_value_def and_prefix_mask same_family_iff)
  have "n < 128" if "bit ?x n" for n using bit_imp_le_length [OF that] by simp
  then have high: "drop_bit ?h ?v = drop_bit ?h ?x"
    by (intro bit_word_eqI) (auto simp: bit_simps)
  have low: "take_bit ?h ?v = mask ?h"
    by (rule bit_word_eqI) (auto simp: bit_simps)
  have "unat ?v = unat ?v div 2 ^ ?h * 2 ^ ?h + unat ?v mod 2 ^ ?h"
    by (simp only: div_mult_mod_eq)
  also have "unat ?v div 2 ^ ?h = unat (drop_bit ?h ?v)"
    by (simp only: unat_drop_bit)
  also have "\<dots> = unat ?x div 2 ^ ?h"
    unfolding high by (rule unat_drop_bit)
  also have "unat ?v mod 2 ^ ?h = unat (take_bit ?h ?v)"
    by (simp only: unat_take_bit)
  also have "\<dots> = 2 ^ ?h - 1"
    unfolding low using h(2) by (intro unat_mask) simp
  finally show "unat ?v = pfx_hi p"
    by (simp add: pfx_hi_def pfx_lo_def addr_val_def)
qed

lemma last_address_facts:
  assumes "prefix_ok p"
  shows "addr_val (last_address p) = pfx_hi p"
    "same_family (pfx_address p) (last_address p)"
    "\<not> from_u128_panics (pfx_address p)
        (network_value p OR (NOT (prefix_mask (pfx_address p) (pfx_bits p)) AND address_mask (pfx_address p)))"
proof -
  let ?v = "network_value p OR (NOT (prefix_mask (pfx_address p) (pfx_bits p)) AND address_mask (pfx_address p))"
  have v: "unat ?v = pfx_hi p" using last_address_value [OF assms] by simp
  then have "?v \<le> address_mask (pfx_address p)"
    using pfx_hi_less [OF assms] by (simp add: le_address_mask)
  from from_u128_val [OF this] v
  show "addr_val (last_address p) = pfx_hi p" "same_family (pfx_address p) (last_address p)"
    "\<not> from_u128_panics (pfx_address p) ?v"
    by (simp_all add: last_address_def)
qed

lemma pfx_lo_hi: "pfx_lo p \<le> pfx_hi p"
  unfolding pfx_hi_def by (rule le_add1)

lemma overlaps_interval:
  assumes "prefix_ok p" "prefix_ok q"
  shows "overlaps p q \<longleftrightarrow> same_family (pfx_address p) (pfx_address q) \<and>
     pfx_lo p \<le> pfx_hi q \<and> pfx_lo q \<le> pfx_hi p"
proof (cases "same_family (pfx_address p) (pfx_address q)")
  case True
  then have "same_family (pfx_address p) (pfx_address (masked q))"
    "same_family (pfx_address q) (pfx_address (masked p))"
    using masked_facts(2) [OF assms(1)] masked_facts(2) [OF assms(2)] by (auto simp: same_family_iff)
  with True show ?thesis
    using masked_facts(1) [OF assms(1)] masked_facts(1) [OF assms(2)] pfx_lo_hi [of p] pfx_lo_hi [of q]
    by (auto simp: overlaps_def contains_iff assms)
qed (simp add: overlaps_def)

text \<open>Overlap means a common address: the specification the allocator relies on.\<close>

lemma addr_of_val: "n < 2 ^ bit_len f \<Longrightarrow> \<exists>a. same_family f a \<and> addr_val a = n"
proof -
  assume n: "n < 2 ^ bit_len f"
  also have "\<dots> \<le> 2 ^ 128" using bit_len_le by (intro power_increasing) auto
  finally have "unat (of_nat n :: 128 word) = n"
    by (simp add: unat_of_nat)
  with n have "of_nat n \<le> address_mask f" by (simp add: le_address_mask)
  from from_u128_val [OF this] \<open>unat (of_nat n :: 128 word) = n\<close> show ?thesis by metis
qed

lemma overlaps_common_address:
  assumes "prefix_ok p" "prefix_ok q"
  shows "overlaps p q \<longleftrightarrow> (\<exists>a. contains p a \<and> contains q a)"
proof
  assume "overlaps p q"
  then have fam: "same_family (pfx_address p) (pfx_address q)"
    and iv: "pfx_lo p \<le> pfx_hi q" "pfx_lo q \<le> pfx_hi p"
    using assms by (simp_all add: overlaps_interval)
  let ?n = "max (pfx_lo p) (pfx_lo q)"
  have "?n < 2 ^ bit_len (pfx_address p)"
    using iv pfx_lo_hi [of p] pfx_hi_less [OF assms(1)] by linarith
  then obtain a where "same_family (pfx_address p) a" "addr_val a = ?n"
    using addr_of_val by blast
  with fam iv pfx_lo_hi [of p] pfx_lo_hi [of q] show "\<exists>a. contains p a \<and> contains q a"
    by (intro exI [of _ a]) (auto simp: contains_iff assms same_family_iff)
next
  assume "\<exists>a. contains p a \<and> contains q a"
  then show "overlaps p q"
    using assms by (auto simp: overlaps_interval contains_iff same_family_iff)
qed

section \<open>The search loop\<close>

text \<open>The search moves strictly upwards, whatever the prefix length: it ends.\<close>

lemma addr_le_last: "addr_val a \<le> unat ((to_u128 a AND m) OR (NOT m AND address_mask a))"
proof -
  let ?v = "(to_u128 a AND m) OR (NOT m AND address_mask a)"
  have "to_u128 a AND ?v = (to_u128 a AND m) OR (NOT m AND (to_u128 a AND mask (bit_len a)))"
    unfolding address_mask_mask by (rule bit_word_eqI) (auto simp: bit_simps)
  also have "\<dots> = to_u128 a"
    unfolding to_u128_mask by (rule bit_word_eqI) (auto simp: bit_simps)
  finally have "to_u128 a AND ?v = to_u128 a" .
  then have "to_u128 a \<le> ?v" by (metis word_and_le1)
  then show ?thesis by (simp add: addr_val_def word_le_nat_alt)
qed

lemma last_value_le:
  "(to_u128 a AND prefix_mask a bits) OR (NOT (prefix_mask a bits) AND address_mask a) \<le> address_mask a"
proof -
  let ?v = "(to_u128 a AND prefix_mask a bits) OR (NOT (prefix_mask a bits) AND address_mask a)"
  have "?v = ?v AND mask (bit_len a)"
  proof -
    have "to_u128 a AND prefix_mask a bits = (to_u128 a AND mask (bit_len a)) AND prefix_mask a bits"
      by (simp add: to_u128_mask)
    then show ?thesis
      unfolding address_mask_mask by (intro bit_word_eqI) (auto simp: bit_simps)
  qed
  then show ?thesis unfolding address_mask_mask by (metis word_and_le1)
qed

lemma next_address_facts:
  assumes "next_address a bits = Some b"
  shows "same_family a b" "addr_val a < addr_val b"
    "addr_val b = addr_val (last_address \<lparr>pfx_address = a, pfx_bits = bits\<rparr>) + 1"
proof -
  let ?v = "(to_u128 a AND prefix_mask a bits) OR (NOT (prefix_mask a bits) AND address_mask a)"
  let ?l = "last_address \<lparr>pfx_address = a, pfx_bits = bits\<rparr>"
  have last: "addr_val ?l = unat ?v"
    using from_u128_val(1) [OF last_value_le [of a bits]]
    by (simp add: last_address_def network_value_def)
  from assms have b: "b = from_u128 a (to_u128 ?l + 1)" and le: "to_u128 ?l + 1 \<le> address_mask a"
    and no: "unat (to_u128 ?l) + 1 < 2 ^ 128"
    by (auto simp: next_address_def checked_add_u128_nat split: if_splits)
  have suc: "unat (to_u128 ?l + 1) = unat (to_u128 ?l) + 1"
    using no by (simp add: unat_word_ariths)
  from from_u128_val [OF le] b suc show "same_family a b" "addr_val b = addr_val ?l + 1"
    by (simp_all add: addr_val_def)
  then show "addr_val a < addr_val b"
    using addr_le_last [of a "prefix_mask a bits"] last by simp
qed

function search ::
  "ip_prefix \<Rightarrow> ip_prefix list \<Rightarrow> nat \<Rightarrow> ip_addr \<Rightarrow> ip_prefix option" where
  "search network allocated bits address =
     (if contains network address then
        (let subnet = \<lparr>pfx_address = address, pfx_bits = bits\<rparr> in
         if \<not> list_ex (\<lambda>used. overlaps used subnet) allocated then Some subnet
         else (case next_address address bits of
                 Some address' \<Rightarrow> search network allocated bits address'
               | None \<Rightarrow> None))
      else None)"
  by pat_completeness auto
termination
proof (relation "measure (\<lambda>(network, allocated, bits, address). 2 ^ 128 - addr_val address)")
  fix bits address address'
  assume "next_address address bits = Some address'"
  then have "addr_val address < addr_val address'" by (rule next_address_facts)
  moreover have "addr_val address' < 2 ^ 128"
    using unat_less [of "to_u128 address'"] by (simp add: addr_val_def)
  ultimately show "((network, allocated, bits, address'), network, allocated, bits, address)
      \<in> measure (\<lambda>(network, allocated, bits, address). 2 ^ 128 - addr_val address)"
    for network :: ip_prefix and allocated :: "ip_prefix list"
    by simp
qed simp

declare search.simps [simp del]

definition allocate_subnet_len :: "ipam \<Rightarrow> nat \<Rightarrow> (ip_prefix_error, ip_prefix \<times> ipam) result" where
  "allocate_subnet_len s bits =
     (if bits < pfx_bits (ipam_network s) \<or> bit_len (pfx_address (ipam_network s)) < bits
      then Err InvalidSubnetSize
      else (case search (ipam_network s) (ipam_allocated s) bits (pfx_address (ipam_network s)) of
              Some subnet \<Rightarrow> Ok (subnet, s\<lparr>ipam_allocated := ipam_allocated s @ [subnet]\<rparr>)
            | None \<Rightarrow> Err NoAvailableSubnet))"

subsection \<open>What the search returns\<close>

lemma next_address_None:
  assumes "bits \<le> bit_len a" "next_address a bits = None"
  shows "2 ^ bit_len a \<le> pfx_hi \<lparr>pfx_address = a, pfx_bits = bits\<rparr> + 1"
proof (rule ccontr)
  let ?p = "\<lparr>pfx_address = a, pfx_bits = bits\<rparr>"
  let ?l = "to_u128 (last_address ?p)"
  assume "\<not> 2 ^ bit_len a \<le> pfx_hi ?p + 1"
  moreover have "unat ?l = pfx_hi ?p"
    using last_address_facts(1) [of ?p] assms(1) by (simp add: prefix_ok_def addr_val_def)
  ultimately have lt: "unat ?l + 1 < 2 ^ bit_len a" by simp
  also have "\<dots> \<le> 2 ^ 128" using bit_len_le by (intro power_increasing) auto
  finally have no: "unat ?l + unat (1 :: 128 word) < 2 ^ 128" by simp
  then have "unat (?l + 1) = unat ?l + 1" by (simp add: unat_word_ariths)
  with lt have "?l + 1 \<le> address_mask a" by (simp add: le_address_mask)
  with no have "next_address a bits \<noteq> None"
    by (simp add: next_address_def checked_add_u128_nat)
  with assms(2) show False by simp
qed

lemma search_Some:
  "search network allocated bits address = Some subnet \<Longrightarrow>
   contains network (pfx_address subnet) \<and> pfx_bits subnet = bits \<and>
   \<not> list_ex (\<lambda>used. overlaps used subnet) allocated"
proof (induction network allocated bits address rule: search.induct)
  case (1 network allocated bits address)
  then show ?case
    by (auto simp: search.simps [of network allocated bits address] Let_def
        split: if_splits option.splits)
qed

text \<open>A free prefix at or above the position of the search makes it succeed, at that prefix or below.\<close>

lemma pfx_lo_aligned: "2 ^ host_bits p dvd pfx_lo p"
  by (simp add: pfx_lo_def)

lemma pfx_lo_of_aligned: "2 ^ host_bits p dvd addr_val (pfx_address p) \<Longrightarrow> pfx_lo p = addr_val (pfx_address p)"
  by (simp add: pfx_lo_def)

lemma search_least:
  assumes "prefix_ok network" "bits \<le> bit_len address" "same_family (pfx_address network) address"
    and "2 ^ (bit_len address - bits) dvd addr_val address" "pfx_lo network \<le> addr_val address"
    and "list_all prefix_ok allocated"
    and "pfx_bits q = bits" "contains network (pfx_address q)" "addr_val address \<le> pfx_lo q"
    and "\<not> list_ex (\<lambda>used. overlaps used q) allocated"
  shows "\<exists>p. search network allocated bits address = Some p \<and> addr_val (pfx_address p) \<le> pfx_lo q"
  using assms
proof (induction network allocated bits address rule: search.induct)
  case (1 network allocated bits address)
  let ?s = "\<lparr>pfx_address = address, pfx_bits = bits\<rparr>"
  let ?H = "2 ^ (bit_len address - bits) :: nat"
  have q: "same_family (pfx_address network) (pfx_address q)" "addr_val (pfx_address q) \<le> pfx_hi network"
    using "1.prems" by (simp_all add: contains_iff)
  then have len: "bit_len (pfx_address q) = bit_len address"
    using "1.prems"(3) bit_len_same by metis
  have ok: "prefix_ok q" "prefix_ok ?s"
    using "1.prems" len by (simp_all add: prefix_ok_def)
  have hq: "pfx_hi q = pfx_lo q + (?H - 1)" using "1.prems"(7) len by (simp add: pfx_hi_def)
  have ls: "pfx_lo ?s = addr_val address" using "1.prems"(4) by (simp add: pfx_lo_of_aligned)
  then have hs: "pfx_hi ?s = addr_val address + (?H - 1)" by (simp add: pfx_hi_def)
  have c: "contains network address"
    using "1.prems" q pfx_lo_le [of q] by (simp add: contains_iff)
  note unfold = search.simps [of network allocated bits address]
  show ?case
  proof (cases "list_ex (\<lambda>used. overlaps used ?s) allocated")
    case taken: True
    have "same_family address (pfx_address q)" using "1.prems"(3) q by (simp add: same_family_iff)
    then have "overlaps used q = overlaps used ?s" if "prefix_ok used" "pfx_lo q = addr_val address" for used
      using ok that ls hs hq by (simp add: overlaps_interval same_family_iff)
    with taken "1.prems"(6,10) have ne: "pfx_lo q \<noteq> addr_val address"
      by (auto simp: list_ex_iff list_all_iff)
    have "?H dvd pfx_lo q" using pfx_lo_aligned [of q] "1.prems"(7) len by simp
    then have "?H dvd pfx_lo q - addr_val address" using "1.prems"(4) by (rule dvd_diff_nat)
    moreover have "0 < pfx_lo q - addr_val address" using ne "1.prems"(9) by simp
    ultimately have "?H \<le> pfx_lo q - addr_val address" by (rule dvd_imp_le)
    then have above: "addr_val address + ?H \<le> pfx_lo q" using "1.prems"(9) by linarith
    show ?thesis
    proof (cases "next_address address bits")
      case None
      have "pfx_hi ?s + 1 = addr_val address + ?H" using hs by simp
      with next_address_None [OF "1.prems"(2) None] above
      have "2 ^ bit_len (pfx_address q) \<le> pfx_lo q" using len by simp
      with addr_val_less [of "pfx_address q"] pfx_lo_le [of q] show ?thesis by linarith
    next
      case (Some address')
      note nx = next_address_facts [OF Some]
      have val: "addr_val address' = addr_val address + ?H"
        using nx(3) last_address_facts(1) [OF ok(2)] hs by simp
      have len': "bit_len address' = bit_len address" using nx(1) bit_len_same by metis
      have "\<exists>p. search network allocated bits address' = Some p \<and> addr_val (pfx_address p) \<le> pfx_lo q"
        using "1.prems" c taken Some nx(1) len' val above
        by (intro "1.IH" [of ?s address']) (auto simp: same_family_iff)
      then show ?thesis using c taken Some by (simp add: unfold)
    qed
  qed (use "1.prems"(9) c in \<open>simp add: unfold\<close>)
qed

section \<open>The invariant of the allocator\<close>

definition ipam_ok :: "ipam \<Rightarrow> bool" where
  "ipam_ok s \<longleftrightarrow>
     prefix_ok (ipam_network s) \<and> 0 < pfx_bits (ipam_network s) \<and>
     addr_val (pfx_address (ipam_network s)) = pfx_lo (ipam_network s) \<and>
     list_all prefix_ok (ipam_allocated s) \<and>
     sorted_wrt (\<lambda>p q. \<not> overlaps p q) (ipam_allocated s)"

lemma ipam_ok_push:
  "ipam_ok s \<Longrightarrow> prefix_ok p \<Longrightarrow> \<not> list_ex (\<lambda>used. overlaps used p) (ipam_allocated s) \<Longrightarrow>
   ipam_ok (s\<lparr>ipam_allocated := ipam_allocated s @ [p]\<rparr>)"
  by (auto simp: ipam_ok_def sorted_wrt_append list_ex_iff)

lemma ipam_new_ok [inv_intros]: "ipam_new network = Ok s \<Longrightarrow> prefix_ok network \<Longrightarrow> ipam_ok s \<and> ipam_allocated s = []"
  using masked_facts [of network] masked_interval [of network]
  by (auto simp: ipam_new_def ipam_ok_def split: if_splits)

lemma allocate_subnet_Ok:
  "allocate_subnet s p = Ok s' \<longleftrightarrow>
     contains (ipam_network s) (pfx_address p) \<and> contains (ipam_network s) (last_address p) \<and>
     \<not> list_ex (\<lambda>used. overlaps used p) (ipam_allocated s) \<and>
     s' = s\<lparr>ipam_allocated := ipam_allocated s @ [p]\<rparr>"
  by (auto simp: allocate_subnet_def)

lemma allocate_subnet_ok [inv_intros]:
  "allocate_subnet s p = Ok s' \<Longrightarrow> ipam_ok s \<Longrightarrow> prefix_ok p \<Longrightarrow> ipam_ok s'"
  by (auto simp: allocate_subnet_Ok intro: ipam_ok_push)

lemma allocate_all_ok [inv_intros]:
  "allocate_all s ps = Ok s' \<Longrightarrow> ipam_ok s \<Longrightarrow> list_all prefix_ok ps \<Longrightarrow>
   ipam_ok s' \<and> ipam_allocated s' = ipam_allocated s @ ps \<and> ipam_network s' = ipam_network s"
proof (induction s ps rule: allocate_all.induct)
  case (2 s p ps)
  then obtain t where t: "allocate_subnet s p = Ok t" "allocate_all t ps = Ok s'"
    by (auto simp: rbind_eq_Ok)
  with 2 have "ipam_ok t" by (auto intro: allocate_subnet_ok)
  with 2 t show ?case by (auto simp: allocate_subnet_Ok)
qed simp

lemma with_allocated_ok [inv_intros]:
  assumes "with_allocated network ps = Ok s" "prefix_ok network" "list_all prefix_ok ps"
  shows "ipam_ok s" "ipam_allocated s = ps" "ipam_network s = masked network"
  using assms ipam_new_ok [of network] allocate_all_ok
  by (fastforce simp: with_allocated_def rbind_eq_Ok ipam_new_def split: if_splits)+

lemma allocate_subnet_len_Ok:
  assumes "allocate_subnet_len s bits = Ok (p, s')" "ipam_ok s"
  shows "contains (ipam_network s) (pfx_address p)" "prefix_ok p" "pfx_bits p = bits"
    "pfx_bits (ipam_network s) \<le> bits"
    "\<not> list_ex (\<lambda>used. overlaps used p) (ipam_allocated s)"
    "s' = s\<lparr>ipam_allocated := ipam_allocated s @ [p]\<rparr>"
proof -
  have s: "search (ipam_network s) (ipam_allocated s) bits (pfx_address (ipam_network s)) = Some p"
    and b: "pfx_bits (ipam_network s) \<le> bits" "bits \<le> bit_len (pfx_address (ipam_network s))"
    and "s' = s\<lparr>ipam_allocated := ipam_allocated s @ [p]\<rparr>"
    using assms(1) by (auto simp: allocate_subnet_len_def not_less split: if_splits option.splits)
  then show "s' = s\<lparr>ipam_allocated := ipam_allocated s @ [p]\<rparr>" by simp
  note f = search_Some [OF s]
  then have "bit_len (pfx_address p) = bit_len (pfx_address (ipam_network s))"
    using bit_len_same contains_def by metis
  with f b show "contains (ipam_network s) (pfx_address p)" "prefix_ok p" "pfx_bits p = bits"
    "pfx_bits (ipam_network s) \<le> bits" "\<not> list_ex (\<lambda>used. overlaps used p) (ipam_allocated s)"
    by (simp_all add: prefix_ok_def)
qed

lemma allocate_subnet_len_ok [inv_intros]:
  "allocate_subnet_len s bits = Ok (p, s') \<Longrightarrow> ipam_ok s \<Longrightarrow> ipam_ok s'"
  using allocate_subnet_len_Ok [of s bits p s'] by (auto intro: ipam_ok_push)

text \<open>A longer prefix whose address lies in a shorter one lies in it entirely.\<close>

lemma contains_subset:
  assumes "prefix_ok p" "prefix_ok q" "pfx_bits p \<le> pfx_bits q" "contains p (pfx_address q)" "contains q a"
  shows "contains p a"
proof -
  have fam: "same_family (pfx_address p) (pfx_address q)" "same_family (pfx_address q) a"
    using assms by (simp_all add: contains_def)
  then have "bit_len (pfx_address p) = bit_len (pfx_address q)" by (simp add: bit_len_same)
  then have "host_bits p = host_bits q + (pfx_bits q - pfx_bits p)"
    using assms by (simp add: prefix_ok_def)
  then have "(2::nat) ^ host_bits p = 2 ^ host_bits q * 2 ^ (pfx_bits q - pfx_bits p)"
    by (simp add: power_add)
  then have "n div 2 ^ host_bits p = n div 2 ^ host_bits q div 2 ^ (pfx_bits q - pfx_bits p)" for n :: nat
    by (simp add: div_mult2_eq)
  with assms fam show ?thesis by (simp add: contains_div same_family_iff)
qed

lemma allocate_subnet_len_least:
  assumes "ipam_ok s" "pfx_bits (ipam_network s) \<le> pfx_bits q" "prefix_ok q"
    and "contains (ipam_network s) (pfx_address q)"
    and "\<not> list_ex (\<lambda>used. overlaps used q) (ipam_allocated s)"
  shows "\<exists>p s'. allocate_subnet_len s (pfx_bits q) = Ok (p, s') \<and> addr_val (pfx_address p) \<le> pfx_lo q"
proof -
  let ?n = "ipam_network s"
  have fam: "same_family (pfx_address ?n) (pfx_address q)" using assms(4) by (simp add: contains_def)
  then have len: "bit_len (pfx_address q) = bit_len (pfx_address ?n)" by (simp add: bit_len_same)
  have n: "prefix_ok ?n" "addr_val (pfx_address ?n) = pfx_lo ?n" "list_all prefix_ok (ipam_allocated s)"
    using assms(1) by (simp_all add: ipam_ok_def)
  have "bit_len (pfx_address ?n) - pfx_bits q \<le> host_bits ?n" using assms(2) by simp
  then have dvd: "(2::nat) ^ (bit_len (pfx_address ?n) - pfx_bits q) dvd pfx_lo ?n"
    using pfx_lo_aligned [of ?n] le_imp_power_dvd dvd_trans by blast
  moreover have "pfx_lo ?n \<le> pfx_lo q"
  proof -
    have "pfx_lo ?n \<le> addr_val (pfx_address q)" using assms(4) n by (simp add: contains_iff)
    then have "pfx_lo ?n div 2 ^ host_bits q * 2 ^ host_bits q \<le> pfx_lo q"
      by (simp add: pfx_lo_def [of q] div_le_mono)
    with dvd show ?thesis by (simp add: len)
  qed
  ultimately have "\<exists>p. search ?n (ipam_allocated s) (pfx_bits q) (pfx_address ?n) = Some p \<and>
      addr_val (pfx_address p) \<le> pfx_lo q"
    using assms n len by (intro search_least) (simp_all add: prefix_ok_def same_family_iff)
  then show ?thesis
    using assms(2,3) len by (auto simp: allocate_subnet_len_def prefix_ok_def)
qed

section \<open>The interface of the allocator\<close>

text \<open>
  What the cluster relies on: an allocator started on the subnets of the stored machines knows
  exactly these, and what it hands out is added to them and overlaps none of them.
\<close>

locale subnet_allocator =
  fixes start :: "ip_prefix \<Rightarrow> ip_prefix list \<Rightarrow> ('e, 's) result"
    and take_len :: "'s \<Rightarrow> nat \<Rightarrow> ('e, ip_prefix \<times> 's) result"
    and used :: "'s \<Rightarrow> ip_prefix list"
    and ok :: "'s \<Rightarrow> bool"
  assumes start_ok: "start network ps = Ok s \<Longrightarrow> prefix_ok network \<Longrightarrow> list_all prefix_ok ps \<Longrightarrow> ok s"
    and used_start: "start network ps = Ok s \<Longrightarrow> prefix_ok network \<Longrightarrow> list_all prefix_ok ps \<Longrightarrow> used s = ps"
    and take_len_ok: "take_len s bits = Ok (p, s') \<Longrightarrow> ok s \<Longrightarrow> ok s'"
    and used_take_len: "take_len s bits = Ok (p, s') \<Longrightarrow> ok s \<Longrightarrow> used s' = used s @ [p]"
    and used_ok: "ok s \<Longrightarrow> list_all prefix_ok (used s)"
    and used_disjoint: "ok s \<Longrightarrow> sorted_wrt (\<lambda>p q. \<not> overlaps p q) (used s)"
begin

lemma take_len_disjoint:
  assumes "start network ps = Ok s" "take_len s bits = Ok (p, s')"
    and "prefix_ok network" "list_all prefix_ok ps"
  shows "prefix_ok p" "sorted_wrt (\<lambda>p q. \<not> overlaps p q) (ps @ [p])"
proof -
  have s: "ok s" "used s = ps" using assms start_ok used_start by blast+
  then have s': "ok s'" "used s' = ps @ [p]" using assms take_len_ok used_take_len by blast+
  show "prefix_ok p" using used_ok [OF s'(1)] s'(2) by simp
  show "sorted_wrt (\<lambda>p q. \<not> overlaps p q) (ps @ [p])" using used_disjoint [OF s'(1)] s'(2) by simp
qed

end

interpretation alloc: subnet_allocator with_allocated allocate_subnet_len ipam_allocated ipam_ok
proof unfold_locales
  show "ipam_allocated s' = ipam_allocated s @ [p]"
    if "allocate_subnet_len s bits = Ok (p, s')" "ipam_ok s" for s bits p s'
    using allocate_subnet_len_Ok [OF that] by simp
  show "list_all prefix_ok (ipam_allocated s)" "sorted_wrt (\<lambda>p q. \<not> overlaps p q) (ipam_allocated s)"
    if "ipam_ok s" for s
    using that by (simp_all add: ipam_ok_def)
qed (auto intro: inv_intros)

section \<open>Properties\<close>

lemmas ipam_eval = ipam_ok_def prefix_ok_def DEFAULT_NETWORK_def be_word_def addr_val_def pfx_lo_def
  bit_len_def to_u128_def

text \<open>
  (C16) A subnet handed out by \<open>allocate_subnet_len\<close> has the requested length, lies in the cluster
  network address by address, shares no address with a subnet in use, and is recorded, the
  invariant of the allocator being kept.
\<close>

theorem allocate_subnet_len_sound:
  assumes "ipam_ok s" "allocate_subnet_len s bits = Ok (p, s')"
  shows "pfx_bits p = bits \<and> ipam_allocated s' = ipam_allocated s @ [p] \<and> ipam_ok s' \<and>
    (\<forall>a. contains p a \<longrightarrow> contains (ipam_network s) a \<and> (\<forall>q\<in>set (ipam_allocated s). \<not> contains q a))"
proof -
  note f = allocate_subnet_len_Ok [OF assms(2,1)]
  have "ipam_ok s'" using assms by (auto intro: inv_intros)
  moreover have "contains (ipam_network s) a" if "contains p a" for a
    using contains_subset [OF _ f(2) _ f(1) that] f assms(1) by (simp add: ipam_ok_def)
  moreover have "\<not> contains q a" if "contains p a" "q \<in> set (ipam_allocated s)" for a q
    using overlaps_common_address [of q p] f assms(1) that by (auto simp: ipam_ok_def list_ex_iff list_all_iff)
  ultimately show ?thesis using f by simp
qed

theorem allocate_subnet_len_sound_witness:
  "\<exists>s'. allocate_subnet_len \<lparr>ipam_network = DEFAULT_NETWORK, ipam_allocated = [\<lparr>pfx_address = V4 0x0AD20000, pfx_bits = 23\<rparr>]\<rparr> 24
     = Ok (\<lparr>pfx_address = V4 0x0AD20200, pfx_bits = 24\<rparr>, s') \<and> ipam_ok s'"
proof -
  let ?s = "\<lparr>ipam_network = DEFAULT_NETWORK, ipam_allocated = [\<lparr>pfx_address = V4 0x0AD20000, pfx_bits = 23\<rparr>]\<rparr>"
  let ?p = "\<lparr>pfx_address = V4 0x0AD20200, pfx_bits = 24\<rparr>"
  have "ipam_ok ?s" by (simp add: ipam_eval)
  moreover have "allocate_subnet_len ?s 24 = Ok (?p, ?s\<lparr>ipam_allocated := ipam_allocated ?s @ [?p]\<rparr>)"
    by code_simp
  ultimately show ?thesis using allocate_subnet_len_sound by blast
qed

text \<open>
  (C17) The allocator is complete and first-fit: whenever the network holds a free prefix of a
  length, \<open>allocate_subnet_len\<close> succeeds for that length, and what it returns starts no later than
  that prefix. \<open>NoAvailableSubnet\<close> therefore means that no such prefix is left.
\<close>

theorem allocate_subnet_len_first_fit:
  assumes "ipam_ok s" "prefix_ok q" "pfx_bits (ipam_network s) \<le> pfx_bits q"
    and "contains (ipam_network s) (pfx_address q)"
    and "\<forall>u\<in>set (ipam_allocated s). \<not> overlaps u q"
  shows "\<exists>p s'. allocate_subnet_len s (pfx_bits q) = Ok (p, s') \<and>
    addr_val (pfx_address p) \<le> addr_val (pfx_address q)"
  using allocate_subnet_len_least [OF assms(1,3,2,4)] assms(5) pfx_lo_le [of q]
  by (fastforce simp: list_ex_iff)

theorem allocate_subnet_len_first_fit_witness:
  "\<exists>p s'. allocate_subnet_len \<lparr>ipam_network = DEFAULT_NETWORK, ipam_allocated = []\<rparr> 24 = Ok (p, s') \<and>
    addr_val (pfx_address p) \<le> 0x0AD20500"
proof -
  let ?q = "\<lparr>pfx_address = V4 0x0AD20500, pfx_bits = 24\<rparr>"
  let ?s = "\<lparr>ipam_network = DEFAULT_NETWORK, ipam_allocated = []\<rparr>"
  have "contains (ipam_network ?s) (pfx_address ?q)" by code_simp
  moreover have "ipam_ok ?s" "prefix_ok ?q" "pfx_bits (ipam_network ?s) \<le> pfx_bits ?q"
    "addr_val (pfx_address ?q) = 0x0AD20500"
    by (simp_all add: ipam_eval)
  ultimately show ?thesis using allocate_subnet_len_first_fit [of ?s ?q] by simp
qed

text \<open>
  (C18) An allocator rebuilt with \<open>with_allocated\<close> satisfies the invariant, keeps the given subnets
  in their order, and they are pairwise without a common address; explicit reservation with
  \<open>allocate_subnet\<close> keeps the invariant.
\<close>

theorem with_allocated_invariant:
  assumes "with_allocated network subnets = Ok s" "prefix_ok network" "list_all prefix_ok subnets"
  shows "ipam_ok s \<and> ipam_allocated s = subnets \<and>
    sorted_wrt (\<lambda>p q. \<not> (\<exists>a. contains p a \<and> contains q a)) subnets \<and>
    (\<forall>p s'. prefix_ok p \<and> allocate_subnet s p = Ok s' \<longrightarrow> ipam_ok s')"
proof -
  note w = with_allocated_ok [OF assms]
  have "sorted_wrt (\<lambda>p q. \<not> overlaps p q) subnets" using w by (simp add: ipam_ok_def)
  then have "sorted_wrt (\<lambda>p q. \<not> (\<exists>a. contains p a \<and> contains q a)) subnets"
    using assms(3) by (elim sorted_wrt_mono_rel [rotated]) (auto simp: list_all_iff overlaps_common_address)
  with w show ?thesis by (auto intro: allocate_subnet_ok)
qed

theorem with_allocated_invariant_witness:
  "\<exists>s. with_allocated DEFAULT_NETWORK [\<lparr>pfx_address = V4 0x0AD20000, pfx_bits = 23\<rparr>, \<lparr>pfx_address = V4 0x0AD20200, pfx_bits = 24\<rparr>] = Ok s \<and> ipam_ok s"
proof -
  let ?ps = "[\<lparr>pfx_address = V4 0x0AD20000, pfx_bits = 23\<rparr>, \<lparr>pfx_address = V4 0x0AD20200, pfx_bits = 24\<rparr>]"
  have "with_allocated DEFAULT_NETWORK ?ps = Ok \<lparr>ipam_network = DEFAULT_NETWORK, ipam_allocated = ?ps\<rparr>"
    "prefix_ok DEFAULT_NETWORK" "list_all prefix_ok ?ps"
    by code_simp+
  then show ?thesis using with_allocated_invariant by blast
qed

lemma ip_prefix_from_str_display: "prefix_ok p \<Longrightarrow> ip_prefix_from_str (ip_prefix_display p) = Ok p"
proof -
  assume ok: "prefix_ok p"
  let ?bits = "nat_to_string (pfx_bits p)"
  have "CHR ''/'' \<notin> set ?bits" by (rule nat_to_string_not_in) (simp add: is_ascii_digit_def)
  then have split: "rsplit_once CHR ''/'' (ip_prefix_display p) = Some (show_ip (pfx_address p), ?bits)"
    by (simp add: rsplit_once_Some ip_prefix_display_def)
  have "pfx_bits p \<le> 255" using ok bit_len_le [of "pfx_address p"] by (simp add: prefix_ok_def)
  then show ?thesis
    using ok nat_to_string_leading_zero [of "pfx_bits p"] nat_to_string_digits [of "pfx_bits p"]
    by (auto simp: ip_prefix_from_str_def split ip_prefix_make_def prefix_ok_def)
qed

lemma ip_prefix_from_str_ok: "ip_prefix_from_str value = Ok p \<Longrightarrow> prefix_ok p"
  by (auto simp: ip_prefix_from_str_def ip_prefix_make_def prefix_ok_def rbind_eq_Ok
      split: if_splits prod.splits)

text \<open>
  The text of a prefix: whatever \<open>FromStr\<close> accepts is a well-formed prefix, and a well-formed
  prefix is read back from its \<open>Display\<close>, for IPv4 and for every printed form of IPv6.
\<close>

theorem prefix_text_roundtrip:
  "(ip_prefix_from_str text = Ok p \<longrightarrow> prefix_ok p) \<and>
   (prefix_ok p \<longrightarrow> ip_prefix_from_str (ip_prefix_display p) = Ok p)"
  using ip_prefix_from_str_display ip_prefix_from_str_ok by blast

theorem prefix_text_roundtrip_witness:
  "ip_prefix_display \<lparr>pfx_address = V4 0x0AD20000, pfx_bits = 16\<rparr> = ''10.210.0.0/16'' \<and>
   ip_prefix_from_str (ip_prefix_display \<lparr>pfx_address = V4 0x0AD20000, pfx_bits = 16\<rparr>) =
     Ok \<lparr>pfx_address = V4 0x0AD20000, pfx_bits = 16\<rparr>"
proof -
  let ?p = "\<lparr>pfx_address = V4 0x0AD20000, pfx_bits = 16\<rparr>"
  have "ip_prefix_display ?p = ''10.210.0.0/16''" by code_simp
  moreover have "prefix_ok ?p" by (simp add: ipam_eval)
  ultimately show ?thesis using prefix_text_roundtrip [of "[]" ?p] by simp
qed

text \<open>
  \<open>allocate_subnet\<close> checks the address of the subnet and its last address only. A subnet wider
  than the network passes when both happen to lie in it: the network at the top of the wider
  prefix, and an address inside the network.
\<close>

lemma allocate_subnet_wider_than_network:
  "let network = \<lparr>pfx_address = V4 0x0AFF0000, pfx_bits = 16\<rparr>;
       subnet = \<lparr>pfx_address = V4 0x0AFF0001, pfx_bits = 8\<rparr>
   in is_ok (rbind (ipam_new network) (\<lambda>s. allocate_subnet s subnet)) \<and>
      contains subnet (V4 0x0A000001) \<and> \<not> contains network (V4 0x0A000001)"
  by code_simp

end
