(* ===== verification/Secret.thy ===== *)
theory Secret
  imports Utf8 Prelude Ip_Text
begin

text \<open>
  The crate of secrets: hexadecimal text of byte sequences (\<open>secret.rs\<close>) and random identifiers
  (\<open>id.rs\<close>). A secret is an optional byte sequence, since the code keeps the difference between a
  missing and an empty one. The operating system's random generator is a parameter: a function of
  the number of the call.
\<close>

section \<open>Secrets\<close>

type_synonym secret = "8 word list option"

datatype hex_error = OddLength | InvalidHexCharacter nat nat

datatype secret_error = InvalidHex hex_error | RandomBytes string | RandomNumber string

definition as_bytes :: "secret \<Rightarrow> 8 word list" where
  "as_bytes s = (case s of Some bytes \<Rightarrow> bytes | None \<Rightarrow> [])"

definition is_nil :: "secret \<Rightarrow> bool" where
  "is_nil s \<longleftrightarrow> s = None"

definition secret_is_empty :: "secret \<Rightarrow> bool" where
  "secret_is_empty s \<longleftrightarrow> as_bytes s = []"

definition secret_equal :: "secret \<Rightarrow> secret \<Rightarrow> bool" where
  "secret_equal a b \<longleftrightarrow> as_bytes a = as_bytes b"

definition secret_from :: "8 word list \<Rightarrow> secret" where
  "secret_from bytes = Some bytes"

section \<open>Hexadecimal text\<close>

definition decode_nibble :: "char \<Rightarrow> nat option" where
  "decode_nibble c =
     (let byte = byte_of c in
      if 48 \<le> byte \<and> byte \<le> 57 then Some (byte - 48)
      else if 97 \<le> byte \<and> byte \<le> 102 then Some (byte - 97 + 10)
      else if 65 \<le> byte \<and> byte \<le> 70 then Some (byte - 65 + 10)
      else None)"

definition invalid_hex :: "char \<Rightarrow> nat \<Rightarrow> secret_error" where
  "invalid_hex byte index = InvalidHex (InvalidHexCharacter (byte_of byte) index)"

text \<open>The loop over the pairs of the input from a position, and the byte left over at its end.\<close>

fun decode_pairs :: "nat \<Rightarrow> string \<Rightarrow> (secret_error, 8 word list) result" where
  "decode_pairs index (a # b # rest) =
     rbind (ok_or (invalid_hex a index) (decode_nibble a)) (\<lambda>high.
     rbind (ok_or (invalid_hex b (index + 1)) (decode_nibble b)) (\<lambda>low.
     rbind (decode_pairs (index + 2) rest) (\<lambda>decoded.
     Ok (or (push_bit 4 (of_nat high)) (of_nat low) # decoded))))"
| "decode_pairs index [byte] =
     (if decode_nibble byte = None then Err (invalid_hex byte index) else Err (InvalidHex OddLength))"
| "decode_pairs index [] = Ok []"

definition decode_hex :: "string \<Rightarrow> (secret_error, 8 word list) result" where
  "decode_hex value = decode_pairs 0 value"

definition from_hex_string :: "string \<Rightarrow> (secret_error, secret) result" where
  "from_hex_string value = map_ok Some (decode_hex value)"

definition hex_digit :: "nat \<Rightarrow> char" where
  "hex_digit n = char_of (if n < 10 then 48 + n else 87 + n)"

definition hex_encode :: "8 word list \<Rightarrow> string" where
  "hex_encode bytes = concat (map (\<lambda>b. [hex_digit (unat b div 16), hex_digit (unat b mod 16)]) bytes)"

definition to_hex_string :: "secret \<Rightarrow> string" where
  "to_hex_string s = hex_encode (as_bytes s)"

text \<open>The encodings of \<open>serde\<close>: the text, or a missing value.\<close>

definition secret_serialize :: "secret \<Rightarrow> string" where
  "secret_serialize s = to_hex_string s"

definition secret_deserialize :: "string option \<Rightarrow> (secret_error, secret) result" where
  "secret_deserialize v = (case v of None \<Rightarrow> Ok None | Some value \<Rightarrow> from_hex_string value)"

subsection \<open>Messages\<close>

definition go_printable_byte :: "nat \<Rightarrow> string option" where
  "go_printable_byte byte =
     (if 0x20 \<le> byte \<and> byte \<le> 0x7e \<or> 0xa1 \<le> byte \<and> byte \<le> 0xac \<or> 0xae \<le> byte \<and> byte \<le> 0xff
      then Some ([CHR 0x27] @
        (if byte < 0x80 then [char_of byte] else [char_of (0xc0 + byte div 64), char_of (0x80 + byte mod 64)]) @
        [CHR 0x27])
      else None)"

definition upper_hex4 :: "nat \<Rightarrow> string" where
  "upper_hex4 n =
     (let ds = map (\<lambda>c. if 97 \<le> byte_of c then char_of (byte_of c - 32) else c) (print_radix 16 n)
      in replicate (4 - length ds) (CHR ''0'') @ ds)"

fun format_go_hex_error :: "hex_error \<Rightarrow> string" where
  "format_go_hex_error OddLength = ''encoding/hex: odd length hex string''"
| "format_go_hex_error (InvalidHexCharacter c index) =
     ''encoding/hex: invalid byte: U+'' @ upper_hex4 c @
     (case go_printable_byte c of Some quoted \<Rightarrow> '' '' @ quoted | None \<Rightarrow> [])"

fun secret_error_display :: "secret_error \<Rightarrow> string" where
  "secret_error_display (InvalidHex source) = ''invalid hex-encoded secret: '' @ format_go_hex_error source"
| "secret_error_display (RandomBytes source) = source"
| "secret_error_display (RandomNumber source) = ''get random number: '' @ source"

section \<open>Random identifiers\<close>

text \<open>\<open>fill\<close> fills a buffer of the given length.\<close>

definition new_secret :: "(nat \<Rightarrow> (string, 8 word list) result) \<Rightarrow> nat \<Rightarrow> (secret_error, secret) result" where
  "new_secret fill len = map_ok secret_from (map_err RandomBytes (fill len))"

definition new_id :: "(nat \<Rightarrow> (string, 8 word list) result) \<Rightarrow> (secret_error, string) result" where
  "new_id fill = map_ok to_hex_string (new_secret fill 16)"

definition ALPHANUMERIC :: string where
  "ALPHANUMERIC = ''abcdefghijklmnopqrstuvwxyz0123456789''"

definition sample :: "8 word \<Rightarrow> char option" where
  "sample random =
     (let candidate = unat (and random 0x3f) in
      if candidate < length ALPHANUMERIC then Some (ALPHANUMERIC ! candidate) else None)"

text \<open>
  The rejection loop may run forever on a bad source: it returns \<open>None\<close> then. The source gives the
  byte of each call, or the error that ends the loop.
\<close>

partial_function (option) sample_loop ::
  "(nat \<Rightarrow> ('e, 8 word) result) \<Rightarrow> nat \<Rightarrow> nat \<Rightarrow> string \<Rightarrow> ('e, string) result option" where
  [code]: "sample_loop fill call len value =
     (if length value < len then
        (case fill call of
           Err e \<Rightarrow> Some (Err e)
         | Ok random \<Rightarrow>
             sample_loop fill (call + 1) len
               (case sample random of Some c \<Rightarrow> value @ [c] | None \<Rightarrow> value))
      else Some (Ok value))"

definition random_alphanumeric_with ::
  "nat \<Rightarrow> (nat \<Rightarrow> ('e, 8 word) result) \<Rightarrow> ('e, string) result option" where
  "random_alphanumeric_with len fill = sample_loop fill 0 len []"

definition random_alphanumeric ::
  "nat \<Rightarrow> (nat \<Rightarrow> (string, 8 word) result) \<Rightarrow> (secret_error, string) result option" where
  "random_alphanumeric len fill = map_option (map_err RandomNumber) (random_alphanumeric_with len fill)"

section \<open>Hexadecimal text round trip\<close>

lemma hex_digit_nibble:
  assumes "n < 16"
  shows "decode_nibble (hex_digit n) = Some n"
proof -
  have "byte_of (hex_digit n) = (if n < 10 then 48 + n else 87 + n)" using assms by (simp add: hex_digit_def)
  then show ?thesis using assms by (auto simp: decode_nibble_def)
qed

lemma nibbles_join: "or (push_bit 4 (of_nat (unat b div 16))) (of_nat (unat b mod 16)) = (b :: 8 word)"
proof -
  have "unat (drop_bit 4 b) = unat b div 16" "unat (take_bit 4 b) = unat b mod 16"
    by (simp_all add: drop_bit_eq_div take_bit_eq_mod unat_div unat_mod)
  then have "of_nat (unat b div 16) = drop_bit 4 b" "of_nat (unat b mod 16) = take_bit 4 b"
    by (metis of_nat_unat ucast_id)+
  then show ?thesis
    by (auto simp: bit_eq_iff bit_simps)
qed

lemma decode_hex_encode: "decode_pairs i (hex_encode bytes) = Ok bytes"
proof (induction bytes arbitrary: i)
  case (Cons b bytes)
  have "unat b < 256" using unat_less [of b] by simp
  then have "unat b div 16 < 16" "unat b mod 16 < 16" by auto
  then show ?case using Cons.IH nibbles_join [of b] by (simp add: hex_encode_def hex_digit_nibble ok_or_def)
qed (simp add: hex_encode_def)


text \<open>
  What a decoder accepts: texts of even length made of hexadecimal digits, which it inverts up to
  the case of the letters.
\<close>

definition to_lower_hex :: "char \<Rightarrow> char" where
  "to_lower_hex c = (if 65 \<le> byte_of c \<and> byte_of c \<le> 70 then char_of (byte_of c + 32) else c)"

lemma nibble_digit:
  assumes "decode_nibble c = Some n"
  shows "hex_digit n = to_lower_hex c \<and> n < 16"
  using assms by (auto simp: decode_nibble_def hex_digit_def to_lower_hex_def Let_def split: if_splits)

lemma join_nibbles:
  assumes "high < 16" "low < 16"
  shows "unat (or (push_bit 4 (of_nat high)) (of_nat low) :: 8 word) = 16 * high + low"
proof -
  define b :: "8 word" where "b = of_nat (16 * high + low)"
  have "unat b = 16 * high + low" using assms by (simp only: b_def unat_of_nat) simp
  moreover have "or (push_bit 4 (of_nat high)) (of_nat low) = b"
    using nibbles_join [of b] assms calculation by simp
  ultimately show ?thesis by simp
qed

lemma decode_pairs_Ok:
  "decode_pairs i v = Ok bytes \<Longrightarrow> map to_lower_hex v = hex_encode bytes"
proof (induction i v arbitrary: bytes rule: decode_pairs.induct)
  case (1 index a b rest)
  then obtain high low bs where parts: "decode_nibble a = Some high" "decode_nibble b = Some low"
      "decode_pairs (index + 2) rest = Ok bs" "bytes = or (push_bit 4 (of_nat high)) (of_nat low) # bs"
    by (auto simp: rbind_eq_Ok ok_or_def split: option.splits)
  then have "map to_lower_hex rest = hex_encode bs" using 1 by (auto simp: ok_or_def)
  moreover note nibble_digit [OF parts(1)] nibble_digit [OF parts(2)]
  ultimately show ?case using join_nibbles [of high low] parts(4)
    by (simp add: hex_encode_def)
next
  case (2 index byte)
  then show ?case by (simp split: if_splits)
qed (simp add: hex_encode_def)

lemma decode_pairs_is_ok:
  "is_ok (decode_pairs i v) \<longleftrightarrow> even (length v) \<and> list_all (\<lambda>c. decode_nibble c \<noteq> None) v"
  by (induction i v rule: decode_pairs.induct) (auto simp: is_ok_def ok_or_def rbind_def split: option.splits sum.splits)

text \<open>
  Secrets survive their text. The text of a secret is read back as the same bytes, as JSON as
  well; conversely a text is accepted exactly when it has even length and only hexadecimal digits
  of either case, and the text of the result is the text that was read, with its letters in lower
  case. Two secrets are equal exactly when their texts are.
\<close>

theorem secret_hex_roundtrip:
  "from_hex_string (to_hex_string s) = Ok (Some (as_bytes s)) \<and>
   secret_deserialize (Some (secret_serialize s)) = Ok (Some (as_bytes s)) \<and>
   (is_ok (from_hex_string v) \<longleftrightarrow> even (length v) \<and> list_all (\<lambda>c. decode_nibble c \<noteq> None) v) \<and>
   (case from_hex_string v of Ok r \<Rightarrow> to_hex_string r = map to_lower_hex v | Err _ \<Rightarrow> True) \<and>
   (secret_equal s t \<longleftrightarrow> to_hex_string s = to_hex_string t)"
proof -
  have read: "from_hex_string (to_hex_string s) = Ok (Some (as_bytes s))" for s
    by (simp add: from_hex_string_def to_hex_string_def decode_hex_def decode_hex_encode)
  moreover have "is_ok (from_hex_string v) \<longleftrightarrow> even (length v) \<and> list_all (\<lambda>c. decode_nibble c \<noteq> None) v"
    using decode_pairs_is_ok [of 0 v] by (cases "decode_pairs 0 v") (simp_all add: from_hex_string_def decode_hex_def is_ok_def)
  moreover have "case from_hex_string v of Ok r \<Rightarrow> to_hex_string r = map to_lower_hex v | Err _ \<Rightarrow> True"
    using decode_pairs_Ok [of 0 v]
    by (cases "decode_pairs 0 v") (simp_all add: from_hex_string_def decode_hex_def to_hex_string_def as_bytes_def)
  moreover have "secret_equal s t \<longleftrightarrow> to_hex_string s = to_hex_string t"
  proof
    assume "to_hex_string s = to_hex_string t"
    then have "Ok (Some (as_bytes s)) = (Ok (Some (as_bytes t)) :: (secret_error, secret) result)" using read by metis
    then show "secret_equal s t" by (simp add: secret_equal_def)
  qed (simp add: secret_equal_def to_hex_string_def)
  ultimately show ?thesis by (simp add: secret_deserialize_def secret_serialize_def)
qed

section \<open>Random texts\<close>

text \<open>The accepted bytes of the first calls.\<close>

lemma sample_loop_accepts:
  assumes "\<forall>k < n. fill (call + k) = Ok (bytes k)"
    and "len \<le> length prefix + length (List.map_filter (\<lambda>k. sample (bytes k)) [0..<n])"
    and "length prefix \<le> len"
  shows "sample_loop fill call len prefix =
    Some (Ok (take len (prefix @ List.map_filter (\<lambda>k. sample (bytes k)) [0..<n])))"
  using assms
proof (induction n arbitrary: call bytes prefix)
  case 0
  then show ?case by (simp add: sample_loop.simps)
next
  case (Suc n)
  show ?case
  proof (cases "length prefix < len")
    case False
    then show ?thesis using Suc.prems(3) by (simp add: sample_loop.simps)
  next
    case True
    let ?longer = "case sample (bytes 0) of Some c \<Rightarrow> prefix @ [c] | None \<Rightarrow> prefix"
    let ?rest = "List.map_filter (\<lambda>k. sample (bytes (Suc k))) [0..<n]"
    have split: "prefix @ List.map_filter (\<lambda>k. sample (bytes k)) [0..<Suc n] = ?longer @ ?rest"
    proof -
      have "List.map_filter f [0..<Suc n] = (case f 0 of Some c \<Rightarrow> [c] | None \<Rightarrow> []) @ List.map_filter (\<lambda>k. f (Suc k)) [0..<n]"
        for f :: "nat \<Rightarrow> char option"
      proof -
        have "[0..<Suc n] = 0 # map Suc [0..<n]" by (simp add: upt_conv_Cons map_Suc_upt del: upt_Suc)
        then show ?thesis by (simp add: List.map_filter_def filter_map o_def split: option.splits)
      qed
      then show ?thesis by (simp split: option.splits)
    qed
    have "fill (call + 1 + k) = Ok (bytes (Suc k))" if "k < n" for k
      using Suc.prems(1) that by (metis Suc_less_eq add.assoc plus_1_eq_Suc)
    moreover have "len \<le> length ?longer + length ?rest"
      using Suc.prems(2) split by (metis length_append)
    ultimately have "sample_loop fill (call + 1) len ?longer = Some (Ok (take len (?longer @ ?rest)))"
      using True by (intro Suc.IH) (auto split: option.splits)
    moreover have "fill call = Ok (bytes 0)" using Suc.prems(1) by (metis add.right_neutral zero_less_Suc)
    ultimately show ?thesis using True unfolding split by (subst sample_loop.simps) simp
  qed
qed

lemma and_mask_mod: "unat (and b 0x3f :: 8 word) = unat b mod 64"
proof -
  have "and b (mask 6) = take_bit 6 b" by (simp add: take_bit_eq_mask)
  then have "and b 0x3f = b mod 64" by (simp add: mask_eq_exp_minus_1 take_bit_eq_mod)
  then show ?thesis by (simp add: unat_mod)
qed

lemma alphanumeric_length: "length ALPHANUMERIC = 36" and alphanumeric_distinct: "distinct ALPHANUMERIC"
  by (simp_all add: ALPHANUMERIC_def)

lemma sample_eq: "sample b = (if unat b mod 64 < 36 then Some (ALPHANUMERIC ! (unat b mod 64)) else None)"
  by (simp add: sample_def and_mask_mod alphanumeric_length Let_def)

text \<open>
  (C29) The generator of random names returns whenever its source supplies enough usable bytes: if
  the first calls succeed and at least as many of their bytes as letters are wanted pass the
  rejection test, the result is a text of exactly the wanted length over the 36 letters and digits.
\<close>

theorem random_alphanumeric_returns:
  assumes "\<forall>k<n. fill k = Ok (bytes k)" "len \<le> card {k. k < n \<and> unat (bytes k) mod 64 < 36}"
  shows "\<exists>s. random_alphanumeric len fill = Some (Ok s) \<and> length s = len \<and> set s \<subseteq> set ALPHANUMERIC"
proof -
  let ?accepted = "List.map_filter (\<lambda>k. sample (bytes k)) [0..<n]"
  have "length ?accepted = length (filter (\<lambda>k. unat (bytes k) mod 64 < 36) [0..<n])"
    by (simp add: List.map_filter_def sample_eq if_split [where P = "\<lambda>x. x \<noteq> None"] cong: filter_cong)
  also have "\<dots> = card {k. k < n \<and> unat (bytes k) mod 64 < 36}"
    by (simp add: length_filter_conv_card cong: conj_cong)
  finally have "len \<le> length ?accepted" using assms(2) by simp
  moreover have "set ?accepted \<subseteq> set ALPHANUMERIC"
    by (auto simp: List.map_filter_def sample_eq alphanumeric_length split: if_splits)
  ultimately show ?thesis
    using sample_loop_accepts [of n fill 0 bytes len "[]"] assms(1)
    by (auto simp: random_alphanumeric_def random_alphanumeric_with_def dest: in_set_takeD)
qed

theorem random_alphanumeric_returns_witness:
  "\<exists>s. random_alphanumeric 2 (\<lambda>k. Ok (if k = 1 then 0xff else 0x41)) = Some (Ok s) \<and> length s = 2 \<and>
    set s \<subseteq> set ALPHANUMERIC"
proof (rule random_alphanumeric_returns [where n = 3 and bytes = "\<lambda>k. if k = 1 then 0xff else 0x41"])
  have "{k. k < (3::nat) \<and> unat (if k = 1 then 0xff else 0x41 :: 8 word) mod 64 < 36} = {0, 2}"
    by (auto simp: less_Suc_eq numeral_3_eq_3)
  then show "2 \<le> card {k. k < (3::nat) \<and> unat (if k = 1 then 0xff else 0x41 :: 8 word) mod 64 < 36}" by simp
qed simp

text \<open>
  Random names are unbiased: of the 256 values of a random byte, every letter and digit is
  produced by exactly four, and the values that produce nothing are rejected, never folded onto
  other letters.
\<close>

theorem sample_unbiased:
  "card {b. sample b = Some c} = (if c \<in> set ALPHANUMERIC then 4 else 0)"
proof (cases "c \<in> set ALPHANUMERIC")
  case True
  then obtain i where i: "i < 36" "c = ALPHANUMERIC ! i"
    using alphanumeric_length by (metis in_set_conv_nth)
  let ?f = "\<lambda>k. of_nat (i + 64 * k) :: 8 word"
  have unat: "unat (?f k) = i + 64 * k" if "k < 4" for k
    using i(1) that by (simp only: unat_of_nat) simp
  have "sample b = Some c \<longleftrightarrow> unat b mod 64 = i" for b
    using i alphanumeric_distinct alphanumeric_length by (auto simp: sample_eq nth_eq_iff_index_eq)
  moreover have "unat b mod 64 = i \<longleftrightarrow> b \<in> ?f ` {..<4}" for b
  proof
    assume "unat b mod 64 = i"
    then have b: "unat b = i + 64 * (unat b div 64)" using mod_mult_div_eq [of "unat b" 64] by simp
    have "unat b div 64 < 4" using unat_less [of b] by simp
    moreover have "b = ?f (unat b div 64)" using b by (metis of_nat_unat ucast_id)
    ultimately show "b \<in> ?f ` {..<4}" by blast
  next
    assume "b \<in> ?f ` {..<4}"
    then show "unat b mod 64 = i" using unat i(1) by auto
  qed
  ultimately have "{b. sample b = Some c} = ?f ` {..<4}" by auto
  moreover have "inj_on ?f {..<4}"
    by (rule inj_onI) (metis unat add_left_cancel lessThan_iff mult_cancel1 zero_neq_numeral)
  ultimately show ?thesis using True by (simp add: card_image)
next
  case False
  then have "{b. sample b = Some c} = {}" by (auto simp: sample_eq alphanumeric_length)
  then show ?thesis using False by simp
qed

end
