(* ===== verification/Peer.thy ===== *)
theory Peer
  imports Secret Address
begin

text \<open>
  The state the machine keeps for each WireGuard peer (\<open>peer.rs\<close> and \<open>config.rs\<close> of the network
  crate): when a peer counts as up or down, and which endpoint is tried next. Endpoints are shared
  references in the code, and two of its tests compare the references and not the addresses: a
  reference is a location with the address stored there. Times are nanoseconds since the epoch,
  durations nanoseconds.
\<close>

section \<open>Data\<close>

type_synonym socket_addr = "ip_addr \<times> 16 word"

record arc =
  arc_location :: nat
  arc_socket :: socket_addr

text \<open>Prefixes are a type of the address library.\<close>

record 'net peer_config =
  pc_subnet :: "'net option"
  pc_management_ip :: "ip_addr option"
  pc_endpoint :: "arc option"
  pc_all_endpoints :: "arc list"
  pc_public_key :: "secret option"

record device_peer_snapshot =
  ds_endpoint :: "socket_addr option"
  ds_last_handshake_time :: "int option"
  ds_receive_bytes :: "64 word"
  ds_transmit_bytes :: "64 word"

datatype peer_status = PeerUnknown | PeerUp | PeerDown

fun peer_status_str :: "peer_status \<Rightarrow> string" where
  "peer_status_str PeerUnknown = ''unknown''"
| "peer_status_str PeerUp = ''up''"
| "peer_status_str PeerDown = ''down''"

record 'net peer =
  pe_config :: "'net peer_config"
  pe_last_endpoint_change_time :: "int option"
  pe_last_handshake_time :: "int option"
  pe_receive_bytes :: int
  pe_transmit_bytes :: int
  pe_status :: peer_status

definition ENDPOINT_CONNECTION_TIMEOUT :: int where
  "ENDPOINT_CONNECTION_TIMEOUT = 15 * 1000000000"

definition PEER_DOWN_INTERVAL :: int where
  "PEER_DOWN_INTERVAL = (180 + 5 + 90) * 1000000000"

definition DURATION_MAX :: int where
  "DURATION_MAX = 2 ^ 64 * 1000000000 - 1"

section \<open>Operations\<close>

definition ptr_eq :: "arc \<Rightarrow> arc \<Rightarrow> bool" where
  "ptr_eq a b \<longleftrightarrow> arc_location a = arc_location b"

definition same_endpoint_pointer :: "arc option \<Rightarrow> arc option \<Rightarrow> bool" where
  "same_endpoint_pointer left right =
     (case (left, right) of
        (Some left, Some right) \<Rightarrow> ptr_eq left right
      | (None, None) \<Rightarrow> True
      | _ \<Rightarrow> False)"

definition elapsed_since :: "int \<Rightarrow> int option \<Rightarrow> int" where
  "elapsed_since now instant = (case instant of Some instant \<Rightarrow> max 0 (now - instant) | None \<Rightarrow> DURATION_MAX)"

definition is_after :: "int option \<Rightarrow> int option \<Rightarrow> bool" where
  "is_after left right =
     (case (left, right) of
        (Some left, Some right) \<Rightarrow> left > right
      | (Some _, None) \<Rightarrow> True
      | _ \<Rightarrow> False)"

definition peer_new_at :: "'net peer_config \<Rightarrow> device_peer_snapshot option \<Rightarrow> int \<Rightarrow> 'net peer" where
  "peer_new_at config device_peer now =
     \<lparr>pe_config = config,
      pe_last_endpoint_change_time = Option.bind (pc_endpoint config) (\<lambda>endpoint.
        if Option.bind device_peer ds_endpoint = Some (arc_socket endpoint) then None else Some now),
      pe_last_handshake_time = None, pe_receive_bytes = 0, pe_transmit_bytes = 0, pe_status = PeerUnknown\<rparr>"

definition update_config_at :: "'net peer \<Rightarrow> 'net peer_config \<Rightarrow> int \<Rightarrow> 'net peer" where
  "update_config_at p config now =
     (if \<not> same_endpoint_pointer (pc_endpoint (pe_config p)) (pc_endpoint config)
      then p\<lparr>pe_last_endpoint_change_time := Some now, pe_status := PeerUnknown\<rparr> else p)\<lparr>pe_config := config\<rparr>"

definition status_at :: "'net peer \<Rightarrow> int \<Rightarrow> peer_status" where
  "status_at p now =
     (let since_last_handshake = elapsed_since now (pe_last_handshake_time p);
          since_endpoint_change = elapsed_since now (pe_last_endpoint_change_time p);
          handshake_after_endpoint = is_after (pe_last_handshake_time p) (pe_last_endpoint_change_time p)
      in if since_endpoint_change > PEER_DOWN_INTERVAL then
           (if since_last_handshake < PEER_DOWN_INTERVAL then PeerUp else PeerDown)
         else if since_endpoint_change < ENDPOINT_CONNECTION_TIMEOUT then
           (if handshake_after_endpoint then PeerUp else PeerUnknown)
         else if handshake_after_endpoint then PeerUp
         else PeerDown)"

definition calculate_status_at :: "'net peer \<Rightarrow> int \<Rightarrow> 'net peer" where
  "calculate_status_at p now =
     (let status = status_at p now in
      p\<lparr>pe_status := (if status = PeerDown \<and> pc_endpoint (pe_config p) = None then PeerUnknown else status)\<rparr>)"

text \<open>
  A new reference is allocated at the location \<open>fresh\<close>. The counters are cast to signed ones.
\<close>

definition update_from_device :: "nat \<Rightarrow> int \<Rightarrow> 'net peer \<Rightarrow> device_peer_snapshot \<Rightarrow> bool \<times> 'net peer" where
  "update_from_device fresh now p device_peer =
     (let (endpoint_changed, p) =
        (case ds_endpoint device_peer of
           Some endpoint \<Rightarrow>
             if map_option arc_socket (pc_endpoint (pe_config p)) \<noteq> Some endpoint
             then (True, p\<lparr>pe_config := (pe_config p)\<lparr>pc_endpoint := Some \<lparr>arc_location = fresh, arc_socket = endpoint\<rparr>\<rparr>,
                          pe_last_endpoint_change_time := None\<rparr>)
             else (False, p)
         | None \<Rightarrow> (False, p));
          p = p\<lparr>pe_last_handshake_time := ds_last_handshake_time device_peer,
                pe_receive_bytes := sint (ds_receive_bytes device_peer),
                pe_transmit_bytes := sint (ds_transmit_bytes device_peer)\<rparr>
      in (endpoint_changed, calculate_status_at p now))"

fun position :: "('a \<Rightarrow> bool) \<Rightarrow> 'a list \<Rightarrow> nat option" where
  "position P [] = None"
| "position P (x # xs) = (if P x then Some 0 else map_option Suc (position P xs))"

definition should_change_endpoint :: "'net peer \<Rightarrow> socket_addr option" where
  "should_change_endpoint p =
     (let config = pe_config p; all = pc_all_endpoints config in
      if pc_endpoint config \<noteq> None \<and> pe_status p \<noteq> PeerDown then None
      else
        (case all of
           [] \<Rightarrow> None
         | first # _ \<Rightarrow>
             (case pc_endpoint config of
                None \<Rightarrow> Some (arc_socket first)
              | Some current \<Rightarrow>
                  if length all = 1 \<and> ptr_eq current first then None
                  else
                    (let index = position (\<lambda>endpoint. arc_socket endpoint = arc_socket current) all;
                         next_index = (case index of Some i \<Rightarrow> i + 1 | None \<Rightarrow> 0)
                     in Some (arc_socket (all ! (next_index mod length all)))))))"

definition key_string :: "'net peer_config \<Rightarrow> (string, string) result" where
  "key_string c = ok_or ''peer public key is absent'' (map_option to_hex_string (pc_public_key c))"

section \<open>The status\<close>

lemma elapsed_Some: "elapsed_since now (Some t) = max 0 (now - t)"
  by (simp add: elapsed_since_def)

lemmas peer_times = ENDPOINT_CONNECTION_TIMEOUT_def PEER_DOWN_INTERVAL_def DURATION_MAX_def

text \<open>No handshake since the endpoint was set.\<close>

definition silent_since :: "int option \<Rightarrow> int \<Rightarrow> bool" where
  "silent_since handshake t = (case handshake of None \<Rightarrow> True | Some h \<Rightarrow> h \<le> t)"

lemma status_silent:
  assumes "pe_last_endpoint_change_time p = Some t" "silent_since (pe_last_handshake_time p) t"
    and "t + ENDPOINT_CONNECTION_TIMEOUT \<le> now"
  shows "status_at p now = PeerDown"
  using assms
  by (auto simp: status_at_def Let_def elapsed_since_def is_after_def silent_since_def peer_times split: option.splits)

lemma status_early:
  assumes "pe_last_endpoint_change_time p = Some t" "silent_since (pe_last_handshake_time p) t"
    and "now < t + ENDPOINT_CONNECTION_TIMEOUT"
  shows "status_at p now = PeerUnknown"
  using assms
  by (auto simp: status_at_def Let_def elapsed_since_def is_after_def silent_since_def peer_times split: option.splits)

lemma position_nth: "distinct (map f xs) \<Longrightarrow> i < length xs \<Longrightarrow> position (\<lambda>x. f x = f (xs ! i)) xs = Some i"
proof (induction xs arbitrary: i)
  case (Cons x xs)
  then show ?case by (cases i) auto
qed simp

section \<open>A peer that does not answer\<close>

text \<open>
  One turn of the control loop for a peer: the status of the device is read, and a peer that is down
  is given its next endpoint.
\<close>

definition peer_tick :: "nat \<Rightarrow> int \<Rightarrow> device_peer_snapshot \<Rightarrow> 'net peer \<Rightarrow> 'net peer" where
  "peer_tick fresh now device_peer p =
     (let p = snd (update_from_device fresh now p device_peer) in
      case should_change_endpoint p of
        None \<Rightarrow> p
      | Some endpoint \<Rightarrow>
          update_config_at p ((pe_config p)\<lparr>pc_endpoint := Some \<lparr>arc_location = Suc fresh, arc_socket = endpoint\<rparr>\<rparr>) now)"

text \<open>What the device reports for a peer that sends nothing: the endpoint it was given.\<close>

definition quiet_device :: "int option \<Rightarrow> 'net peer \<Rightarrow> device_peer_snapshot" where
  "quiet_device handshake p =
     \<lparr>ds_endpoint = map_option arc_socket (pc_endpoint (pe_config p)), ds_last_handshake_time = handshake,
      ds_receive_bytes = 0, ds_transmit_bytes = 0\<rparr>"

fun quiet_run :: "int option \<Rightarrow> 'net peer \<Rightarrow> (int \<times> nat) list \<Rightarrow> 'net peer" where
  "quiet_run handshake p [] = p"
| "quiet_run handshake p ((now, fresh) # ticks) =
     quiet_run handshake (peer_tick fresh now (quiet_device handshake p) p) ticks"

text \<open>
  New references have new locations. The turns that come at least the connection timeout after the last
  change of the endpoint, which is the first time \<open>t\<close> and then each of these turns.
\<close>

fun fresh_locations :: "nat \<Rightarrow> (int \<times> nat) list \<Rightarrow> bool" where
  "fresh_locations location [] = True"
| "fresh_locations location ((_, fresh) # ticks) \<longleftrightarrow> location \<le> fresh \<and> fresh_locations (Suc fresh) ticks"

fun timeouts :: "int \<Rightarrow> (int \<times> nat) list \<Rightarrow> nat" where
  "timeouts t [] = 0"
| "timeouts t ((now, _) # ticks) =
     (if t + ENDPOINT_CONNECTION_TIMEOUT \<le> now then Suc (timeouts now ticks) else timeouts t ticks)"

lemma timeouts_all: "m \<le> timeouts t ticks \<Longrightarrow> \<exists>k\<le>length ticks. timeouts t (take k ticks) = m"
proof (induction t ticks arbitrary: m rule: timeouts.induct)
  case (2 t now fresh ticks)
  show ?case
  proof (cases "t + ENDPOINT_CONNECTION_TIMEOUT \<le> now")
    case True
    show ?thesis
    proof (cases m)
      case 0
      then show ?thesis by (intro exI [of _ 0]) simp
    next
      case (Suc m')
      then obtain k where "k \<le> length ticks" "timeouts now (take k ticks) = m'" using 2 True by auto
      then show ?thesis using True Suc by (intro exI [of _ "Suc k"]) simp
    qed
  next
    case False
    then obtain k where "k \<le> length ticks" "timeouts t (take k ticks) = m" using 2 by auto
    then show ?thesis using False by (intro exI [of _ "Suc k"]) simp
  qed
qed simp

lemma timeouts_take: "timeouts t (take k ticks) \<le> timeouts t ticks"
proof (induction t ticks arbitrary: k rule: timeouts.induct)
  case (2 t now fresh ticks)
  then show ?case by (cases k) auto
qed simp

lemma fresh_locations_mono: "fresh_locations l ticks \<Longrightarrow> l' \<le> l \<Longrightarrow> fresh_locations l' ticks"
  by (cases ticks) auto

lemma fresh_locations_take: "fresh_locations l ticks \<Longrightarrow> fresh_locations l (take k ticks)"
  by (induction l ticks arbitrary: k rule: fresh_locations.induct) (auto simp: take_Cons split: nat.splits)

lemma silent_since_mono: "silent_since h t \<Longrightarrow> t \<le> t' \<Longrightarrow> silent_since h t'"
  by (auto simp: silent_since_def split: option.splits)

lemma quiet_tick:
  fixes p :: "'net peer"
  defines "all \<equiv> pc_all_endpoints (pe_config p)"
  assumes distinct: "distinct (map arc_socket all)" "2 \<le> length all" "i < length all"
    and endpoint: "pc_endpoint (pe_config p) = Some a" "arc_socket a = arc_socket (all ! i)" "arc_location a \<le> fresh"
    and change: "pe_last_endpoint_change_time p = Some t" "silent_since h t" "t + ENDPOINT_CONNECTION_TIMEOUT \<le> now"
  shows "peer_tick fresh now (quiet_device h p) p =
    p\<lparr>pe_config := (pe_config p)\<lparr>pc_endpoint := Some \<lparr>arc_location = Suc fresh, arc_socket = arc_socket (all ! (Suc i mod length all))\<rparr>\<rparr>,
      pe_last_endpoint_change_time := Some now, pe_last_handshake_time := h, pe_receive_bytes := 0,
      pe_transmit_bytes := 0, pe_status := PeerUnknown\<rparr>"
proof -
  define q where "q = p\<lparr>pe_last_handshake_time := h, pe_receive_bytes := 0, pe_transmit_bytes := 0, pe_status := PeerDown\<rparr>"
  have "status_at (p\<lparr>pe_last_handshake_time := h, pe_receive_bytes := 0, pe_transmit_bytes := 0\<rparr>) now = PeerDown"
    using change by (intro status_silent [where t = t]) simp_all
  then have update: "snd (update_from_device fresh now p (quiet_device h p)) = q"
    using endpoint(1) by (simp add: update_from_device_def quiet_device_def calculate_status_at_def q_def)
  have "position (\<lambda>e. arc_socket e = arc_socket a) all = Some i"
    using position_nth [OF distinct(1,3)] endpoint(2) by simp
  then have "should_change_endpoint q = Some (arc_socket (all ! (Suc i mod length all)))"
    using distinct(2) endpoint(1) unfolding should_change_endpoint_def q_def all_def
    by (cases "pc_all_endpoints (pe_config p)") (auto simp: Let_def)
  then show ?thesis
    using endpoint unfolding peer_tick_def Let_def update
    by (simp add: update_config_at_def same_endpoint_pointer_def ptr_eq_def q_def)
qed

text \<open>Before the timeout a turn only records what the device reports.\<close>

lemma quiet_tick_early:
  assumes "pc_endpoint (pe_config p) = Some a" "pe_last_endpoint_change_time p = Some t" "silent_since h t"
    and "now < t + ENDPOINT_CONNECTION_TIMEOUT"
  shows "peer_tick fresh now (quiet_device h p) p =
    p\<lparr>pe_last_handshake_time := h, pe_receive_bytes := 0, pe_transmit_bytes := 0, pe_status := PeerUnknown\<rparr>"
proof -
  have "status_at (p\<lparr>pe_last_handshake_time := h, pe_receive_bytes := 0, pe_transmit_bytes := 0\<rparr>) now = PeerUnknown"
    using assms by (intro status_early [where t = t]) simp_all
  then have "snd (update_from_device fresh now p (quiet_device h p)) =
      p\<lparr>pe_last_handshake_time := h, pe_receive_bytes := 0, pe_transmit_bytes := 0, pe_status := PeerUnknown\<rparr>"
    using assms(1) by (simp add: update_from_device_def quiet_device_def calculate_status_at_def)
  then show ?thesis using assms(1) by (simp add: peer_tick_def should_change_endpoint_def)
qed

lemma quiet_run_endpoint:
  assumes "distinct (map arc_socket (pc_all_endpoints (pe_config p)))" "2 \<le> length (pc_all_endpoints (pe_config p))"
    and "i < length (pc_all_endpoints (pe_config p))"
    and "pc_endpoint (pe_config p) = Some a" "arc_socket a = arc_socket (pc_all_endpoints (pe_config p) ! i)"
    and "pe_last_endpoint_change_time p = Some t" "silent_since h t" "fresh_locations (arc_location a) ticks"
  shows "map_option arc_socket (pc_endpoint (pe_config (quiet_run h p ticks))) =
    Some (arc_socket (pc_all_endpoints (pe_config p) ! ((i + timeouts t ticks) mod length (pc_all_endpoints (pe_config p)))))"
  using assms
proof (induction ticks arbitrary: p a i t)
  case Nil
  then show ?case by simp
next
  case (Cons tick ticks)
  obtain now fresh where tick: "tick = (now, fresh)" by (cases tick)
  let ?all = "pc_all_endpoints (pe_config p)"
  let ?n = "length ?all" and ?i = "Suc i mod length ?all"
  define q where "q = peer_tick fresh now (quiet_device h p) p"
  show ?case
  proof (cases "t + ENDPOINT_CONNECTION_TIMEOUT \<le> now")
    case True
    have q: "q = p\<lparr>pe_config := (pe_config p)\<lparr>pc_endpoint := Some \<lparr>arc_location = Suc fresh, arc_socket = arc_socket (?all ! ?i)\<rparr>\<rparr>,
        pe_last_endpoint_change_time := Some now, pe_last_handshake_time := h, pe_receive_bytes := 0,
        pe_transmit_bytes := 0, pe_status := PeerUnknown\<rparr>"
      unfolding q_def using Cons.prems tick True by (intro quiet_tick [where a = a and t = t]) simp_all
    have "0 \<le> ENDPOINT_CONNECTION_TIMEOUT" by (simp add: peer_times)
    then have "silent_since h now" using Cons.prems(7) True silent_since_mono [of h t now] by simp
    moreover have "?i < ?n" using Cons.prems(2) by (intro mod_less_divisor) linarith
    ultimately have "map_option arc_socket (pc_endpoint (pe_config (quiet_run h q ticks))) =
        Some (arc_socket (?all ! ((?i + timeouts now ticks) mod ?n)))"
      using Cons.IH [of q ?i "\<lparr>arc_location = Suc fresh, arc_socket = arc_socket (?all ! ?i)\<rparr>" now] Cons.prems tick q by simp
    moreover have "(?i + timeouts now ticks) mod ?n = (i + timeouts t (tick # ticks)) mod ?n" using True by (simp add: tick mod_simps)
    ultimately show ?thesis by (simp add: tick q_def)
  next
    case False
    then have q: "q = p\<lparr>pe_last_handshake_time := h, pe_receive_bytes := 0, pe_transmit_bytes := 0, pe_status := PeerUnknown\<rparr>"
      unfolding q_def using Cons.prems by (intro quiet_tick_early [where a = a and t = t]) simp_all
    have "fresh_locations (arc_location a) ticks" using Cons.prems(8) tick fresh_locations_mono by auto
    then have "map_option arc_socket (pc_endpoint (pe_config (quiet_run h q ticks))) =
        Some (arc_socket (?all ! ((i + timeouts t ticks) mod ?n)))"
      using Cons.IH [of q i a t] Cons.prems q by simp
    then show ?thesis using False by (simp add: tick q_def)
  qed
qed

lemma rotation_all:
  assumes "i < (n :: nat)" "n \<le> Suc m"
  shows "(\<lambda>k. (i + k) mod n) ` {..m} = {..<n}"
proof
  show "{..<n} \<subseteq> (\<lambda>k. (i + k) mod n) ` {..m}"
  proof
    fix j assume "j \<in> {..<n}"
    then have j: "j < n" by simp
    show "j \<in> (\<lambda>k. (i + k) mod n) ` {..m}"
    proof (cases "i \<le> j")
      case True
      then show ?thesis using assms j by (intro image_eqI [of _ _ "j - i"]) simp_all
    next
      case False
      then have "(i + (n - i + j)) mod n = j" using j assms(1) by simp
      then show ?thesis using False assms by (intro image_eqI [of _ _ "n - i + j"]) simp_all
    qed
  qed
qed (use assms in auto)

text \<open>
  (C33) A peer that does not answer is tried at every endpoint. Let a peer have at least two endpoints,
  all distinct, be set to one of them, and let no handshake have happened since. The control loop comes
  round at any times. A turn less than the connection timeout (15 seconds) after the last change leaves
  the endpoint alone; each later one moves the peer to the next endpoint of its list, from the last one to
  the first. Hence after as many such turns as there are other endpoints, every one of them has been in
  use.
\<close>

theorem silent_peer_tries_every_endpoint:
  assumes "distinct (map arc_socket (pc_all_endpoints (pe_config p)))" "2 \<le> length (pc_all_endpoints (pe_config p))"
    and "i < length (pc_all_endpoints (pe_config p))"
    and "pc_endpoint (pe_config p) = Some a" "arc_socket a = arc_socket (pc_all_endpoints (pe_config p) ! i)"
    and "pe_last_endpoint_change_time p = Some t" "silent_since h t" "fresh_locations (arc_location a) ticks"
    and "length (pc_all_endpoints (pe_config p)) \<le> Suc (timeouts t ticks)"
  shows "map_option arc_socket (pc_endpoint (pe_config (quiet_run h p ticks))) =
      Some (arc_socket (pc_all_endpoints (pe_config p) ! ((i + timeouts t ticks) mod length (pc_all_endpoints (pe_config p)))))
    \<and> {map_option arc_socket (pc_endpoint (pe_config (quiet_run h p (take k ticks)))) | k. k \<le> length ticks} =
      Some ` arc_socket ` set (pc_all_endpoints (pe_config p))"
proof
  let ?all = "pc_all_endpoints (pe_config p)"
  let ?n = "length ?all"
  let ?used = "\<lambda>k. map_option arc_socket (pc_endpoint (pe_config (quiet_run h p (take k ticks))))"
  let ?at = "\<lambda>k. Some (arc_socket (?all ! ((i + k) mod ?n)))"
  have at: "?used k = ?at (timeouts t (take k ticks))" for k
    using quiet_run_endpoint [OF assms(1-7) fresh_locations_take [OF assms(8)], of k] .
  from at [of "length ticks"] show "map_option arc_socket (pc_endpoint (pe_config (quiet_run h p ticks))) = ?at (timeouts t ticks)" by simp
  have "{?used k | k. k \<le> length ticks} = ?at ` {timeouts t (take k ticks) | k. k \<le> length ticks}" unfolding at by blast
  also have "{timeouts t (take k ticks) | k. k \<le> length ticks} = {..timeouts t ticks}" using timeouts_all timeouts_take by fastforce
  also have "?at ` {..timeouts t ticks} = (\<lambda>j. Some (arc_socket (?all ! j))) ` (\<lambda>k. (i + k) mod ?n) ` {..timeouts t ticks}"
    by (simp only: image_image)
  also have "\<dots> = (\<lambda>j. Some (arc_socket (?all ! j))) ` {..<?n}" using rotation_all [OF assms(3,9)] by simp
  also have "\<dots> = Some ` arc_socket ` set ?all" by (auto simp: set_conv_nth image_iff)
  finally show "{?used k | k. k \<le> length ticks} = Some ` arc_socket ` set ?all" .
qed

definition demo_peer :: "nat peer" where
  "demo_peer =
     (let a = \<lparr>arc_location = 0, arc_socket = (V4 1, 51820)\<rparr>; b = \<lparr>arc_location = 1, arc_socket = (V4 2, 51820)\<rparr>
      in peer_new_at \<lparr>pc_subnet = None, pc_management_ip = None, pc_endpoint = Some a, pc_all_endpoints = [a, b],
           pc_public_key = None\<rparr> None 0)"

definition demo_ticks :: "(int \<times> nat) list" where
  "demo_ticks = [(1000000000, 2), (14000000000, 3), (15000000000, 4), (16000000000, 6)]"

theorem silent_peer_tries_every_endpoint_witness:
  "map_option arc_socket (pc_endpoint (pe_config (quiet_run None demo_peer demo_ticks))) = Some (V4 2, 51820)
   \<and> {map_option arc_socket (pc_endpoint (pe_config (quiet_run None demo_peer (take k demo_ticks)))) | k. k \<le> length demo_ticks} =
     {Some (V4 1, 51820), Some (V4 2, 51820)}"
  using silent_peer_tries_every_endpoint [of demo_peer 0 "\<lparr>arc_location = 0, arc_socket = (V4 1, 51820)\<rparr>" 0 None demo_ticks]
  by (simp add: demo_peer_def demo_ticks_def peer_new_at_def silent_since_def peer_times Let_def)

end
