(* ===== verification/Routes.thy ===== *)
theory Routes
  imports Ipam Peer "HOL-Library.Product_Lexorder"
begin

text \<open>
  The routes of the WireGuard interface (\<open>compact_prefixes\<close> of \<open>wireguard_linux.rs\<close>): the prefixes
  of all peers are truncated, those inside another one are dropped, and siblings are merged, until
  nothing changes. Prefixes are a type of the address library; its operations are a record that the
  code is given, with the laws that its documentation states.
\<close>

section \<open>Compaction\<close>

record 'n net_ops =
  net_trunc :: "'n \<Rightarrow> 'n"
  net_addr :: "'n \<Rightarrow> ip_addr"
  net_prefix_len :: "'n \<Rightarrow> nat"
  net_contains :: "'n \<Rightarrow> 'n \<Rightarrow> bool"
  net_is_sibling :: "'n \<Rightarrow> 'n \<Rightarrow> bool"
  net_supernet :: "'n \<Rightarrow> 'n option"
  net_network :: "'n \<Rightarrow> ip_addr"
  net_new :: "ip_addr \<Rightarrow> nat \<Rightarrow> (string, 'n) result"
  net_to_string :: "'n \<Rightarrow> string"
  net_from_str :: "string \<Rightarrow> (string, 'n) result"

text \<open>The sort key: IPv4 addresses come before IPv6 addresses.\<close>

definition net_key :: "'n net_ops \<Rightarrow> 'n \<Rightarrow> nat \<times> nat \<times> nat" where
  "net_key net n = (if is_ipv4 (net_addr net n) then 0 else 1, unat (to_u128 (net_addr net n)), net_prefix_len net n)"

definition inside_another :: "'n net_ops \<Rightarrow> 'n list \<Rightarrow> 'n \<Rightarrow> bool" where
  "inside_another net snapshot prefix \<longleftrightarrow> list_ex (\<lambda>other. other \<noteq> prefix \<and> net_contains net other prefix) snapshot"

text \<open>The first pair of siblings, in the order of the two loops.\<close>

fun sibling_pair :: "'n net_ops \<Rightarrow> 'n list \<Rightarrow> (nat \<times> nat) option" where
  "sibling_pair net [] = None"
| "sibling_pair net (p # ps) =
     (case position (net_is_sibling net p) ps of
        Some j \<Rightarrow> Some (0, Suc j)
      | None \<Rightarrow> map_option (\<lambda>(l, r). (Suc l, Suc r)) (sibling_pair net ps))"

definition remove_nth :: "nat \<Rightarrow> 'a list \<Rightarrow> 'a list" where
  "remove_nth i xs = take i xs @ drop (Suc i) xs"

definition merge_siblings :: "'n net_ops \<Rightarrow> 'n list \<Rightarrow> nat \<Rightarrow> nat \<Rightarrow> 'n list" where
  "merge_siblings net prefixes left right =
     remove_nth left (remove_nth right prefixes) @
     (case net_supernet net (prefixes ! left) of Some supernet \<Rightarrow> [supernet] | None \<Rightarrow> [])"

lemma position_Some: "position P xs = Some i \<Longrightarrow> i < length xs \<and> P (xs ! i)"
  by (induction xs arbitrary: i) (auto split: if_splits)

lemma position_None: "position P xs = None \<longleftrightarrow> (\<forall>x\<in>set xs. \<not> P x)"
  by (induction xs) auto

lemma sibling_pair_Some:
  "sibling_pair net ps = Some (l, r) \<Longrightarrow> l < r \<and> r < length ps \<and> net_is_sibling net (ps ! l) (ps ! r)"
  by (induction ps arbitrary: l r) (auto split: option.splits dest!: position_Some)

lemma sibling_pair_None: "sibling_pair net ps = None \<longleftrightarrow> sorted_wrt (\<lambda>p q. \<not> net_is_sibling net p q) ps"
  by (induction ps) (simp_all add: position_None [symmetric] split: option.splits)

lemma length_remove_nth: "i < length xs \<Longrightarrow> length (remove_nth i xs) = length xs - 1"
  by (simp add: remove_nth_def)

lemma set_remove_nth: "i < length xs \<Longrightarrow> set xs = insert (xs ! i) (set (remove_nth i xs))"
  by (subst id_take_nth_drop [of i xs]) (simp_all add: remove_nth_def)

lemma set_remove_two:
  assumes "l < r" "r < length xs"
  shows "set xs = insert (xs ! l) (insert (xs ! r) (set (remove_nth l (remove_nth r xs))))"
proof -
  have "remove_nth r xs ! l = xs ! l" "l < length (remove_nth r xs)"
    using assms by (simp_all add: remove_nth_def nth_append)
  then show ?thesis using set_remove_nth [OF assms(2)] set_remove_nth [of l "remove_nth r xs"] by auto
qed

lemma length_merge_siblings:
  "sibling_pair net ps = Some (l, r) \<Longrightarrow> length (merge_siblings net ps l r) < length ps"
  by (auto dest!: sibling_pair_Some simp: merge_siblings_def length_remove_nth split: option.splits)

function compact_loop :: "'n net_ops \<Rightarrow> 'n list \<Rightarrow> 'n list" where
  "compact_loop net prefixes =
     (let prefixes = remdups_adj (sort_key (net_key net) prefixes) in
      if list_ex (inside_another net prefixes) prefixes
      then compact_loop net (filter (\<lambda>p. \<not> inside_another net prefixes p) prefixes)
      else (case sibling_pair net prefixes of
              None \<Rightarrow> prefixes
            | Some (left, right) \<Rightarrow> compact_loop net (merge_siblings net prefixes left right)))"
  by pat_completeness auto
termination
proof (relation "measure (\<lambda>(net, prefixes). length prefixes)", simp)
  fix net :: "'n net_ops" and prefixes ps :: "'n list"
  assume ps: "ps = remdups_adj (sort_key (net_key net) prefixes)"
  have le: "length ps \<le> length prefixes" unfolding ps by (metis length_sort remdups_adj_length)
  assume "list_ex (inside_another net ps) ps"
  then have "length (filter (\<lambda>p. \<not> inside_another net ps p) ps) < length ps"
    by (auto simp: list_ex_iff intro: length_filter_less)
  with le show "((net, filter (\<lambda>p. \<not> inside_another net ps p) ps), net, prefixes) \<in> measure (\<lambda>(net, prefixes). length prefixes)"
    by simp
next
  fix net :: "'n net_ops" and prefixes ps :: "'n list" and pair :: "nat \<times> nat" and left right
  assume ps: "ps = remdups_adj (sort_key (net_key net) prefixes)" and pair: "sibling_pair net ps = Some pair" "(left, right) = pair"
  have le: "length ps \<le> length prefixes" unfolding ps by (metis length_sort remdups_adj_length)
  have "length (merge_siblings net ps left right) < length ps" using length_merge_siblings pair by metis
  with le show "((net, merge_siblings net ps left right), net, prefixes) \<in> measure (\<lambda>(net, prefixes). length prefixes)"
    by simp
qed

declare compact_loop.simps [simp del]

definition compact_prefixes :: "'n net_ops \<Rightarrow> 'n list \<Rightarrow> 'n list" where
  "compact_prefixes net prefixes = compact_loop net (map (net_trunc net) prefixes)"

section \<open>The laws of prefixes\<close>

text \<open>The specification: a list of prefixes that covers exactly the given addresses, no prefix meeting
  another and no two of them siblings.\<close>

definition minimal_cover :: "'n net_ops \<Rightarrow> ('n \<Rightarrow> ip_addr set) \<Rightarrow> ip_addr set \<Rightarrow> 'n list \<Rightarrow> bool" where
  "minimal_cover net covers addresses qs \<longleftrightarrow> \<Union> (covers ` set qs) = addresses \<and> distinct qs
     \<and> pairwise (\<lambda>p q. covers p \<inter> covers q = {}) (set qs) \<and> sorted_wrt (\<lambda>p q. \<not> net_is_sibling net p q) qs"

text \<open>
  What the address library promises: a prefix stands for a set of addresses; truncation keeps it and
  leads to the normal form \<open>ok\<close>, in which the set determines the prefix and the key; prefixes are
  nested or disjoint; and the supernet of two siblings is their union.
\<close>

locale ip_net_laws =
  fixes net :: "'n net_ops" and covers :: "'n \<Rightarrow> ip_addr set" and valid ok :: "'n \<Rightarrow> bool"
  assumes trunc: "valid p \<Longrightarrow> ok (net_trunc net p) \<and> covers (net_trunc net p) = covers p"
    and contains_iff: "ok p \<Longrightarrow> ok q \<Longrightarrow> net_contains net p q \<longleftrightarrow> covers q \<subseteq> covers p"
    and nested: "ok p \<Longrightarrow> ok q \<Longrightarrow> covers p \<subseteq> covers q \<or> covers q \<subseteq> covers p \<or> covers p \<inter> covers q = {}"
    and covers_inject: "ok p \<Longrightarrow> ok q \<Longrightarrow> covers p = covers q \<Longrightarrow> p = q"
    and key_inject: "ok p \<Longrightarrow> ok q \<Longrightarrow> net_key net p = net_key net q \<Longrightarrow> p = q"
    and siblings: "ok p \<Longrightarrow> ok q \<Longrightarrow> p \<noteq> q \<Longrightarrow> net_is_sibling net p q \<Longrightarrow>
      \<exists>s. net_supernet net p = Some s \<and> ok s \<and> covers s = covers p \<union> covers q"
begin

abbreviation covered :: "'n list \<Rightarrow> ip_addr set" where
  "covered ps \<equiv> \<Union> (covers ` set ps)"

lemma sorted_key_distinct:
  assumes "sorted (map f ys)" "inj_on f (set ys)"
  shows "distinct (remdups_adj ys)"
  using assms
proof (induction ys rule: remdups_adj.induct)
  case (3 x y xs)
  show ?case
  proof (cases "x = y")
    case True
    with 3 show ?thesis by simp
  next
    case False
    have "x \<notin> set (y # xs)"
    proof
      assume "x \<in> set (y # xs)"
      then have "x \<in> set xs" using False by simp
      then have "f y \<le> f x" "f x \<le> f y" using "3.prems"(1) by auto
      then show False using "3.prems"(2) False by (auto simp: inj_on_def)
    qed
    moreover have "distinct (remdups_adj (y # xs))" using 3 False by simp
    ultimately show ?thesis using False by (simp del: remdups_adj.simps(1,2))
  qed
qed simp_all

lemma normalise:
  assumes "list_all ok ps"
  defines "qs \<equiv> remdups_adj (sort_key (net_key net) ps)"
  shows "distinct qs" "set qs = set ps"
proof -
  have inj: "inj_on (net_key net) (set (sort_key (net_key net) ps))"
    using assms(1) key_inject by (auto simp: inj_on_def list_all_iff)
  show "distinct qs" unfolding qs_def by (rule sorted_key_distinct [OF sorted_sort_key inj])
  show "set qs = set ps" by (simp add: qs_def)
qed

text \<open>Dropping the prefixes inside others keeps the addresses: a widest prefix is never dropped.\<close>

lemma drop_inside:
  assumes "list_all ok ps" "distinct ps"
  shows "covered (filter (\<lambda>p. \<not> inside_another net ps p) ps) = covered ps"
proof -
  let ?kept = "filter (\<lambda>p. \<not> inside_another net ps p) ps"
  have "a \<in> covered ?kept" if "p \<in> set ps" "a \<in> covers p" for p a
  proof -
    let ?above = "{q. q \<in> set ps \<and> covers p \<subseteq> covers q}"
    have "finite (covers ` ?above)" "covers ` ?above \<noteq> {}" using that by auto
    then obtain m where "m \<in> covers ` ?above" and top: "\<forall>n\<in>covers ` ?above. m \<subseteq> n \<longrightarrow> m = n"
      using finite_has_maximal [of "covers ` ?above"] by metis
    then obtain q where q: "q \<in> set ps" "covers p \<subseteq> covers q" "m = covers q" by auto
    have "\<not> inside_another net ps q"
    proof
      assume "inside_another net ps q"
      then obtain r where r: "r \<in> set ps" "r \<noteq> q" "net_contains net r q" by (auto simp: inside_another_def list_ex_iff)
      then have "covers q \<subseteq> covers r" using contains_iff [of r q] assms(1) q by (auto simp: list_all_iff)
      then have eq: "covers q = covers r" using top r q by auto
      then show False using covers_inject [of q r] assms(1) r q by (auto simp: list_all_iff)
    qed
    then show ?thesis using q that by auto
  qed
  then show ?thesis by auto
qed

lemma merge_covers:
  assumes "list_all ok ps" "distinct ps" "sibling_pair net ps = Some (l, r)"
  shows "covered (merge_siblings net ps l r) = covered ps \<and> list_all ok (merge_siblings net ps l r)"
proof -
  have lr: "l < r" "r < length ps" "net_is_sibling net (ps ! l) (ps ! r)"
    using sibling_pair_Some [OF assms(3)] by simp_all
  then have "ps ! l \<noteq> ps ! r" "ok (ps ! l)" "ok (ps ! r)" using assms by (auto simp: nth_eq_iff_index_eq list_all_length)
  from siblings [OF this(2,3,1) lr(3)] obtain s where s: "net_supernet net (ps ! l) = Some s" "ok s" "covers s = covers (ps ! l) \<union> covers (ps ! r)"
    by blast
  have set: "set ps = insert (ps ! l) (insert (ps ! r) (set (remove_nth l (remove_nth r ps))))"
    by (rule set_remove_two [OF lr(1,2)])
  show ?thesis using s assms(1) by (auto simp: merge_siblings_def list_all_iff) (auto simp: set)
qed

lemma not_inside_disjoint:
  assumes "list_all ok ps" "\<not> list_ex (inside_another net ps) ps" "p \<in> set ps" "q \<in> set ps" "p \<noteq> q"
  shows "covers p \<inter> covers q = {}"
proof -
  have "\<not> net_contains net p q" "\<not> net_contains net q p"
    using assms(2-5) by (auto simp: inside_another_def list_ex_iff)
  then show ?thesis using nested [of p q] contains_iff [of p q] contains_iff [of q p] assms(1,3,4) by (auto simp: list_all_iff)
qed

lemma compact_loop_minimal: "list_all ok ps \<Longrightarrow> minimal_cover net covers (covered ps) (compact_loop net ps)"
proof (induction n\<equiv>net ps rule: compact_loop.induct)
  case (1 ps)
  let ?qs = "remdups_adj (sort_key (net_key net) ps)"
  have set: "distinct ?qs" "set ?qs = set ps" using normalise [OF "1.prems"] by simp_all
  then have ok: "list_all ok ?qs" and cov: "covered ?qs = covered ps" using "1.prems" by (simp_all add: list_all_iff)
  show ?case
  proof (cases "list_ex (inside_another net ?qs) ?qs")
    case True
    have "list_all ok (filter (\<lambda>p. \<not> inside_another net ?qs p) ?qs)" using ok by (simp add: list_all_iff)
    from "1.hyps"(1) [OF refl True this] drop_inside [OF ok set(1)] cov True show ?thesis
      by (simp add: compact_loop.simps [of net ps] Let_def)
  next
    case False
    show ?thesis
    proof (cases "sibling_pair net ?qs")
      case None
      have "pairwise (\<lambda>p q. covers p \<inter> covers q = {}) (set ?qs)"
        using not_inside_disjoint [OF ok False] by (auto simp: pairwise_def)
      moreover have "compact_loop net ps = ?qs" using None False by (simp add: compact_loop.simps [of net ps] Let_def)
      ultimately show ?thesis using None set cov by (simp add: minimal_cover_def sibling_pair_None)
    next
      case (Some pair)
      then obtain l r where lr: "sibling_pair net ?qs = Some (l, r)" by (cases pair) simp
      from "1.hyps"(2) [OF refl False lr refl] merge_covers [OF ok set(1) lr] cov lr False show ?thesis
        by (simp add: compact_loop.simps [of net ps] Let_def)
    qed
  qed
qed

lemma compact_loop_ok: "list_all ok ps \<Longrightarrow> list_all ok (compact_loop net ps)"
proof (induction n\<equiv>net ps rule: compact_loop.induct)
  case (1 ps)
  let ?qs = "remdups_adj (sort_key (net_key net) ps)"
  have set: "distinct ?qs" "set ?qs = set ps" using normalise [OF "1.prems"] by simp_all
  then have ok: "list_all ok ?qs" using "1.prems" by (simp add: list_all_iff)
  then have kept: "list_all ok (filter P ?qs)" for P by (simp add: list_all_iff)
  show ?case
  proof (cases "list_ex (inside_another net ?qs) ?qs")
    case True
    from "1.hyps"(1) [OF refl True kept] True show ?thesis by (simp add: compact_loop.simps [of net ps] Let_def)
  next
    case False
    show ?thesis
    proof (cases "sibling_pair net ?qs")
      case None
      with False ok show ?thesis by (simp add: compact_loop.simps [of net ps] Let_def)
    next
      case (Some pair)
      then obtain l r where lr: "sibling_pair net ?qs = Some (l, r)" by (cases pair) simp
      from "1.hyps"(2) [OF refl False lr refl] merge_covers [OF ok set(1) lr] lr False show ?thesis
        by (simp add: compact_loop.simps [of net ps] Let_def)
    qed
  qed
qed

lemma compact_prefixes_ok: "list_all valid ps \<Longrightarrow> list_all ok (compact_prefixes net ps)"
  using compact_loop_ok [of "map (net_trunc net) ps"] trunc by (simp add: compact_prefixes_def list_all_iff)

lemma compact_prefixes_cover:
  assumes "list_all valid ps"
  shows "minimal_cover net covers (covered ps) (compact_prefixes net ps)"
proof -
  have "list_all ok (map (net_trunc net) ps)" "covered (map (net_trunc net) ps) = covered ps"
    using assms trunc by (auto simp: list_all_iff)
  then show ?thesis using compact_loop_minimal [of "map (net_trunc net) ps"] by (simp only: compact_prefixes_def)
qed

end

section \<open>The laws hold of the prefixes of addresses\<close>

text \<open>The library's operations on the prefixes of the model: \<open>supernet\<close> drops a bit, and two prefixes of the
  same length are siblings when they share it.\<close>

definition prefix_supernet :: "ip_prefix \<Rightarrow> ip_prefix" where
  "prefix_supernet p = masked (p\<lparr>pfx_bits := pfx_bits p - 1\<rparr>)"

definition prefix_net :: "ip_prefix net_ops" where
  "prefix_net = \<lparr>net_trunc = masked, net_addr = pfx_address, net_prefix_len = pfx_bits,
     net_contains = (\<lambda>p q. pfx_bits p \<le> pfx_bits q \<and> contains p (pfx_address q)),
     net_is_sibling = (\<lambda>p q. 0 < pfx_bits p \<and> pfx_bits p = pfx_bits q \<and> contains (prefix_supernet p) (pfx_address q)),
     net_supernet = (\<lambda>p. if pfx_bits p = 0 then None else Some (prefix_supernet p)),
     net_network = (\<lambda>p. pfx_address (masked p)),
     net_new = (\<lambda>a bits. if bits \<le> bit_len a then Ok \<lparr>pfx_address = a, pfx_bits = bits\<rparr> else Err ''invalid IP prefix length''),
     net_to_string = ip_prefix_display, net_from_str = (\<lambda>s. map_err (\<lambda>_. ''invalid IP address syntax'') (ip_prefix_from_str s))\<rparr>"

definition prefix_normal :: "ip_prefix \<Rightarrow> bool" where
  "prefix_normal p \<longleftrightarrow> prefix_ok p \<and> masked p = p"

abbreviation addresses_of :: "ip_prefix \<Rightarrow> ip_addr set" where
  "addresses_of p \<equiv> Collect (contains p)"

lemma contains_own [simp]: "prefix_ok p \<Longrightarrow> contains p (pfx_address p)"
  by (simp add: contains_div same_family_iff)

lemma addresses_of_masked: "prefix_ok p \<Longrightarrow> addresses_of (masked p) = addresses_of p"
  using masked_interval [of p] masked_facts [of p] by (auto simp: contains_iff same_family_iff)

lemma masked_normal: "prefix_ok p \<Longrightarrow> prefix_normal (masked p)"
proof -
  assume ok: "prefix_ok p"
  note facts = masked_interval [OF ok] masked_facts [OF ok]
  have "addr_val (pfx_address (masked (masked p))) = addr_val (pfx_address (masked p))"
    using masked_facts(1) [OF facts(1)] facts by simp
  then have "pfx_address (masked (masked p)) = pfx_address (masked p)"
    using masked_facts(2) [OF facts(1)] addr_val_eqD by metis
  then show ?thesis using facts(1) masked_facts(3) [OF facts(1)] by (simp add: prefix_normal_def)
qed

text \<open>A prefix that shares an address with a longer one holds the address of the longer one.\<close>

lemma div_coarser: "(x::nat) div 2 ^ a = y div 2 ^ a \<Longrightarrow> a \<le> b \<Longrightarrow> x div 2 ^ b = y div 2 ^ b"
  by (metis div_mult2_eq le_add_diff_inverse power_add)

lemma shared_address_contains:
  assumes "prefix_ok p" "prefix_ok q" "pfx_bits p \<le> pfx_bits q" "contains p a" "contains q a"
  shows "contains p (pfx_address q)"
proof -
  have fam: "same_family (pfx_address p) a" "same_family (pfx_address q) a" using assms by (simp_all add: contains_def)
  then have "host_bits q \<le> host_bits p" using assms(3) by (metis bit_len_same diff_le_mono2)
  moreover have "addr_val a div 2 ^ host_bits q = addr_val (pfx_address q) div 2 ^ host_bits q"
    using assms by (simp add: contains_div)
  ultimately show ?thesis using assms fam div_coarser [of "addr_val a" "host_bits q" "addr_val (pfx_address q)"]
    by (auto simp: contains_div same_family_iff)
qed

lemma addresses_subset:
  assumes "prefix_ok p" "prefix_ok q" "pfx_bits p \<le> pfx_bits q" "contains p a" "contains q a"
  shows "addresses_of q \<subseteq> addresses_of p"
  using contains_subset [OF assms(1,2,3) shared_address_contains [OF assms]] by blast

lemma subset_bits:
  assumes "prefix_ok p" "prefix_ok q" "addresses_of q \<subseteq> addresses_of p"
  shows "pfx_bits p \<le> pfx_bits q" "pfx_lo p \<le> pfx_lo q" "pfx_hi q \<le> pfx_hi p"
    "same_family (pfx_address p) (pfx_address q)"
proof -
  have "contains q (pfx_address (masked q))" "contains q (last_address q)" "contains q (pfx_address q)"
    using assms(2) last_address_facts(1,2) [OF assms(2)] masked_facts [OF assms(2)] pfx_lo_hi [of q]
    by (simp_all add: contains_iff [of q "pfx_address (masked q)"] contains_iff [of q "last_address q"])
  then have mem: "contains p (pfx_address (masked q))" "contains p (last_address q)" "contains p (pfx_address q)"
    using assms(3) by blast+
  then show fam: "same_family (pfx_address p) (pfx_address q)" by (simp add: contains_def)
  show lo: "pfx_lo p \<le> pfx_lo q" and hi: "pfx_hi q \<le> pfx_hi p"
    using mem assms(1) masked_facts(1) [OF assms(2)] last_address_facts [OF assms(2)] by (auto simp: contains_iff)
  have "0 < (2::nat) ^ host_bits q" "0 < (2::nat) ^ host_bits p" by simp_all
  then have "(2::nat) ^ host_bits q \<le> 2 ^ host_bits p" using lo hi unfolding pfx_hi_def by linarith
  then have "host_bits q \<le> host_bits p" using power_increasing_iff [of "2::nat"] by simp
  then show "pfx_bits p \<le> pfx_bits q" using assms bit_len_same [OF fam] by (simp add: prefix_ok_def)
qed

lemma prefix_normal_eq:
  assumes "prefix_normal p" "prefix_normal q" "addresses_of p = addresses_of q"
  shows "p = q"
proof -
  have ok: "prefix_ok p" "prefix_ok q" "masked p = p" "masked q = q" using assms by (simp_all add: prefix_normal_def)
  note pq = subset_bits [OF ok(1,2)] and qp = subset_bits [OF ok(2,1)]
  have sub: "addresses_of q \<subseteq> addresses_of p" "addresses_of p \<subseteq> addresses_of q" using assms(3) by simp_all
  have "pfx_lo p = pfx_lo q" "pfx_bits p = pfx_bits q" using pq(1,2) [OF sub(1)] qp(1,2) [OF sub(2)] by simp_all
  moreover have "addr_val (pfx_address p) = pfx_lo p" "addr_val (pfx_address q) = pfx_lo q"
    using masked_facts(1) ok by metis+
  ultimately have "pfx_address p = pfx_address q" using addr_val_eqD [OF pq(4) [OF sub(1)]] by simp
  with \<open>pfx_bits p = pfx_bits q\<close> show ?thesis by simp
qed

text \<open>Halving a prefix: the two halves of the supernet are the siblings.\<close>

lemma div_two_halves:
  assumes "(k::nat) \<noteq> m" "k div 2 = m div 2"
  shows "x div (h * 2) = k div 2 \<longleftrightarrow> x div h = k \<or> x div h = m"
  unfolding div_mult2_eq using assms by linarith

lemma siblings_addresses:
  assumes "prefix_normal p" "prefix_normal q" "p \<noteq> q" "0 < pfx_bits p" "pfx_bits p = pfx_bits q"
    "contains (prefix_supernet p) (pfx_address q)"
  shows "addresses_of (prefix_supernet p) = addresses_of p \<union> addresses_of q"
proof -
  let ?s = "p\<lparr>pfx_bits := pfx_bits p - 1\<rparr>"
  have ok: "prefix_ok p" "prefix_ok q" "prefix_ok ?s" using assms by (auto simp: prefix_normal_def prefix_ok_def)
  have sup: "addresses_of (prefix_supernet p) = addresses_of ?s"
    using addresses_of_masked [OF ok(3)] by (simp add: prefix_supernet_def)
  then have s: "contains ?s (pfx_address q)" using assms(6) by blast
  then have fam: "same_family (pfx_address p) (pfx_address q)" by (simp add: contains_def)
  then have len: "bit_len (pfx_address q) = bit_len (pfx_address p)" by (simp add: bit_len_same)
  have hs: "host_bits ?s = Suc (host_bits p)" "host_bits q = host_bits p"
    using assms(4,5) ok(1) len by (simp_all add: prefix_ok_def)
  let ?h = "2 ^ host_bits p :: nat" and ?k = "addr_val (pfx_address p) div 2 ^ host_bits p" and ?m = "addr_val (pfx_address q) div 2 ^ host_bits p"
  have "?k \<noteq> ?m"
  proof
    assume "?k = ?m"
    then have "addresses_of p = addresses_of q" using ok fam hs by (auto simp: contains_div same_family_iff)
    then show False using prefix_normal_eq assms(1-3) by blast
  qed
  moreover have "?k div 2 = ?m div 2"
    using s ok hs by (simp add: contains_div div_mult2_eq mult.commute [of 2])
  ultimately have "x div (?h * 2) = ?k div 2 \<longleftrightarrow> x div ?h = ?k \<or> x div ?h = ?m" for x
    by (rule div_two_halves)
  then show ?thesis unfolding sup using ok fam hs by (auto simp: contains_div same_family_iff div_mult2_eq mult.commute [of 2])
qed

lemma prefix_net_simps [simp]:
  "net_trunc prefix_net = masked" "net_addr prefix_net = pfx_address" "net_prefix_len prefix_net = pfx_bits"
  "net_contains prefix_net p q \<longleftrightarrow> pfx_bits p \<le> pfx_bits q \<and> contains p (pfx_address q)"
  "net_is_sibling prefix_net p q \<longleftrightarrow> 0 < pfx_bits p \<and> pfx_bits p = pfx_bits q \<and> contains (prefix_supernet p) (pfx_address q)"
  "net_supernet prefix_net p = (if pfx_bits p = 0 then None else Some (prefix_supernet p))"
  "net_network prefix_net p = pfx_address (masked p)" "net_to_string prefix_net = ip_prefix_display"
  "net_new prefix_net a bits = (if bits \<le> bit_len a then Ok \<lparr>pfx_address = a, pfx_bits = bits\<rparr> else Err ''invalid IP prefix length'')"
  "net_from_str prefix_net s = map_err (\<lambda>_. ''invalid IP address syntax'') (ip_prefix_from_str s)"
  by (simp_all add: prefix_net_def)

lemma prefix_contains_iff:
  assumes "prefix_ok p" "prefix_ok q"
  shows "pfx_bits p \<le> pfx_bits q \<and> contains p (pfx_address q) \<longleftrightarrow> addresses_of q \<subseteq> addresses_of p"
  using addresses_subset [OF assms, of "pfx_address q"] subset_bits [OF assms] contains_own [OF assms(2)] assms by blast

lemma prefix_key_inject: "net_key prefix_net p = net_key prefix_net q \<Longrightarrow> p = q"
  by (auto simp: net_key_def same_family_iff addr_val_def split: if_splits intro: addr_val_eqD intro!: ip_prefix.equality)

lemma supernet_normal: "prefix_normal p \<Longrightarrow> prefix_normal (prefix_supernet p)"
  unfolding prefix_supernet_def by (intro masked_normal) (auto simp: prefix_normal_def prefix_ok_def)

interpretation prefixes: ip_net_laws prefix_net addresses_of prefix_ok prefix_normal
proof
  fix p q assume "prefix_normal p" "prefix_normal q"
  then have ok: "prefix_ok p" "prefix_ok q" by (simp_all add: prefix_normal_def)
  show "net_contains prefix_net p q \<longleftrightarrow> addresses_of q \<subseteq> addresses_of p"
    using prefix_contains_iff [OF ok] by simp
  show "addresses_of p \<subseteq> addresses_of q \<or> addresses_of q \<subseteq> addresses_of p \<or> addresses_of p \<inter> addresses_of q = {}"
    using addresses_subset [OF ok] addresses_subset [OF ok(2,1)] by (metis (mono_tags) disjoint_iff linear mem_Collect_eq)
  show "\<exists>s. net_supernet prefix_net p = Some s \<and> prefix_normal s \<and> addresses_of s = addresses_of p \<union> addresses_of q"
    if "p \<noteq> q" "net_is_sibling prefix_net p q"
    using that siblings_addresses [of p q] supernet_normal [of p] \<open>prefix_normal p\<close> \<open>prefix_normal q\<close> by simp
qed (auto simp: addresses_of_masked masked_normal prefix_normal_eq prefix_key_inject)

section \<open>The property\<close>

text \<open>
  (C34) Over any prefix library that keeps the stated laws, \<open>compact_prefixes\<close> returns, for every list of valid
  prefixes, routes that cover exactly the addresses the prefixes cover. No address has two routes, and no two
  routes that are left could be merged into one.
\<close>

theorem compact_prefixes_minimal:
  assumes "ip_net_laws net covers valid ok" and "list_all valid prefixes"
  shows "minimal_cover net covers (\<Union> (covers ` set prefixes)) (compact_prefixes net prefixes)"
  by (rule ip_net_laws.compact_prefixes_cover [OF assms])

theorem compact_prefixes_minimal_witness:
  "ip_net_laws prefix_net addresses_of prefix_ok prefix_normal
   \<and> minimal_cover prefix_net addresses_of
       (addresses_of \<lparr>pfx_address = V4 0x0A000000, pfx_bits = 25\<rparr> \<union> addresses_of \<lparr>pfx_address = V4 0x0A000080, pfx_bits = 25\<rparr>)
       (compact_prefixes prefix_net [\<lparr>pfx_address = V4 0x0A000000, pfx_bits = 25\<rparr>, \<lparr>pfx_address = V4 0x0A000080, pfx_bits = 25\<rparr>])"
proof (intro conjI)
  show "ip_net_laws prefix_net addresses_of prefix_ok prefix_normal" by (rule prefixes.ip_net_laws_axioms)
  from compact_prefixes_minimal [OF this, of "[\<lparr>pfx_address = V4 0x0A000000, pfx_bits = 25\<rparr>, \<lparr>pfx_address = V4 0x0A000080, pfx_bits = 25\<rparr>]"]
  show "minimal_cover prefix_net addresses_of
       (addresses_of \<lparr>pfx_address = V4 0x0A000000, pfx_bits = 25\<rparr> \<union> addresses_of \<lparr>pfx_address = V4 0x0A000080, pfx_bits = 25\<rparr>)
       (compact_prefixes prefix_net [\<lparr>pfx_address = V4 0x0A000000, pfx_bits = 25\<rparr>, \<lparr>pfx_address = V4 0x0A000080, pfx_bits = 25\<rparr>])"
    by (simp add: prefix_ok_def bit_len_def)
qed

end
