(* ===== verification/Network.thy ===== *)
theory Network
  imports Routes Utf8
begin

text \<open>
  The addresses, keys and settings of a machine's WireGuard network (\<open>ip.rs\<close>, \<open>mtu.rs\<close>,
  \<open>address.rs\<close>, \<open>config.rs\<close> and \<open>wireguard.rs\<close> of the network crate). The prefix library, the
  operating system's random generator, the interface list, the HTTP client and the curve of the key
  exchange are parameters.
\<close>

section \<open>Constants and errors\<close>

definition WIREGUARD_INTERFACE_NAME :: string where
  "WIREGUARD_INTERFACE_NAME = ''ployz''"

definition DEFAULT_WIREGUARD_PORT :: "16 word" where
  "DEFAULT_WIREGUARD_PORT = 51820"

definition MIN_WIREGUARD_MTU :: "32 word" where
  "MIN_WIREGUARD_MTU = 1280"

definition WIREGUARD_ENCAP_OVERHEAD :: "32 word" where
  "WIREGUARD_ENCAP_OVERHEAD = 80"

definition MAX_WIREGUARD_MTU :: "32 word" where
  "MAX_WIREGUARD_MTU = 1500 - WIREGUARD_ENCAP_OVERHEAD"

definition WIREGUARD_KEEPALIVE_INTERVAL :: int where
  "WIREGUARD_KEEPALIVE_INTERVAL = 25"

text \<open>The sources of the errors are texts of the libraries.\<close>

datatype network_error =
  NetIo string string
| NetInterface string string
| NetHttp string string
| NetNetlink string string
| NetInvalid string

fun network_error_display :: "network_error \<Rightarrow> string" where
  "network_error_display (NetIo context source) = context @ '': '' @ source"
| "network_error_display (NetInterface context source) = context @ '': '' @ source"
| "network_error_display (NetHttp context source) = context @ '': '' @ source"
| "network_error_display (NetNetlink context source) = context @ '': '' @ source"
| "network_error_display (NetInvalid message) = message"

section \<open>Addresses of a machine\<close>

definition checked_succ :: "'a::len word \<Rightarrow> 'a word option" where
  "checked_succ w = (if w = - 1 then None else Some (w + 1))"

definition machine_ip :: "'n net_ops \<Rightarrow> 'n \<Rightarrow> ip_addr option" where
  "machine_ip net subnet =
     (case net_network net (net_trunc net subnet) of
        V4 network \<Rightarrow> map_option V4 (checked_succ network)
      | V6 network \<Rightarrow> map_option V6 (checked_succ network))"

definition management_ip :: "secret \<Rightarrow> (network_error, 128 word) result" where
  "management_ip public_key =
     (let key = as_bytes public_key in
      if length key < 14 then Err (NetInvalid ''derive management IP: public key is shorter than 14 bytes'')
      else Ok (be_word ([0xfd, 0xcc] @ take 14 key)))"

definition single_ip_prefix :: "'n net_ops \<Rightarrow> ip_addr \<Rightarrow> (network_error, 'n) result" where
  "single_ip_prefix net address =
     map_err (\<lambda>error. NetInvalid (''invalid IP address: '' @ error)) (net_new net address (if is_ipv4 address then 32 else 128))"

section \<open>The MTU of the tunnel\<close>

definition saturating_sub :: "'a::len word \<Rightarrow> 'a word \<Rightarrow> 'a word" where
  "saturating_sub a b = (if a \<le> b then 0 else a - b)"

text \<open>The detection of the MTU of the egress interface is a parameter.\<close>

definition detect_mtu :: "('e, 32 word) result \<Rightarrow> 32 word" where
  "detect_mtu egress =
     (case egress of
        Err _ \<Rightarrow> MAX_WIREGUARD_MTU
      | Ok egress_mtu \<Rightarrow>
          max MIN_WIREGUARD_MTU (min MAX_WIREGUARD_MTU (saturating_sub egress_mtu WIREGUARD_ENCAP_OVERHEAD)))"

section \<open>Routable addresses\<close>

fun windows :: "nat \<Rightarrow> 'a list \<Rightarrow> 'a list list" where
  "windows n [] = []"
| "windows n (x # xs) = (if n \<le> length (x # xs) then take n (x # xs) # windows n xs else [])"

definition contains_docker_bridge_name :: "string \<Rightarrow> bool" where
  "contains_docker_bridge_name name \<longleftrightarrow>
     list_ex (\<lambda>window. starts_with window ''br-'' \<and>
       list_all (\<lambda>c. is_ascii_digit c \<or> (97 \<le> byte_of c \<and> byte_of c \<le> 102)) (drop 3 window)) (windows 15 name)"

definition should_skip_interface :: "string \<Rightarrow> bool" where
  "should_skip_interface name \<longleftrightarrow> name = WIREGUARD_INTERFACE_NAME \<or> starts_with name ''docker''
     \<or> name = ''tailscale0'' \<or> contains_docker_bridge_name name"

definition is_ipv6_link_local :: "128 word \<Rightarrow> bool" where
  "is_ipv6_link_local ip \<longleftrightarrow> and (of_nat (segments ip ! 0) :: 16 word) 0xffc0 = 0xfe80"

text \<open>The tests of the standard library on addresses, by their first octets.\<close>

definition is_go_global_unicast :: "ip_addr \<Rightarrow> bool" where
  "is_go_global_unicast ip \<longleftrightarrow>
     (let os = octets ip in
      case ip of
        V4 w \<Rightarrow> w \<noteq> 0 \<and> os ! 0 \<noteq> 127 \<and> \<not> (224 \<le> os ! 0 \<and> os ! 0 \<le> 239)
          \<and> w \<noteq> 0xFFFFFFFF \<and> \<not> (os ! 0 = 169 \<and> os ! 1 = 254)
      | V6 w \<Rightarrow> w \<noteq> 0 \<and> w \<noteq> 1 \<and> os ! 0 \<noteq> 0xff \<and> \<not> is_ipv6_link_local w)"

text \<open>An interface address as the system lists it; an address of another family is \<open>None\<close>.\<close>

record interface_address =
  if_name :: string
  if_up :: bool
  if_running :: bool
  if_loopback :: bool
  if_address :: "ip_addr option"

definition list_routable_ips :: "(string, interface_address list) result \<Rightarrow> (network_error, ip_addr list) result" where
  "list_routable_ips getifaddrs =
     rbind (map_err (NetInterface ''list network interfaces'') getifaddrs) (\<lambda>interfaces.
     Ok (List.map_filter (\<lambda>interface.
       if should_skip_interface (if_name interface) \<or> \<not> if_up interface \<or> \<not> if_running interface \<or> if_loopback interface
       then None
       else (case if_address interface of
               None \<Rightarrow> None
             | Some ip \<Rightarrow> if is_go_global_unicast ip then Some ip else None)) interfaces))"

section \<open>The public address\<close>

text \<open>
  The HTTP client answers a request with a status and the bytes of the body, or fails; reading the
  body may fail too. \<open>utf8_error\<close> is the text of the standard library's error for a text that is not
  UTF-8: where the first bad sequence starts, and how long it is unless the text ends inside it.
\<close>

function utf8_error :: "nat \<Rightarrow> string \<Rightarrow> string option" where
  "utf8_error index s =
     (if s = [] then None
      else (let (n, valid) = utf8_step s in
            if valid then utf8_error (index + n) (drop n s)
            else if length s = n \<and> in_range 194 244 (byte_at s 0)
            then Some (''incomplete utf-8 byte sequence from index '' @ nat_to_string index)
            else Some (''invalid utf-8 sequence of '' @ nat_to_string n @ '' bytes from index '' @ nat_to_string index)))"
  by pat_completeness auto
termination
proof (relation "measure (\<lambda>(index, s). length s)", simp)
  fix index and s :: string and step n valid
  assume "s \<noteq> []" "step = utf8_step s" "(n, valid) = step"
  then show "((index + n, drop n s), index, s) \<in> measure (\<lambda>(index, s). length s)"
    using utf8_step_pos [of s] by (cases s) (auto simp: fst_def split: prod.splits)
qed

declare utf8_error.simps [simp del]

definition parse_plaintext_ip :: "string \<Rightarrow> (network_error, ip_addr) result" where
  "parse_plaintext_ip data =
     (case utf8_error 0 data of
        Some error \<Rightarrow> Err (NetInvalid (''invalid IP address: '' @ error))
      | None \<Rightarrow> ok_or (NetInvalid ''invalid IP address: invalid IP address syntax'') (parse_ip data))"

definition query_ip ::
  "(string \<Rightarrow> (string, nat \<times> (string, string) result) result) \<Rightarrow> string \<Rightarrow> (network_error, ip_addr) result" where
  "query_ip http service =
     rbind (map_err (NetHttp ''send request'') (http service)) (\<lambda>(status, body).
     if status \<noteq> 200 then Err (NetInvalid (''unexpected status code: '' @ nat_to_string status))
     else rbind (map_err (NetIo ''read response body'') body) parse_plaintext_ip)"

fun first_ok :: "('a \<Rightarrow> ('e, 'b) result) \<Rightarrow> 'a list \<Rightarrow> 'b option" where
  "first_ok f [] = None"
| "first_ok f (x # xs) = (case f x of Ok y \<Rightarrow> Some y | Err _ \<Rightarrow> first_ok f xs)"

definition get_public_ip ::
  "(string \<Rightarrow> (string, nat \<times> (string, string) result) result) \<Rightarrow> (network_error, ip_addr) result" where
  "get_public_ip http =
     ok_or (NetInvalid ''failed to get public IP from all services'')
       (first_ok (query_ip http)
         [''https://api.ipify.org'', ''https://ipinfo.io/ip'', ''http://ip-api.com/line/?fields=query''])"

section \<open>Keys\<close>

text \<open>
  The generated bytes are clamped; the public key of the curve is a parameter, and so is the
  private key the library returns for given bytes.
\<close>

definition key_from_secret :: "secret \<Rightarrow> string \<Rightarrow> (network_error, 8 word list) result" where
  "key_from_secret secret name =
     (if length (as_bytes secret) = 32 then Ok (as_bytes secret)
      else Err (NetInvalid (''parse '' @ name @ '': WireGuard key must be 32 bytes'')))"

definition secret_from_bytes :: "8 word list \<Rightarrow> (network_error, secret) result" where
  "secret_from_bytes bytes =
     map_err (\<lambda>error. NetInvalid (''encode WireGuard key: '' @ secret_error_display error)) (from_hex_string (hex_encode bytes))"

definition clamp_key :: "8 word list \<Rightarrow> 8 word list" where
  "clamp_key bytes =
     (let bytes = bytes[0 := and (bytes ! 0) 248]; bytes = bytes[31 := and (bytes ! 31) 127]
      in bytes[31 := or (bytes ! 31) 64])"

definition new_machine_keys ::
  "(8 word list \<Rightarrow> 8 word list) \<Rightarrow> (8 word list \<Rightarrow> 8 word list) \<Rightarrow> (nat \<Rightarrow> (string, 8 word list) result) \<Rightarrow>
   (network_error, secret \<times> secret) result" where
  "new_machine_keys static_secret public_key random =
     rbind (map_err (\<lambda>error. NetInvalid (''generate WireGuard private key: '' @ secret_error_display error)) (new_secret random 32)) (\<lambda>generated.
     if length (as_bytes generated) \<noteq> 32 then Err (NetInvalid ''generate WireGuard private key: wrong random key length'')
     else
       let private = static_secret (clamp_key (as_bytes generated)) in
       rbind (secret_from_bytes private) (\<lambda>private_key.
       rbind (secret_from_bytes (public_key private)) (\<lambda>public_key.
       Ok (private_key, public_key))))"

section \<open>Settings\<close>

text \<open>\<open>i32\<close> fields are integers in their range.\<close>

record 'n wg_config =
  cf_subnet :: "'n option"
  cf_management_ip :: "ip_addr option"
  cf_wire_guard_port :: int
  cf_mtu :: int
  cf_private_key :: "secret option"
  cf_public_key :: "secret option"
  cf_endpoints :: "socket_addr list"
  cf_peers :: "'n peer_config list"

definition is_configured :: "'n wg_config \<Rightarrow> bool" where
  "is_configured c \<longleftrightarrow> cf_subnet c \<noteq> None \<and> cf_management_ip c \<noteq> None \<and> cf_private_key c \<noteq> None \<and> cf_public_key c \<noteq> None"

definition effective_wire_guard_port :: "'n wg_config \<Rightarrow> int" where
  "effective_wire_guard_port c = (if cf_wire_guard_port c = 0 then uint DEFAULT_WIREGUARD_PORT else cf_wire_guard_port c)"

definition effective_mtu :: "'n wg_config \<Rightarrow> int" where
  "effective_mtu c = (if cf_mtu c = 0 then sint MAX_WIREGUARD_MTU else cf_mtu c)"

definition prefixes :: "'n net_ops \<Rightarrow> 'n peer_config \<Rightarrow> (network_error, 'n list) result" where
  "prefixes net p =
     rbind (ok_or (NetInvalid ''parse management IP: invalid IP address'') (pc_management_ip p)) (\<lambda>management_ip.
     rbind (single_ip_prefix net management_ip) (\<lambda>prefix.
     Ok (prefix # (case pc_subnet p of Some subnet \<Rightarrow> [subnet] | None \<Rightarrow> []))))"

text \<open>The texts of the optional fields in the stored settings.\<close>

definition optional_addr_serialize :: "ip_addr option \<Rightarrow> string" where
  "optional_addr_serialize v = (case v of None \<Rightarrow> [] | Some a \<Rightarrow> show_ip a)"

definition optional_addr_deserialize :: "string \<Rightarrow> (string, ip_addr option) result" where
  "optional_addr_deserialize s = (if s = [] then Ok None else map_ok Some (ok_or ''invalid IP address syntax'' (parse_ip s)))"

definition optional_prefix_serialize :: "'n net_ops \<Rightarrow> 'n option \<Rightarrow> string" where
  "optional_prefix_serialize net v = (case v of None \<Rightarrow> [] | Some p \<Rightarrow> net_to_string net p)"

definition optional_prefix_deserialize :: "'n net_ops \<Rightarrow> string \<Rightarrow> (string, 'n option) result" where
  "optional_prefix_deserialize net s = (if s = [] then Ok None else map_ok Some (net_from_str net s))"

definition optional_secret_serialize :: "secret option \<Rightarrow> string" where
  "optional_secret_serialize v = (case v of None \<Rightarrow> [] | Some s \<Rightarrow> to_hex_string s)"

definition optional_secret_deserialize :: "string \<Rightarrow> (string, secret option) result" where
  "optional_secret_deserialize s = map_ok Some (map_err secret_error_display (from_hex_string s))"

section \<open>Properties\<close>

text \<open>The tunnel's packets stay between the limits, and fit into the underlay when it is wide enough.\<close>

lemma detect_mtu_exact:
  "unat (detect_mtu egress) =
     (case egress of Err _ \<Rightarrow> 1420 | Ok m \<Rightarrow> max 1280 (min 1420 (unat m - 80)))"
proof (cases egress)
  case (Inr m)
  have "unat (saturating_sub m 80) = unat m - 80"
    by (auto simp: saturating_sub_def unat_sub word_le_nat_alt)
  moreover have "unat (max a b) = max (unat a) (unat b)" "unat (min a b) = min (unat a) (unat b)" for a b :: "32 word"
    by (simp_all add: max_def min_def word_le_nat_alt)
  ultimately show ?thesis using Inr
    by (simp add: detect_mtu_def MIN_WIREGUARD_MTU_def MAX_WIREGUARD_MTU_def WIREGUARD_ENCAP_OVERHEAD_def)
qed (simp add: detect_mtu_def MAX_WIREGUARD_MTU_def WIREGUARD_ENCAP_OVERHEAD_def)

lemma unat_checked_succ:
  "checked_succ w = Some v \<longleftrightarrow> unat v = unat w + 1" "checked_succ w = None \<longleftrightarrow> unat w + 1 = 2 ^ LENGTH('a)"
  for w v :: "'a::len word"
proof -
  have top: "w = - 1 \<longleftrightarrow> unat w + 1 = 2 ^ LENGTH('a)"
    by (auto simp: word_unat_eq_iff unsigned_minus_1_eq_mask mask_eq_exp_minus_1)
  have "unat (w + 1) = unat w + 1" if "w \<noteq> - 1"
  proof -
    have "unat w < 2 ^ LENGTH('a)" by simp
    with that top have "unat w + 1 < 2 ^ LENGTH('a)" by linarith
    then show ?thesis by (simp add: unat_word_ariths)
  qed
  moreover have "unat v < 2 ^ LENGTH('a)" by simp
  then have "unat v \<noteq> 2 ^ LENGTH('a)" by linarith
  ultimately show "checked_succ w = Some v \<longleftrightarrow> unat v = unat w + 1"
    using top unfolding checked_succ_def by (cases "w = - 1") (auto simp: word_unat_eq_iff [of "w + 1" v])
  show "checked_succ w = None \<longleftrightarrow> unat w + 1 = 2 ^ LENGTH('a)" using top by (simp add: checked_succ_def)
qed

text \<open>The address after another one.\<close>

definition next_ip :: "ip_addr \<Rightarrow> ip_addr option" where
  "next_ip a = (case a of V4 w \<Rightarrow> map_option V4 (checked_succ w) | V6 w \<Rightarrow> map_option V6 (checked_succ w))"

lemma next_ip_Some: "next_ip a = Some b \<longleftrightarrow> same_family a b \<and> addr_val b = addr_val a + 1"
  by (cases a; cases b) (auto simp: next_ip_def same_family_iff addr_val_def to_u128_def unat_checked_succ)

lemma next_ip_None: "next_ip a = None \<longleftrightarrow> addr_val a + 1 = 2 ^ bit_len a"
  by (cases a) (auto simp: next_ip_def addr_val_def to_u128_def bit_len_def unat_checked_succ)

text \<open>The addresses of a prefix are the block that starts at its network address.\<close>

locale ip_net_interval = ip_net_laws +
  assumes network: "valid p \<Longrightarrow> n = net_network net (net_trunc net p) \<Longrightarrow> h = bit_len n - net_prefix_len net p \<Longrightarrow>
    net_prefix_len net p \<le> bit_len n \<and> 2 ^ h dvd addr_val n
    \<and> covers p = {a. same_family n a \<and> addr_val n \<le> addr_val a \<and> addr_val a < addr_val n + 2 ^ h}"
begin

lemma machine_ip_next: "machine_ip net subnet = next_ip (net_network net (net_trunc net subnet))"
  by (simp add: machine_ip_def next_ip_def)

lemma machine_ip_inside:
  assumes "valid p" "machine_ip net p = Some a"
  shows "a \<in> covers p \<longleftrightarrow> net_prefix_len net p < bit_len a"
proof -
  let ?n = "net_network net (net_trunc net p)"
  let ?h = "bit_len ?n - net_prefix_len net p"
  have a: "same_family ?n a" "addr_val a = addr_val ?n + 1" using assms(2) by (simp_all add: machine_ip_next next_ip_Some)
  have "a \<in> covers p \<longleftrightarrow> 1 < (2::nat) ^ ?h" using network [OF assms(1) refl refl] a by auto
  also have "\<dots> \<longleftrightarrow> net_prefix_len net p < bit_len ?n" using one_less_power [of "2::nat" ?h] by (cases ?h) auto
  finally show ?thesis using bit_len_same [OF a(1)] by simp
qed

lemma machine_ip_exists:
  assumes "valid p" "net_prefix_len net p < bit_len (net_network net (net_trunc net p))"
  shows "machine_ip net p \<noteq> None"
proof
  let ?n = "net_network net (net_trunc net p)"
  assume "machine_ip net p = None"
  then have "addr_val ?n + 1 = 2 ^ bit_len ?n" by (simp add: machine_ip_next next_ip_None)
  moreover have "even ((2::nat) ^ bit_len ?n)" using assms(2) by simp
  ultimately have odd: "odd (addr_val ?n)" by (metis even_plus_one_iff)
  have "2 ^ (bit_len ?n - net_prefix_len net p) dvd addr_val ?n" using network [OF assms(1) refl refl] by simp
  moreover have "(2::nat) dvd 2 ^ (bit_len ?n - net_prefix_len net p)" using assms(2) by simp
  ultimately show False using odd dvd_trans by blast
qed

end

lemma network_address:
  assumes "prefix_ok p"
  shows "same_family (pfx_address p) (pfx_address (masked (masked p)))" "addr_val (pfx_address (masked (masked p))) = pfx_lo p"
  using masked_facts(1,2) [OF assms] masked_facts(1,2) [OF masked_interval(1) [OF assms]] masked_interval(2) [OF assms]
  by (metis same_family_iff, metis)

interpretation intervals: ip_net_interval prefix_net addresses_of prefix_ok prefix_normal
proof
  fix p n h assume ok: "prefix_ok p" and n: "n = net_network prefix_net (net_trunc prefix_net p)" and h: "h = bit_len n - net_prefix_len prefix_net p"
  have n: "same_family (pfx_address p) n" "addr_val n = pfx_lo p"
    unfolding n prefix_net_simps using network_address [OF ok] by simp_all
  then have len: "bit_len n = bit_len (pfx_address p)" using bit_len_same by metis
  then have hh: "h = host_bits p" using h by simp
  have "0 < (2::nat) ^ h" by simp
  then have bound: "x \<le> pfx_hi p \<longleftrightarrow> x < pfx_lo p + 2 ^ h" for x unfolding pfx_hi_def hh by linarith
  have "same_family (pfx_address p) a = same_family n a" for a using n(1) unfolding same_family_iff by blast
  then have "addresses_of p = {a. same_family n a \<and> addr_val n \<le> addr_val a \<and> addr_val a < addr_val n + 2 ^ h}"
    by (intro set_eqI) (simp only: mem_Collect_eq contains_iff [OF ok] bound n(2))
  then show "net_prefix_len prefix_net p \<le> bit_len n \<and> 2 ^ h dvd addr_val n
    \<and> addresses_of p = {a. same_family n a \<and> addr_val n \<le> addr_val a \<and> addr_val a < addr_val n + 2 ^ h}"
    using ok pfx_lo_aligned [of p] n by (simp add: prefix_ok_def len hh)
qed

text \<open>
  (C35) For any prefix library that keeps the stated laws: two machines whose subnets are disjoint, each with room
  for more than one address, have different machine addresses, each inside the machine's own subnet. For a subnet
  of a single address, however, the machine address, if there is one, lies outside the subnet.
\<close>

theorem machine_ips_distinct:
  assumes "ip_net_interval net covers valid ok"
    and "valid s" "valid t" "covers s \<inter> covers t = {}"
    and "net_prefix_len net s < bit_len (net_network net (net_trunc net s))"
    and "net_prefix_len net t < bit_len (net_network net (net_trunc net t))"
    and "valid r" "net_prefix_len net r = bit_len (net_network net (net_trunc net r))"
  shows "(\<exists>a b. machine_ip net s = Some a \<and> machine_ip net t = Some b \<and> a \<in> covers s \<and> b \<in> covers t \<and> a \<noteq> b)
    \<and> pred_option (\<lambda>a. a \<notin> covers r) (machine_ip net r)"
proof -
  have family: "machine_ip net p = Some a \<Longrightarrow> bit_len a = bit_len (net_network net (net_trunc net p))" for p a
    using ip_net_interval.machine_ip_next [OF assms(1)] next_ip_Some bit_len_same by metis
  have inside: "valid p \<Longrightarrow> machine_ip net p = Some a \<Longrightarrow>
      a \<in> covers p \<longleftrightarrow> net_prefix_len net p < bit_len (net_network net (net_trunc net p))" for p a
    using ip_net_interval.machine_ip_inside [OF assms(1)] family by metis
  have "machine_ip net s \<noteq> None" "machine_ip net t \<noteq> None"
    by (rule ip_net_interval.machine_ip_exists [OF assms(1)], fact, fact)+
  then obtain a b where "machine_ip net s = Some a" "machine_ip net t = Some b" by blast
  moreover have "a \<in> covers s" "b \<in> covers t" using inside calculation assms by metis+
  moreover have "pred_option (\<lambda>a. a \<notin> covers r) (machine_ip net r)"
    using inside [of r] assms by (cases "machine_ip net r") auto
  ultimately show ?thesis using assms(4) by auto
qed

theorem machine_ips_distinct_witness:
  "(\<exists>a b. machine_ip prefix_net \<lparr>pfx_address = V4 0x0AD20000, pfx_bits = 24\<rparr> = Some a
      \<and> machine_ip prefix_net \<lparr>pfx_address = V4 0x0AD20100, pfx_bits = 24\<rparr> = Some b
      \<and> a \<in> addresses_of \<lparr>pfx_address = V4 0x0AD20000, pfx_bits = 24\<rparr>
      \<and> b \<in> addresses_of \<lparr>pfx_address = V4 0x0AD20100, pfx_bits = 24\<rparr> \<and> a \<noteq> b)
   \<and> pred_option (\<lambda>a. a \<notin> addresses_of \<lparr>pfx_address = V4 5, pfx_bits = 32\<rparr>) (machine_ip prefix_net \<lparr>pfx_address = V4 5, pfx_bits = 32\<rparr>)"
proof -
  let ?s = "\<lparr>pfx_address = V4 0x0AD20000, pfx_bits = 24\<rparr>" and ?t = "\<lparr>pfx_address = V4 0x0AD20100, pfx_bits = 24\<rparr>"
  let ?r = "\<lparr>pfx_address = V4 5, pfx_bits = 32\<rparr>"
  have ok: "prefix_ok ?s" "prefix_ok ?t" "prefix_ok ?r" by (simp_all add: prefix_ok_def bit_len_def)
  have "bit_len (pfx_address (masked (masked p))) = bit_len (pfx_address p)" if "prefix_ok p" for p
    using network_address(1) [OF that] bit_len_same by metis
  from this [OF ok(1)] this [OF ok(2)] this [OF ok(3)]
  have len: "bit_len (pfx_address (masked (masked ?s))) = 32" "bit_len (pfx_address (masked (masked ?t))) = 32"
    "bit_len (pfx_address (masked (masked ?r))) = 32" by (simp_all add: bit_len_def)
  have "addresses_of ?s \<inter> addresses_of ?t = {}"
    using ok by (auto simp: contains_div bit_len_def addr_val_def to_u128_def)
  then show ?thesis
    using machine_ips_distinct [OF intervals.ip_net_interval_axioms, of ?s ?t ?r] ok
    by (simp add: len)
qed

lemma join_print_not_Nil: "xs \<noteq> [] \<Longrightarrow> join sep (map (\<lambda>x. print_radix r (f x)) xs) \<noteq> []"
  by (cases xs) (auto simp: join_Cons)

lemma show_ip_not_Nil: "show_ip a \<noteq> []"
proof (cases a)
  case (V4 w)
  then show ?thesis by (simp add: show_ip_def show_ipv4_def join_print_not_Nil)
next
  case (V6 w)
  have "segments w \<noteq> []" using length_segments [of w] by (metis list.size(3) zero_neq_numeral)
  then have "show_groups (segments w) \<noteq> []" using join_print_not_Nil [of _ "'':''" 16 "\<lambda>x. x"] by (simp add: show_groups_def)
  then show ?thesis using V6 by (simp add: show_ip_def show_ipv6_def Let_def split: prod.splits)
qed

text \<open>
  (C36) The stored settings: the subnet and the management address of a machine come back as they were, but an
  absent key comes back as a present, empty one. Settings that were read back therefore count as configured
  as soon as they have a subnet and a management address, whether or not the keys were ever set.
\<close>

theorem absent_keys_read_as_present:
  assumes "\<And>p. net_from_str net (net_to_string net p) = Ok p \<and> net_to_string net p \<noteq> []"
    and "optional_prefix_deserialize net (optional_prefix_serialize net (cf_subnet c)) = Ok (cf_subnet d)"
    and "optional_addr_deserialize (optional_addr_serialize (cf_management_ip c)) = Ok (cf_management_ip d)"
    and "optional_secret_deserialize (optional_secret_serialize (cf_private_key c)) = Ok (cf_private_key d)"
    and "optional_secret_deserialize (optional_secret_serialize (cf_public_key c)) = Ok (cf_public_key d)"
  shows "cf_subnet d = cf_subnet c \<and> cf_management_ip d = cf_management_ip c
    \<and> cf_private_key d = Some (Some (case cf_private_key c of None \<Rightarrow> [] | Some s \<Rightarrow> as_bytes s))
    \<and> (is_configured d \<longleftrightarrow> cf_subnet c \<noteq> None \<and> cf_management_ip c \<noteq> None)"
proof -
  have secrets: "optional_secret_deserialize (optional_secret_serialize k) = Ok (Some (Some (case k of None \<Rightarrow> [] | Some s \<Rightarrow> as_bytes s)))" for k
    by (cases k) (simp_all add: optional_secret_deserialize_def optional_secret_serialize_def from_hex_string_def
        to_hex_string_def decode_hex_def decode_hex_encode)
  have "optional_addr_deserialize (optional_addr_serialize a) = Ok a" for a
    by (cases a) (simp_all add: optional_addr_deserialize_def optional_addr_serialize_def show_ip_not_Nil ok_or_def)
  moreover have "optional_prefix_deserialize net (optional_prefix_serialize net p) = Ok p" for p
    using assms(1) by (cases p) (simp_all add: optional_prefix_deserialize_def optional_prefix_serialize_def)
  moreover have "cf_private_key d \<noteq> None" "cf_public_key d \<noteq> None"
    using assms(4,5) secrets [of "cf_private_key c"] secrets [of "cf_public_key c"] by (metis Inr_inject option.distinct(1))+
  moreover have "cf_private_key d = Some (Some (case cf_private_key c of None \<Rightarrow> [] | Some s \<Rightarrow> as_bytes s))"
    using assms(4) secrets [of "cf_private_key c"] by (metis Inr_inject)
  ultimately show ?thesis using assms(2,3) by (simp add: is_configured_def)
qed

theorem absent_keys_read_as_present_witness:
  "is_configured \<lparr>cf_subnet = Some True, cf_management_ip = Some (V4 1), cf_wire_guard_port = 0, cf_mtu = 0,
     cf_private_key = Some (Some []), cf_public_key = Some (Some []), cf_endpoints = [], cf_peers = []\<rparr>
   \<and> \<not> is_configured \<lparr>cf_subnet = Some True, cf_management_ip = Some (V4 1), cf_wire_guard_port = 0, cf_mtu = 0,
     cf_private_key = None, cf_public_key = None, cf_endpoints = [], cf_peers = []\<rparr>"
proof -
  let ?net = "\<lparr>net_trunc = (\<lambda>x. x), net_addr = (\<lambda>_. V4 0), net_prefix_len = (\<lambda>_. 0), net_contains = (=), net_is_sibling = (\<lambda>_ _. False),
    net_supernet = (\<lambda>_. None), net_network = (\<lambda>_. V4 0), net_new = (\<lambda>_ _. Ok True),
    net_to_string = (\<lambda>b. if b then ''10.0.0.0/8'' else ''0.0.0.0/0''), net_from_str = (\<lambda>s. Ok (s = ''10.0.0.0/8''))\<rparr> :: bool net_ops"
  let ?c = "\<lparr>cf_subnet = Some True, cf_management_ip = Some (V4 1), cf_wire_guard_port = 0, cf_mtu = 0,
     cf_private_key = None, cf_public_key = None, cf_endpoints = [], cf_peers = []\<rparr> :: bool wg_config"
  let ?d = "?c\<lparr>cf_private_key := Some (Some []), cf_public_key := Some (Some [])\<rparr>"
  have "cf_subnet ?d = cf_subnet ?c \<and> cf_management_ip ?d = cf_management_ip ?c
    \<and> cf_private_key ?d = Some (Some (case cf_private_key ?c of None \<Rightarrow> [] | Some s \<Rightarrow> as_bytes s))
    \<and> (is_configured ?d \<longleftrightarrow> cf_subnet ?c \<noteq> None \<and> cf_management_ip ?c \<noteq> None)"
  proof (rule absent_keys_read_as_present [of ?net])
    show "net_from_str ?net (net_to_string ?net p) = Ok p \<and> net_to_string ?net p \<noteq> []" for p by simp
    show "optional_prefix_deserialize ?net (optional_prefix_serialize ?net (cf_subnet ?c)) = Ok (cf_subnet ?d)"
      by (simp add: optional_prefix_deserialize_def optional_prefix_serialize_def)
    show "optional_addr_deserialize (optional_addr_serialize (cf_management_ip ?c)) = Ok (cf_management_ip ?d)"
      by (simp add: optional_addr_deserialize_def optional_addr_serialize_def show_ip_not_Nil ok_or_def)
  qed (simp_all add: optional_secret_deserialize_def optional_secret_serialize_def from_hex_string_def decode_hex_def)
  then have "is_configured ?d" by simp
  moreover have "\<not> is_configured ?c" by (simp add: is_configured_def)
  ultimately show ?thesis by simp
qed

end
