(* ===== verification/Wireguard.thy ===== *)
theory Wireguard
  imports Network BTree
begin

text \<open>
  The control of the WireGuard interface (\<open>wireguard_linux.rs\<close>): the peers the machine keeps, the
  update of the device, and the turns of the control loop. The kernel is a parameter: whether a
  client can be created, what the device reports, and whether it accepts an update. A handler returns
  the state it leaves behind also when it fails, since the code changes the state before the calls
  that may fail. The peers are a hash map in the code; the model visits them in the order of their
  keys. The address and route messages of netlink are in \<open>Netlink\<close>.
\<close>

section \<open>State and kernel\<close>

record 'n wg_state =
  ws_link_index :: "32 word"
  ws_peers :: "(string, 'n peer) bmap option"
  ws_watchers :: "nat list"
  ws_running :: bool

record endpoint_change_event =
  ev_public_key :: secret
  ev_endpoint :: socket_addr

text \<open>A peer as the device reports it; times and durations are nanoseconds.\<close>

record device_peer =
  dp_public_key :: "8 word list"
  dp_endpoint :: "socket_addr option"
  dp_last_handshake_time :: int
  dp_rx_bytes :: "64 word"
  dp_tx_bytes :: "64 word"

datatype peer_flag = ReplaceAllowedIps | RemoveMe | UpdateOnly

record peer_update =
  pu_public_key :: "8 word list"
  pu_flags :: "peer_flag list"
  pu_keepalive :: "16 word option"
  pu_allowed_ips :: "(ip_addr \<times> nat) list"
  pu_endpoint :: "socket_addr option"

record device_update =
  du_private_key :: "8 word list option"
  du_listen_port :: "16 word option"
  du_peers :: "peer_update list"

record wg_kernel =
  k_client :: "(string, unit) result"
  k_get_device :: "(string, device_peer list) result"
  k_set_device :: "device_update \<Rightarrow> (string, unit) result"

definition peer_update_from_public_key :: "8 word list \<Rightarrow> peer_update" where
  "peer_update_from_public_key key =
     \<lparr>pu_public_key = key, pu_flags = [], pu_keepalive = None, pu_allowed_ips = [], pu_endpoint = None\<rparr>"

definition interface_debug :: string where
  "interface_debug = CHR 0x22 # WIREGUARD_INTERFACE_NAME @ [CHR 0x22]"

definition wireguard_error :: "string \<Rightarrow> string \<Rightarrow> network_error" where
  "wireguard_error context source = NetIo context source"

definition wireguard_client :: "wg_kernel \<Rightarrow> (network_error, unit) result" where
  "wireguard_client k = map_err (wireguard_error ''create WireGuard client'') (k_client k)"

definition get_wireguard_device :: "wg_kernel \<Rightarrow> (network_error, device_peer list) result" where
  "get_wireguard_device k = map_err (wireguard_error (''get WireGuard device '' @ interface_debug)) (k_get_device k)"

definition device_peer_snapshot_of :: "device_peer \<Rightarrow> device_peer_snapshot" where
  "device_peer_snapshot_of p =
     \<lparr>ds_endpoint = dp_endpoint p,
      ds_last_handshake_time =
        (if dp_last_handshake_time p = 0 then None
         else if dp_last_handshake_time p div 1000000000 < 2 ^ 63 then Some (dp_last_handshake_time p) else None),
      ds_receive_bytes = dp_rx_bytes p, ds_transmit_bytes = dp_tx_bytes p\<rparr>"

definition key_hex :: "8 word list \<Rightarrow> string" where
  "key_hex key = hex_encode key"

definition wireguard_network_new :: "32 word \<Rightarrow> 'n wg_state" where
  "wireguard_network_new link_index = \<lparr>ws_link_index = link_index, ws_peers = None, ws_watchers = [], ws_running = False\<rparr>"

section \<open>The update of the device\<close>

definition allowed_ip_values :: "'n net_ops \<Rightarrow> 'n peer_config \<Rightarrow> (network_error, (ip_addr \<times> nat) list) result" where
  "allowed_ip_values net p = map_ok (map (\<lambda>prefix. (net_addr net prefix, net_prefix_len net prefix))) (prefixes net p)"

definition configured_peer_update ::
  "'n peer_config \<Rightarrow> (ip_addr \<times> nat) list \<Rightarrow> (network_error, peer_update) result" where
  "configured_peer_update p allowed_ips =
     rbind (ok_or (NetInvalid ''parse peer public key: key is absent'') (pc_public_key p)) (\<lambda>public_key.
     rbind (key_from_secret public_key ''peer public key'') (\<lambda>public_key.
     Ok ((peer_update_from_public_key public_key)
          \<lparr>pu_flags := [ReplaceAllowedIps], pu_keepalive := Some (of_int WIREGUARD_KEEPALIVE_INTERVAL),
           pu_allowed_ips := allowed_ips, pu_endpoint := map_option arc_socket (pc_endpoint p)\<rparr>)))"

definition removed_peer_updates :: "peer_update list \<Rightarrow> device_peer list \<Rightarrow> peer_update list" where
  "removed_peer_updates configured current_peers =
     map (\<lambda>current_peer. (peer_update_from_public_key (dp_public_key current_peer))\<lparr>pu_flags := [RemoveMe]\<rparr>)
       (filter (\<lambda>current_peer. \<not> list_ex (\<lambda>p. pu_public_key p = dp_public_key current_peer) configured) current_peers)"

definition wireguard_device_update ::
  "'n net_ops \<Rightarrow> 'n wg_config \<Rightarrow> device_peer list \<Rightarrow> (network_error, device_update) result" where
  "wireguard_device_update net config current_peers =
     rbind (ok_or (NetInvalid ''parse private key: key is absent'') (cf_private_key config)) (\<lambda>private_key.
     rbind (key_from_secret private_key ''private key'') (\<lambda>private_key.
     if effective_wire_guard_port config < 0 \<or> 65535 < effective_wire_guard_port config
     then Err (NetInvalid (''parse WireGuard listen port: invalid port '' @ int_to_string (effective_wire_guard_port config)))
     else
       rbind (collect_ok (map (allowed_ip_values net) (cf_peers config))) (\<lambda>allowed.
       rbind (collect_ok (map (\<lambda>(p, ips). configured_peer_update p ips) (zip (cf_peers config) allowed))) (\<lambda>configured.
       Ok \<lparr>du_private_key = Some private_key, du_listen_port = Some (of_int (effective_wire_guard_port config)),
           du_peers = configured @ removed_peer_updates configured current_peers\<rparr>))))"

definition apply_wireguard_config ::
  "'n net_ops \<Rightarrow> wg_kernel \<Rightarrow> 'n wg_config \<Rightarrow> device_peer list \<Rightarrow> (network_error, unit) result" where
  "apply_wireguard_config net k config current_peers =
     rbind (wireguard_device_update net config current_peers) (\<lambda>update.
     map_err (wireguard_error (''configure WireGuard device '' @ interface_debug)) (k_set_device k update))"

section \<open>Configuration\<close>

text \<open>The readings of the clock are numbered; new references are allocated at locations from \<open>fresh\<close> on.\<close>

definition peer_key :: "'n peer_config \<Rightarrow> (network_error, string) result" where
  "peer_key c = map_err NetInvalid (key_string c)"

fun first_peers ::
  "(nat \<Rightarrow> int) \<Rightarrow> nat \<Rightarrow> (string, device_peer_snapshot) bmap \<Rightarrow> 'n peer_config list \<Rightarrow> (string, 'n peer) bmap \<Rightarrow>
   (network_error, (string, 'n peer) bmap) result" where
  "first_peers clock i device_peers [] peers = Ok peers"
| "first_peers clock i device_peers (c # cs) peers =
     rbind (peer_key c) (\<lambda>key.
     first_peers clock (Suc i) device_peers cs (bm_insert key (peer_new_at c (bm_get device_peers key) (clock i)) peers))"

definition merged_peer :: "'n peer_config \<Rightarrow> int \<Rightarrow> 'n peer option \<Rightarrow> 'n peer" where
  "merged_peer c now p = (case p of Some p \<Rightarrow> update_config_at p c now | None \<Rightarrow> peer_new_at c None now)"

fun merge_peers ::
  "(nat \<Rightarrow> int) \<Rightarrow> nat \<Rightarrow> 'n peer_config list \<Rightarrow> (string, 'n peer) bmap \<Rightarrow>
   (string, 'n peer) bmap \<times> (network_error, string list) result" where
  "merge_peers clock i [] peers = (peers, Ok [])"
| "merge_peers clock i (c # cs) peers =
     (case peer_key c of
        Err e \<Rightarrow> (peers, Err e)
      | Ok key \<Rightarrow>
          (let (peers, keys) = merge_peers clock (Suc i) cs (bm_insert key (merged_peer c (clock i) (bm_get peers key)) peers)
           in (peers, map_ok (Cons key) keys)))"

definition initial_peers ::
  "(nat \<Rightarrow> int) \<Rightarrow> 'n wg_state \<Rightarrow> 'n wg_config \<Rightarrow> device_peer list \<Rightarrow> (network_error, (string, 'n peer) bmap) result" where
  "initial_peers clock st config device =
     (case ws_peers st of
        Some peers \<Rightarrow> Ok peers
      | None \<Rightarrow>
          first_peers clock 0 (bm_of_list (map (\<lambda>p. (key_hex (dp_public_key p), device_peer_snapshot_of p)) device))
            (cf_peers config) [])"

definition configure_device ::
  "'n net_ops \<Rightarrow> (nat \<Rightarrow> int) \<Rightarrow> wg_kernel \<Rightarrow> 'n wg_state \<Rightarrow> 'n wg_config \<Rightarrow> 'n wg_state \<times> (network_error, unit) result" where
  "configure_device net clock k st config =
     (case rbind (wireguard_client k) (\<lambda>_. get_wireguard_device k) of
        Err e \<Rightarrow> (st, Err e)
      | Ok device \<Rightarrow>
          (case initial_peers clock st config device of
             Err e \<Rightarrow> (st, Err e)
           | Ok peers \<Rightarrow>
               (case merge_peers clock (length (cf_peers config)) (cf_peers config) peers of
                  (peers, Err e) \<Rightarrow> (st\<lparr>ws_peers := Some peers\<rparr>, Err e)
                | (peers, Ok new_peer_keys) \<Rightarrow>
                    (st\<lparr>ws_peers := Some (filter (\<lambda>(key, _). key \<in> set new_peer_keys) peers)\<rparr>,
                     apply_wireguard_config net k config device))))"

section \<open>The control loop\<close>

text \<open>
  The handlers of a turn return the state, the events for the watchers and the result. An event is
  delivered through channels, whose failures are only logged.
\<close>

fun device_loop ::
  "(nat \<Rightarrow> int) \<Rightarrow> nat \<Rightarrow> nat \<Rightarrow> device_peer list \<Rightarrow> (string, 'n peer) bmap \<Rightarrow>
   (string, 'n peer) bmap \<times> (network_error, endpoint_change_event list) result" where
  "device_loop clock fresh i [] peers = (peers, Ok [])"
| "device_loop clock fresh i (d # ds) peers =
     (let key = key_hex (dp_public_key d) in
      case bm_get peers key of
        None \<Rightarrow> device_loop clock fresh (Suc i) ds peers
      | Some p \<Rightarrow>
          (let (changed, p) = update_from_device (fresh + i) (clock i) p (device_peer_snapshot_of d);
               peers = bm_insert key p peers
           in if \<not> changed then device_loop clock fresh (Suc i) ds peers
              else
                (case rbind (ok_or (NetInvalid ''updated peer endpoint is absent'') (map_option arc_socket (pc_endpoint (pe_config p)))) (\<lambda>endpoint.
                        map_ok (\<lambda>public_key. \<lparr>ev_public_key = public_key, ev_endpoint = endpoint\<rparr>) (secret_from_bytes (dp_public_key d))) of
                   Err e \<Rightarrow> (peers, Err e)
                 | Ok event \<Rightarrow>
                     (let (peers, events) = device_loop clock fresh (Suc i) ds peers in (peers, map_ok (Cons event) events)))))"

definition update_peers_from_device ::
  "(nat \<Rightarrow> int) \<Rightarrow> nat \<Rightarrow> wg_kernel \<Rightarrow> 'n wg_state \<Rightarrow>
   'n wg_state \<times> endpoint_change_event list \<times> (network_error, unit) result" where
  "update_peers_from_device clock fresh k st =
     (case rbind (wireguard_client k) (\<lambda>_. get_wireguard_device k) of
        Err e \<Rightarrow> (st, [], Err e)
      | Ok device \<Rightarrow>
          (case ws_peers st of
             None \<Rightarrow> (st, [], Err (NetInvalid ''peers are not configured''))
           | Some peers \<Rightarrow>
               (case device_loop clock fresh 0 device peers of
                  (peers, Err e) \<Rightarrow> (st\<lparr>ws_peers := Some peers\<rparr>, [], Err e)
                | (peers, Ok events) \<Rightarrow> (st\<lparr>ws_peers := Some peers\<rparr>, events, Ok ()))))"

fun change_loop ::
  "(nat \<Rightarrow> int) \<Rightarrow> nat \<Rightarrow> nat \<Rightarrow> (string, 'n peer) bmap \<Rightarrow>
   (string, 'n peer) bmap \<times> (network_error, endpoint_change_event list) result" where
  "change_loop clock fresh i [] = ([], Ok [])"
| "change_loop clock fresh i ((key, p) # ps) =
     (case should_change_endpoint p of
        None \<Rightarrow> (let (ps, events) = change_loop clock fresh (Suc i) ps in ((key, p) # ps, events))
      | Some endpoint \<Rightarrow>
          (let config = (pe_config p)\<lparr>pc_endpoint := Some \<lparr>arc_location = fresh + i, arc_socket = endpoint\<rparr>\<rparr>;
               p = update_config_at p config (clock i)
           in case pc_public_key (pe_config p) of
                None \<Rightarrow> ((key, p) # ps, Err (NetInvalid ''peer public key is absent''))
              | Some public_secret \<Rightarrow>
                  (let (ps, events) = change_loop clock fresh (Suc i) ps
                   in ((key, p) # ps, map_ok (Cons \<lparr>ev_public_key = public_secret, ev_endpoint = endpoint\<rparr>) events))))"

definition endpoint_update :: "endpoint_change_event \<Rightarrow> 8 word list \<Rightarrow> peer_update" where
  "endpoint_update event public_key =
     (peer_update_from_public_key public_key)\<lparr>pu_flags := [UpdateOnly], pu_endpoint := Some (ev_endpoint event)\<rparr>"

definition apply_endpoint_changes :: "wg_kernel \<Rightarrow> endpoint_change_event list \<Rightarrow> (network_error, unit) result" where
  "apply_endpoint_changes k events =
     rbind (wireguard_client k) (\<lambda>_.
     rbind (get_wireguard_device k) (\<lambda>device.
     rbind (collect_ok (map (\<lambda>event. key_from_secret (ev_public_key event) ''peer public key'') events)) (\<lambda>changed_keys.
     case position (\<lambda>key. \<not> list_ex (\<lambda>p. dp_public_key p = key) device) changed_keys of
       Some missing_index \<Rightarrow>
         Err (NetInvalid (''configure WireGuard device '' @ interface_debug @ '' with endpoint changes: update-only peer '' @
           to_hex_string (ev_public_key (events ! missing_index)) @ '' does not exist''))
     | None \<Rightarrow>
         map_err (wireguard_error (''configure WireGuard device '' @ interface_debug @ '' with endpoint changes''))
           (k_set_device k \<lparr>du_private_key = None, du_listen_port = None,
             du_peers = map (\<lambda>(event, public_key). endpoint_update event public_key) (zip events changed_keys)\<rparr>))))"

definition change_wire_guard_endpoints ::
  "(nat \<Rightarrow> int) \<Rightarrow> nat \<Rightarrow> wg_kernel \<Rightarrow> 'n wg_state \<Rightarrow>
   'n wg_state \<times> endpoint_change_event list \<times> (network_error, unit) result" where
  "change_wire_guard_endpoints clock fresh k st =
     (case ws_peers st of
        None \<Rightarrow> (st, [], Err (NetInvalid ''peers are not configured''))
      | Some peers \<Rightarrow>
          (case change_loop clock fresh 0 peers of
             (peers, Err e) \<Rightarrow> (st\<lparr>ws_peers := Some peers\<rparr>, [], Err e)
           | (peers, Ok []) \<Rightarrow> (st\<lparr>ws_peers := Some peers\<rparr>, [], Ok ())
           | (peers, Ok events) \<Rightarrow>
               (case apply_endpoint_changes k events of
                  Err e \<Rightarrow> (st\<lparr>ws_peers := Some peers\<rparr>, [], Err e)
                | Ok _ \<Rightarrow> (st\<lparr>ws_peers := Some peers\<rparr>, events, Ok ()))))"

section \<open>The life of the interface\<close>

definition run_start :: "wg_kernel \<Rightarrow> 'n wg_state \<Rightarrow> 'n wg_state \<times> (network_error, unit) result" where
  "run_start k st =
     (case wireguard_client k of
        Err e \<Rightarrow> (st, Err e)
      | Ok _ \<Rightarrow>
          if ws_running st then (st, Err (NetInvalid ''network is already running''))
          else (st\<lparr>ws_running := True\<rparr>, Ok ()))"

definition run_tick ::
  "(nat \<Rightarrow> int) \<Rightarrow> nat \<Rightarrow> wg_kernel \<Rightarrow> (nat \<Rightarrow> int) \<Rightarrow> nat \<Rightarrow> wg_kernel \<Rightarrow> 'n wg_state \<Rightarrow> 'n wg_state \<times> endpoint_change_event list" where
  "run_tick clock fresh k clock' fresh' k' st =
     (let (st, reported, _) = update_peers_from_device clock fresh k st;
          (st, chosen, _) = change_wire_guard_endpoints clock' fresh' k' st
      in (st, reported @ chosen))"

definition run_cancelled :: "'n wg_state \<Rightarrow> 'n wg_state" where
  "run_cancelled st = st\<lparr>ws_watchers := [], ws_running := False\<rparr>"

definition watch_endpoints :: "nat \<Rightarrow> 'n wg_state \<Rightarrow> 'n wg_state" where
  "watch_endpoints sender st = st\<lparr>ws_watchers := ws_watchers st @ [sender]\<rparr>"

text \<open>The states of an interface, with the kernel and the clock free at every step.\<close>

inductive wg_reachable :: "'n net_ops \<Rightarrow> 'n wg_state \<Rightarrow> bool" for net where
  new: "wg_reachable net (wireguard_network_new link_index)"
| configure: "wg_reachable net st \<Longrightarrow> wg_reachable net (fst (configure_device net clock k st config))"
| start: "wg_reachable net st \<Longrightarrow> wg_reachable net (fst (run_start k st))"
| tick: "wg_reachable net st \<Longrightarrow> ws_running st \<Longrightarrow> wg_reachable net (fst (run_tick clock fresh k clock' fresh' k' st))"
| cancelled: "wg_reachable net st \<Longrightarrow> ws_running st \<Longrightarrow> wg_reachable net (run_cancelled st)"
| watch: "wg_reachable net st \<Longrightarrow> wg_reachable net (watch_endpoints sender st)"

section \<open>The peers are kept under their keys\<close>

definition keyed :: "string \<times> 'n peer \<Rightarrow> bool" where
  "keyed kp \<longleftrightarrow> key_string (pe_config (snd kp)) = Ok (fst kp)"

definition peers_ok :: "(string, 'n peer) bmap \<Rightarrow> bool" where
  "peers_ok ps \<longleftrightarrow> bm_ok ps \<and> list_all keyed ps"

definition wg_ok :: "'n wg_state \<Rightarrow> bool" where
  "wg_ok st \<longleftrightarrow> pred_option peers_ok (ws_peers st)"

lemma peers_ok_get: "peers_ok ps \<longleftrightarrow> bm_ok ps \<and> (\<forall>key p. bm_get ps key = Some p \<longrightarrow> key_string (pe_config p) = Ok key)"
  by (force simp: peers_ok_def keyed_def list_all_iff bm_get_in [symmetric])

lemma peers_ok_insert: "peers_ok ps \<Longrightarrow> key_string (pe_config p) = Ok key \<Longrightarrow> peers_ok (bm_insert key p ps)"
  by (simp add: peers_ok_get bm_ok_insert bm_get_insert)

lemma peers_ok_filter: "peers_ok ps \<Longrightarrow> peers_ok (filter P ps)"
  by (auto simp: peers_ok_def bm_ok_def list_all_iff sorted_wrt_map sorted_wrt_filter)

lemma pe_config_new [simp]: "pe_config (peer_new_at c d now) = c"
  by (simp add: peer_new_at_def)

lemma pe_config_update [simp]: "pe_config (update_config_at p c now) = c"
  by (simp add: update_config_at_def)

lemma update_from_device_config:
  "pc_public_key (pe_config (snd (update_from_device fresh now p d))) = pc_public_key (pe_config p)"
  "fst (update_from_device fresh now p d) \<Longrightarrow> pc_endpoint (pe_config (snd (update_from_device fresh now p d))) \<noteq> None"
  by (auto simp: update_from_device_def calculate_status_at_def Let_def split: option.splits)

lemma key_string_cong: "pc_public_key c = pc_public_key d \<Longrightarrow> key_string c = key_string d"
  by (simp add: key_string_def)

lemma first_peers_ok: "first_peers clock i device cs ps = Ok qs \<Longrightarrow> peers_ok ps \<Longrightarrow> peers_ok qs"
  by (induction clock i device cs ps rule: first_peers.induct)
    (auto simp: rbind_eq_Ok peer_key_def peers_ok_insert)

lemma pe_config_merged [simp]: "pe_config (merged_peer c now p) = c"
  by (simp add: merged_peer_def split: option.splits)

lemma fst_cons_result [simp]: "fst (case x of (ps, r) \<Rightarrow> (ps, f r)) = fst x" "snd (case x of (ps, r) \<Rightarrow> (ps, f r)) = f (snd x)"
  by (simp_all split: prod.splits)

lemma merge_peers_ok: "peers_ok ps \<Longrightarrow> peers_ok (fst (merge_peers clock i cs ps))"
  by (induction cs arbitrary: i ps) (auto simp: peer_key_def peers_ok_insert Let_def split: sum.splits)

lemma secret_from_bytes_ok: "secret_from_bytes bytes = Ok (Some bytes)"
  by (simp add: secret_from_bytes_def from_hex_string_def decode_hex_def decode_hex_encode)

lemma device_loop_ok:
  "peers_ok ps \<Longrightarrow> peers_ok (fst (device_loop clock fresh i ds ps)) \<and> is_ok (snd (device_loop clock fresh i ds ps))"
proof (induction ds arbitrary: i ps)
  case (Cons d ds)
  let ?key = "key_hex (dp_public_key d)"
  show ?case
  proof (cases "bm_get ps ?key")
    case None
    with Cons show ?thesis by (simp add: Let_def)
  next
    case (Some p)
    obtain changed q where upd: "update_from_device (fresh + i) (clock i) p (device_peer_snapshot_of d) = (changed, q)" by fastforce
    then have q: "pc_public_key (pe_config q) = pc_public_key (pe_config p)" "changed \<Longrightarrow> pc_endpoint (pe_config q) \<noteq> None"
      using update_from_device_config [of "fresh + i" "clock i" p "device_peer_snapshot_of d"] by simp_all
    have "key_string (pe_config q) = Ok ?key" using Cons.prems Some key_string_cong [OF q(1)] by (simp add: peers_ok_get)
    then have ok: "peers_ok (bm_insert ?key q ps)" using Cons.prems by (rule peers_ok_insert [rotated])
    show ?thesis using Some upd q(2) Cons.IH [OF ok, of "Suc i"]
      by (cases changed) (auto simp: Let_def secret_from_bytes_ok ok_or_def is_ok_iff)
  qed
qed simp

lemma keyed_iff: "keyed (key, p) \<longleftrightarrow> (\<exists>s. pc_public_key (pe_config p) = Some s \<and> to_hex_string s = key)"
  by (cases "pc_public_key (pe_config p)") (simp_all add: keyed_def key_string_def ok_or_def)

lemma change_loop_ok:
  "list_all keyed ps \<Longrightarrow>
   map fst (fst (change_loop clock fresh i ps)) = map fst ps \<and> list_all keyed (fst (change_loop clock fresh i ps))
   \<and> is_ok (snd (change_loop clock fresh i ps))"
proof (induction ps arbitrary: i)
  case (Cons kp ps)
  obtain key p where kp: "kp = (key, p)" by fastforce
  with Cons.prems obtain s where s: "pc_public_key (pe_config p) = Some s" "to_hex_string s = key" by (auto simp: keyed_iff)
  show ?case using Cons.IH [of "Suc i"] Cons.prems s kp
    by (auto simp: Let_def is_ok_iff keyed_iff split: option.splits prod.splits)
qed simp

lemma peers_ok_change: "peers_ok ps \<Longrightarrow> peers_ok (fst (change_loop clock fresh i ps))"
  using change_loop_ok [of ps clock fresh i] by (simp add: peers_ok_def bm_ok_def)

lemma initial_peers_ok: "wg_ok st \<Longrightarrow> initial_peers clock st config device = Ok ps \<Longrightarrow> peers_ok ps"
  using first_peers_ok [of clock 0 _ "cf_peers config" "[]" ps]
  by (auto simp: initial_peers_def wg_ok_def peers_ok_def bm_ok_def split: option.splits)

lemma configure_device_wg_ok: "wg_ok st \<Longrightarrow> wg_ok (fst (configure_device net clock k st config))"
proof -
  assume ok: "wg_ok st"
  have "peers_ok qs \<and> peers_ok (filter P qs)"
    if "initial_peers clock st config device = Ok ps" "merge_peers clock n (cf_peers config) ps = (qs, r)" for device ps n qs r P
    using merge_peers_ok [OF initial_peers_ok [OF ok that(1)], of clock n "cf_peers config"] peers_ok_filter that(2) by simp
  with ok show ?thesis by (simp add: configure_device_def wg_ok_def split: sum.split prod.split)
qed

lemma update_peers_wg_ok: "wg_ok st \<Longrightarrow> wg_ok (fst (update_peers_from_device clock fresh k st))"
proof -
  assume ok: "wg_ok st"
  have "peers_ok qs" if "ws_peers st = Some ps" "device_loop clock fresh 0 device ps = (qs, r)" for device ps qs r
    using device_loop_ok [of ps clock fresh 0 device] ok that by (simp add: wg_ok_def)
  with ok show ?thesis by (simp add: update_peers_from_device_def wg_ok_def split: sum.split prod.split option.split)
qed

lemma change_endpoints_wg_ok: "wg_ok st \<Longrightarrow> wg_ok (fst (change_wire_guard_endpoints clock fresh k st))"
proof -
  assume ok: "wg_ok st"
  have "peers_ok qs" if "ws_peers st = Some ps" "change_loop clock fresh 0 ps = (qs, r)" for ps qs r
    using peers_ok_change [of ps clock fresh 0] ok that by (simp add: wg_ok_def)
  with ok show ?thesis
    by (simp add: change_wire_guard_endpoints_def wg_ok_def split: sum.split prod.split option.split list.split)
qed

lemma run_tick_wg_ok: "wg_ok st \<Longrightarrow> wg_ok (fst (run_tick clock fresh k clock' fresh' k' st))"
  by (simp add: run_tick_def case_prod_unfold Let_def change_endpoints_wg_ok update_peers_wg_ok)

lemma wg_reachable_ok: "wg_reachable net st \<Longrightarrow> wg_ok st"
  by (induction rule: wg_reachable.induct)
    (auto simp: configure_device_wg_ok run_tick_wg_ok,
      auto simp: wg_ok_def wireguard_network_new_def run_start_def run_cancelled_def watch_endpoints_def split: sum.splits)

section \<open>What a configuration leaves behind\<close>

lemma merge_peers_configs:
  "merge_peers clock i cs ps = (qs, Ok keys) \<Longrightarrow>
   map peer_key cs = map Ok keys \<and>
   (\<forall>key. map_option pe_config (bm_get qs key) = ((map_option pe_config \<circ> bm_get ps) ++ map_of (rev (zip keys cs))) key)"
proof (induction cs arbitrary: i ps keys)
  case Nil
  then show ?case by simp
next
  case (Cons c cs)
  obtain key where key: "peer_key c = Ok key" using Cons.prems by (auto split: sum.splits)
  obtain ks where ks: "keys = key # ks"
    "merge_peers clock (Suc i) cs (bm_insert key (merged_peer c (clock i) (bm_get ps key)) ps) = (qs, Ok ks)"
    using Cons.prems key by (auto split: prod.splits simp: map_ok_def split: sum.splits)
  show ?case using Cons.IH [OF ks(2)] key ks(1)
    by (auto simp: bm_get_insert map_add_def split: option.splits)
qed

lemma bm_get_filter: "bm_get (filter (\<lambda>(key, _). P key) ps) key = (if P key then bm_get ps key else None)"
  by (induction ps) (auto simp: bm_get_def)

text \<open>The update of a configured peer, and the updates of the others.\<close>

definition configures :: "'n net_ops \<Rightarrow> 'n peer_config \<Rightarrow> peer_update \<Rightarrow> bool" where
  "configures net c x \<longleftrightarrow>
     map_option as_bytes (pc_public_key c) = Some (pu_public_key x) \<and> length (pu_public_key x) = 32 \<and>
     pu_flags x = [ReplaceAllowedIps] \<and> allowed_ip_values net c = Ok (pu_allowed_ips x) \<and>
     pu_endpoint x = map_option arc_socket (pc_endpoint c)"

definition replaces_peers :: "'n net_ops \<Rightarrow> 'n wg_config \<Rightarrow> device_peer list \<Rightarrow> device_update \<Rightarrow> bool" where
  "replaces_peers net config device u \<longleftrightarrow>
     (\<exists>configured removed. du_peers u = configured @ removed \<and> list_all2 (configures net) (cf_peers config) configured \<and>
        list_all (\<lambda>x. pu_flags x = [RemoveMe]) removed \<and>
        pu_public_key ` set removed = dp_public_key ` set device - pu_public_key ` set configured)"

lemma configured_peer_update_Ok:
  "allowed_ip_values net c = Ok ips \<Longrightarrow> configured_peer_update c ips = Ok x \<Longrightarrow> configures net c x"
  by (auto simp: configured_peer_update_def configures_def result_simps key_from_secret_def ok_or_def
      peer_update_from_public_key_def split: option.splits if_splits)

lemma wireguard_device_update_Ok:
  assumes "wireguard_device_update net config device = Ok u"
  shows "replaces_peers net config device u"
proof -
  obtain allowed configured where
    allowed: "map (allowed_ip_values net) (cf_peers config) = map Ok allowed" and
    configured: "map (\<lambda>(p, ips). configured_peer_update p ips) (zip (cf_peers config) allowed) = map Ok configured" and
    u: "du_peers u = configured @ removed_peer_updates configured device"
    using assms by (auto simp: wireguard_device_update_def result_simps split: if_splits)
  have len: "length allowed = length (cf_peers config)" using allowed by (metis length_map)
  have "list_all2 (configures net) (cf_peers config) configured"
  proof (rule list_all2_all_nthI)
    show "length (cf_peers config) = length configured" using configured len by (metis length_map length_zip min.idem)
    fix n assume n: "n < length (cf_peers config)"
    have "allowed_ip_values net (cf_peers config ! n) = Ok (allowed ! n)" using allowed n len by (metis nth_map)
    moreover have "configured_peer_update (cf_peers config ! n) (allowed ! n) = Ok (configured ! n)"
      using arg_cong [OF configured, of "\<lambda>xs. xs ! n"] n len \<open>length (cf_peers config) = length configured\<close> by simp
    ultimately show "configures net (cf_peers config ! n) (configured ! n)" by (rule configured_peer_update_Ok)
  qed
  moreover have "list_all (\<lambda>x. pu_flags x = [RemoveMe]) (removed_peer_updates configured device)"
    by (simp add: removed_peer_updates_def list_all_iff)
  moreover have "pu_public_key ` set (removed_peer_updates configured device) = dp_public_key ` set device - pu_public_key ` set configured"
    by (auto simp: removed_peer_updates_def list_ex_iff peer_update_from_public_key_def image_iff) metis
  ultimately show ?thesis using u by (auto simp: replaces_peers_def)
qed

section \<open>Properties\<close>

text \<open>
  (C37) Whatever the kernel answers and whatever configurations are applied, including failing ones, the peers of
  the interface are kept under the hexadecimal text of their public keys, one peer for a key. The loops of a turn
  therefore never end with their internal errors of a peer without a key or without an endpoint.
\<close>

theorem wireguard_peers_under_keys:
  assumes "wg_reachable net st" "ws_peers st = Some peers"
  shows "distinct (map fst peers) \<and> list_all (\<lambda>(key, p). key_string (pe_config p) = Ok key) peers
    \<and> is_ok (snd (device_loop clock fresh 0 device peers)) \<and> is_ok (snd (change_loop clock fresh 0 peers))"
proof -
  have ok: "peers_ok peers" using wg_reachable_ok [OF assms(1)] assms(2) by (simp add: wg_ok_def)
  then have "distinct (map fst peers)" by (simp add: peers_ok_def bm_ok_def strict_sorted_iff)
  moreover have "list_all (\<lambda>(key, p). key_string (pe_config p) = Ok key) peers"
    using ok by (auto simp: peers_ok_def keyed_def list_all_iff)
  ultimately show ?thesis using ok device_loop_ok [OF ok] change_loop_ok [of peers clock fresh 0] by (simp add: peers_ok_def)
qed

text \<open>
  (C38) A successful configuration of a reachable interface leaves exactly the configured peers, each with the last
  configuration given for its key, and the kernel has accepted an update that sets the keys, allowed addresses and
  endpoints of exactly these peers and removes exactly the other peers of the device.
\<close>

theorem configure_device_exact:
  assumes "wg_reachable net st" "configure_device net clock k st config = (st', Ok ())"
  shows "\<exists>device keys peers u. k_get_device k = Ok device \<and> k_set_device k u = Ok () \<and> replaces_peers net config device u
    \<and> map key_string (cf_peers config) = map Ok keys \<and> ws_peers st' = Some peers
    \<and> (\<forall>key. map_option pe_config (bm_get peers key) = map_of (rev (zip keys (cf_peers config))) key)"
proof -
  obtain device ps qs keys where
    device: "k_get_device k = Ok device" and
    merge: "merge_peers clock (length (cf_peers config)) (cf_peers config) ps = (qs, Ok keys)" and
    st': "ws_peers st' = Some (filter (\<lambda>(key, _). key \<in> set keys) qs)" and
    apply_ok: "apply_wireguard_config net k config device = Ok ()"
    using assms(2) by (auto simp: configure_device_def wireguard_client_def get_wireguard_device_def result_simps split: sum.splits prod.splits)
  obtain u where u: "wireguard_device_update net config device = Ok u" "k_set_device k u = Ok ()"
    using apply_ok by (auto simp: apply_wireguard_config_def result_simps)
  note configs = merge_peers_configs [OF merge]
  have keys: "map key_string (cf_peers config) = map Ok keys"
    using configs by (auto simp: peer_key_def map_eq_conv list_eq_iff_nth_eq)
  then have "length keys = length (cf_peers config)" by (metis length_map)
  then have "set keys = set (map fst (zip keys (cf_peers config)))" by simp
  then have "set keys = dom (map_of (rev (zip keys (cf_peers config))))" by (simp add: dom_map_of_conv_image_fst)
  then have "map_option pe_config (bm_get (filter (\<lambda>(key, _). key \<in> set keys) qs) key) = map_of (rev (zip keys (cf_peers config))) key" for key
    using configs by (auto simp: bm_get_filter map_add_def split: option.splits)
  with device u wireguard_device_update_Ok keys st' show ?thesis by blast
qed

text \<open>A kernel with a foreign peer, and a configuration with one peer.\<close>

definition demo_key :: "8 word list" where
  "demo_key = replicate 32 7"

definition demo_kernel :: wg_kernel where
  "demo_kernel = \<lparr>k_client = Ok (),
     k_get_device = Ok [\<lparr>dp_public_key = replicate 32 9, dp_endpoint = None, dp_last_handshake_time = 0, dp_rx_bytes = 0, dp_tx_bytes = 0\<rparr>],
     k_set_device = (\<lambda>_. Ok ())\<rparr>"

definition demo_net :: "ip_addr net_ops" where
  "demo_net = \<lparr>net_trunc = (\<lambda>x. x), net_addr = (\<lambda>x. x), net_prefix_len = bit_len, net_contains = (=), net_is_sibling = (\<lambda>_ _. False),
     net_supernet = (\<lambda>_. None), net_network = (\<lambda>x. x), net_new = (\<lambda>a _. Ok a), net_to_string = show_ip,
     net_from_str = (\<lambda>s. ok_or ''invalid IP address syntax'' (parse_ip s))\<rparr>"

definition demo_wg_config :: "ip_addr wg_config" where
  "demo_wg_config = \<lparr>cf_subnet = None, cf_management_ip = Some (V6 1), cf_wire_guard_port = 0, cf_mtu = 0,
     cf_private_key = Some (Some (replicate 32 1)), cf_public_key = Some (Some demo_key), cf_endpoints = [],
     cf_peers = [\<lparr>pc_subnet = None, pc_management_ip = Some (V6 2), pc_endpoint = None, pc_all_endpoints = [],
                  pc_public_key = Some (Some demo_key)\<rparr>]\<rparr>"

abbreviation demo_configured :: "ip_addr wg_state \<times> (network_error, unit) result" where
  "demo_configured \<equiv> configure_device demo_net (\<lambda>_. 0) demo_kernel (wireguard_network_new 1) demo_wg_config"

lemma demo_update: "is_ok (wireguard_device_update demo_net demo_wg_config device)"
  by (simp add: wireguard_device_update_def demo_wg_config_def demo_key_def key_from_secret_def as_bytes_def ok_or_def
      effective_wire_guard_port_def DEFAULT_WIREGUARD_PORT_def allowed_ip_values_def prefixes_def single_ip_prefix_def demo_net_def
      configured_peer_update_def)

lemma demo_configured_Ok:
  "snd demo_configured = Ok () \<and> ws_peers (fst demo_configured) \<noteq> None"
  using demo_update [of "[\<lparr>dp_public_key = replicate 32 9, dp_endpoint = None, dp_last_handshake_time = 0, dp_rx_bytes = 0, dp_tx_bytes = 0\<rparr>]"]
  by (auto simp add: configure_device_def wireguard_client_def get_wireguard_device_def demo_kernel_def initial_peers_def
      wireguard_network_new_def demo_wg_config_def peer_key_def key_string_def ok_or_def apply_wireguard_config_def is_ok_iff)

lemma demo_reachable: "wg_reachable demo_net (fst demo_configured)"
  by (intro wg_reachable.intros)

theorem wireguard_peers_under_keys_witness:
  "\<exists>peers. ws_peers (fst demo_configured) = Some peers \<and> distinct (map fst peers)
    \<and> list_all (\<lambda>(key, p). key_string (pe_config p) = Ok key) peers
    \<and> is_ok (snd (device_loop (\<lambda>_. 0) 0 0 [] peers)) \<and> is_ok (snd (change_loop (\<lambda>_. 0) 0 0 peers))"
proof -
  obtain peers where "ws_peers (fst demo_configured) = Some peers" using demo_configured_Ok by auto
  then show ?thesis using wireguard_peers_under_keys [OF demo_reachable, of peers "\<lambda>_. 0" 0 "[]"] by blast
qed

theorem configure_device_exact_witness:
  "\<exists>device keys peers u. k_get_device demo_kernel = Ok device \<and> k_set_device demo_kernel u = Ok ()
    \<and> replaces_peers demo_net demo_wg_config device u
    \<and> map key_string (cf_peers demo_wg_config) = map Ok keys \<and> ws_peers (fst demo_configured) = Some peers
    \<and> (\<forall>key. map_option pe_config (bm_get peers key) = map_of (rev (zip keys (cf_peers demo_wg_config))) key)"
proof (rule configure_device_exact)
  show "wg_reachable demo_net (wireguard_network_new 1)" by (rule wg_reachable.new)
  show "demo_configured = (fst demo_configured, Ok ())" using demo_configured_Ok by (metis prod.collapse)
qed

end
