(* ===== verification/Netlink.thy ===== *)
theory Netlink
  imports Wireguard
begin

text \<open>
  The links, addresses and routes of the WireGuard interface (the netlink calls of \<open>wireguard_linux.rs\<close>).
  The kernel is a parameter: its state is any type, a query is answered from the state, a change answers
  and leaves a new state, and a listing is a stream of results that may end in an error. Each function
  passes the state through its calls, in the order of the code, and returns it also when it fails
  half-way. The locale \<open>link_kernel\<close> states what the kernel promises of addresses and routes; it is
  interpreted on a kernel in memory.
\<close>

section \<open>Messages\<close>

datatype netlink_failure = NetlinkCode int string | NetlinkOther string

datatype route_metric = MetricMtu "32 word" | MetricOther

datatype route_attribute =
  RouteOif "32 word"
| RouteMetrics "route_metric list"
| RouteTable "32 word"
| RouteDestination ip_addr
| RouteOther

record route_message =
  rt_ipv4 :: bool
  rt_table :: "8 word"
  rt_cloned :: bool
  rt_prefix_length :: nat
  rt_attributes :: "route_attribute list"

datatype link_attribute = LinkIfName string | LinkMtu "32 word" | LinkOther

record link_message =
  lk_index :: "32 word"
  lk_up :: bool
  lk_attributes :: "link_attribute list"

datatype address_attribute = AddressLocal ip_addr | AddressAddress ip_addr | AddressOther

record address_message =
  am_index :: "32 word"
  am_prefix_length :: nat
  am_attributes :: "address_attribute list"

text \<open>A route to a prefix, with the preferred source of an IPv4 route.\<close>

record route_request =
  rr_network :: ip_addr
  rr_prefix_length :: nat
  rr_source :: "ip_addr option"
  rr_output :: "32 word"

record 's netlink =
  nl_handle :: "(string, unit) result"
  nl_find_route :: "'s \<Rightarrow> (netlink_failure, route_message option) result"
  nl_find_link :: "string \<Rightarrow> 's \<Rightarrow> (netlink_failure, link_message option) result"
  nl_get_link :: "32 word \<Rightarrow> 's \<Rightarrow> (netlink_failure, link_message option) result"
  nl_add_link :: "string \<Rightarrow> 's \<Rightarrow> (netlink_failure, unit) result \<times> 's"
  nl_del_link :: "32 word \<Rightarrow> 's \<Rightarrow> (netlink_failure, unit) result \<times> 's"
  nl_set_mtu :: "32 word \<Rightarrow> 32 word \<Rightarrow> 's \<Rightarrow> (netlink_failure, unit) result \<times> 's"
  nl_set_up :: "32 word \<Rightarrow> 's \<Rightarrow> (netlink_failure, unit) result \<times> 's"
  nl_add_address :: "32 word \<Rightarrow> ip_addr \<Rightarrow> nat \<Rightarrow> 's \<Rightarrow> (netlink_failure, unit) result \<times> 's"
  nl_addresses :: "32 word \<Rightarrow> 's \<Rightarrow> (netlink_failure, address_message) result list"
  nl_del_address :: "address_message \<Rightarrow> 's \<Rightarrow> (netlink_failure, unit) result \<times> 's"
  nl_add_route :: "route_request \<Rightarrow> 's \<Rightarrow> (netlink_failure, unit) result \<times> 's"
  nl_routes :: "bool \<Rightarrow> 's \<Rightarrow> (netlink_failure, route_message) result list"
  nl_del_route :: "route_message \<Rightarrow> 's \<Rightarrow> (netlink_failure, unit) result \<times> 's"

definition EEXIST :: int where
  "EEXIST = 17"

definition is_errno :: "netlink_failure \<Rightarrow> int \<Rightarrow> bool" where
  "is_errno error errno = (case error of NetlinkCode code _ \<Rightarrow> \<bar>code\<bar> = errno | NetlinkOther _ \<Rightarrow> False)"

fun netlink_failure_display :: "netlink_failure \<Rightarrow> string" where
  "netlink_failure_display (NetlinkCode _ message) = message"
| "netlink_failure_display (NetlinkOther message) = message"

definition netlink_error :: "string \<Rightarrow> netlink_failure \<Rightarrow> network_error" where
  "netlink_error context source = NetNetlink context (netlink_failure_display source)"

definition netlink_handle :: "'s netlink \<Rightarrow> (network_error, unit) result" where
  "netlink_handle nl = map_err (NetIo ''create route netlink client'') (nl_handle nl)"

fun find_map :: "('a \<Rightarrow> 'b option) \<Rightarrow> 'a list \<Rightarrow> 'b option" where
  "find_map f [] = None"
| "find_map f (x # xs) = (case f x of Some y \<Rightarrow> Some y | None \<Rightarrow> find_map f xs)"

definition debug_name :: "string \<Rightarrow> string" where
  "debug_name name = CHR 0x22 # name @ [CHR 0x22]"

section \<open>Links\<close>

definition find_link_by_name :: "'s netlink \<Rightarrow> string \<Rightarrow> 's \<Rightarrow> (network_error, link_message option) result" where
  "find_link_by_name nl name s = map_err (netlink_error (''find WireGuard link '' @ debug_name name)) (nl_find_link nl name s)"

definition create_or_get_link :: "'s netlink \<Rightarrow> string \<Rightarrow> 's \<Rightarrow> (network_error, link_message) result \<times> 's" where
  "create_or_get_link nl name s =
     (case find_link_by_name nl name s of
        Err e \<Rightarrow> (Err e, s)
      | Ok (Some link) \<Rightarrow> (Ok link, s)
      | Ok None \<Rightarrow>
          (case nl_add_link nl name s of
             (Err source, s) \<Rightarrow> (Err (netlink_error (''create WireGuard link '' @ debug_name name) source), s)
           | (Ok _, s) \<Rightarrow>
               (rbind (find_link_by_name nl name s)
                  (ok_or (NetInvalid (''find created WireGuard link '' @ debug_name name @ '': link disappeared''))), s)))"

definition get_link_by_index :: "'s netlink \<Rightarrow> 32 word \<Rightarrow> 's \<Rightarrow> (network_error, link_message) result" where
  "get_link_by_index nl index s =
     rbind (map_err (netlink_error (''get network interface index '' @ nat_to_string (unat index))) (nl_get_link nl index s)) (\<lambda>link.
     ok_or (NetInvalid (''get network interface index '' @ nat_to_string (unat index) @ '': not found'')) link)"

definition link_name :: "link_message \<Rightarrow> string option" where
  "link_name link = find_map (\<lambda>a. case a of LinkIfName name \<Rightarrow> Some name | _ \<Rightarrow> None) (lk_attributes link)"

definition link_mtu :: "link_message \<Rightarrow> 32 word option" where
  "link_mtu link = find_map (\<lambda>a. case a of LinkMtu mtu \<Rightarrow> Some mtu | _ \<Rightarrow> None) (lk_attributes link)"

definition route_output_interface :: "route_message \<Rightarrow> 32 word option" where
  "route_output_interface route = find_map (\<lambda>a. case a of RouteOif index \<Rightarrow> Some index | _ \<Rightarrow> None) (rt_attributes route)"

definition route_mtu :: "route_message \<Rightarrow> 32 word option" where
  "route_mtu route =
     find_map (\<lambda>a. case a of
         RouteMetrics metrics \<Rightarrow> find_map (\<lambda>m. case m of MetricMtu mtu \<Rightarrow> if mtu > 0 then Some mtu else None | _ \<Rightarrow> None) metrics
       | _ \<Rightarrow> None) (rt_attributes route)"

definition detect_egress_mtu :: "'s netlink \<Rightarrow> 's \<Rightarrow> (network_error, 32 word) result" where
  "detect_egress_mtu nl s =
     rbind (netlink_handle nl) (\<lambda>_.
     rbind (map_err (netlink_error ''get route to public address'') (nl_find_route nl s)) (\<lambda>route.
     rbind (ok_or (NetInvalid ''no route to public address'') route) (\<lambda>route.
     rbind (ok_or (NetInvalid ''get route to public address: route has no egress interface'') (route_output_interface route)) (\<lambda>link_index.
     rbind (get_link_by_index nl link_index s) (\<lambda>link.
     if link_name link = Some WIREGUARD_INTERFACE_NAME
     then Err (NetInvalid (''egress interface is the WireGuard interface '' @ [CHR 0x27] @ WIREGUARD_INTERFACE_NAME @ [CHR 0x27]))
     else
       (case route_mtu route of
          Some mtu \<Rightarrow> Ok mtu
        | None \<Rightarrow> ok_or (NetInvalid ''get egress interface for route: interface has no MTU'') (link_mtu link)))))))"

section \<open>Addresses\<close>

definition message_address :: "address_message \<Rightarrow> ip_addr option" where
  "message_address message =
     find_map (\<lambda>a. case a of AddressLocal address \<Rightarrow> Some address | AddressAddress address \<Rightarrow> Some address | _ \<Rightarrow> None)
       (am_attributes message)"

definition address_message_prefix :: "'n net_ops \<Rightarrow> address_message \<Rightarrow> (network_error, 'n) result" where
  "address_message_prefix net message =
     rbind (ok_or (NetInvalid ''invalid IP network: address is absent'') (message_address message)) (\<lambda>address.
     map_err (\<lambda>error. NetInvalid (''invalid IP network: '' @ error))
       (map_ok (net_trunc net) (net_new net address (am_prefix_length message))))"

fun add_addresses :: "'s netlink \<Rightarrow> 'n net_ops \<Rightarrow> 32 word \<Rightarrow> 'n list \<Rightarrow> 's \<Rightarrow> (network_error, unit) result \<times> 's" where
  "add_addresses nl net index [] s = (Ok (), s)"
| "add_addresses nl net index (address # addresses) s =
     (case nl_add_address nl index (net_addr net address) (net_prefix_len net address) s of
        (Ok _, s) \<Rightarrow> add_addresses nl net index addresses s
      | (Err source, s) \<Rightarrow>
          if \<not> is_errno source EEXIST
          then (Err (netlink_error (''add subnet address to WireGuard link '' @ interface_debug) source), s)
          else add_addresses nl net index addresses s)"

text \<open>The listing is that of the state in which it was asked for. The debug text of a prefix is the library's.\<close>

fun del_addresses ::
  "'s netlink \<Rightarrow> 'n net_ops \<Rightarrow> ('n \<Rightarrow> string) \<Rightarrow> 'n list \<Rightarrow> (netlink_failure, address_message) result list \<Rightarrow> 's \<Rightarrow>
   (network_error, unit) result \<times> 's" where
  "del_addresses nl net debug addresses [] s = (Ok (), s)"
| "del_addresses nl net debug addresses (next # stream) s =
     (case rbind (map_err (netlink_error (''list addresses on WireGuard link '' @ interface_debug)) next) (\<lambda>message.
             map_ok (Pair message) (address_message_prefix net message)) of
        Err e \<Rightarrow> (Err e, s)
      | Ok (message, prefix) \<Rightarrow>
          if prefix \<in> set addresses then del_addresses nl net debug addresses stream s
          else
            (case nl_del_address nl message s of
               (Err source, s) \<Rightarrow>
                 (Err (netlink_error (''remove address '' @ debug prefix @ '' from WireGuard link '' @ interface_debug) source), s)
             | (Ok _, s) \<Rightarrow> del_addresses nl net debug addresses stream s))"


section \<open>Routes\<close>

definition RT_TABLE_MAIN :: "8 word" where
  "RT_TABLE_MAIN = 254"

definition route_destination :: "route_message \<Rightarrow> ip_addr option" where
  "route_destination route = find_map (\<lambda>a. case a of RouteDestination address \<Rightarrow> Some address | _ \<Rightarrow> None) (rt_attributes route)"

definition route_message_prefix :: "'n net_ops \<Rightarrow> route_message \<Rightarrow> (network_error, 'n) result" where
  "route_message_prefix net route =
     rbind (ok_or (NetInvalid ''parse route destination: invalid IP network'') (route_destination route)) (\<lambda>address.
     map_err (\<lambda>error. NetInvalid (''parse route destination: '' @ error))
       (map_ok (net_trunc net) (net_new net address (rt_prefix_length route))))"

definition route_request_of :: "'n net_ops \<Rightarrow> 32 word \<Rightarrow> ip_addr \<Rightarrow> 'n \<Rightarrow> route_request" where
  "route_request_of net link_index ip prefix =
     \<lparr>rr_network = net_network net prefix, rr_prefix_length = net_prefix_len net prefix,
      rr_source = (if is_ipv4 (net_addr net prefix) then Some ip else None), rr_output = link_index\<rparr>"

fun add_routes :: "'s netlink \<Rightarrow> 'n net_ops \<Rightarrow> 32 word \<Rightarrow> ip_addr \<Rightarrow> 'n list \<Rightarrow> 's \<Rightarrow> (network_error, unit) result \<times> 's" where
  "add_routes nl net link_index ip [] s = (Ok (), s)"
| "add_routes nl net link_index ip (prefix # ps) s =
     (if is_ipv4 (net_addr net prefix) \<and> \<not> is_ipv4 ip
      then (Err (NetInvalid ''IPv4 peer route requires an IPv4 machine IP''), s)
      else
        (case nl_add_route nl (route_request_of net link_index ip prefix) s of
           (Ok _, s) \<Rightarrow> add_routes nl net link_index ip ps s
         | (Err source, s) \<Rightarrow>
             if \<not> is_errno source EEXIST
             then (Err (netlink_error (''add route to WireGuard link '' @ interface_debug) source), s)
             else add_routes nl net link_index ip ps s))"

definition in_main_table :: "route_message \<Rightarrow> bool" where
  "in_main_table route \<longleftrightarrow>
     \<not> ((case find_map (\<lambda>a. case a of RouteTable table \<Rightarrow> Some table | _ \<Rightarrow> None) (rt_attributes route) of
           Some table \<Rightarrow> table | None \<Rightarrow> ucast (rt_table route)) \<noteq> ucast RT_TABLE_MAIN \<or> rt_cloned route)"

definition managed_route :: "32 word \<Rightarrow> route_message \<Rightarrow> bool" where
  "managed_route link_index route \<longleftrightarrow> in_main_table route \<and> route_output_interface route = Some link_index"

fun del_routes ::
  "'s netlink \<Rightarrow> 'n net_ops \<Rightarrow> 32 word \<Rightarrow> 'n list \<Rightarrow> (netlink_failure, route_message) result list \<Rightarrow> 's \<Rightarrow>
   (network_error, unit) result \<times> 's" where
  "del_routes nl net link_index ps [] s = (Ok (), s)"
| "del_routes nl net link_index ps (Err source # stream) s =
     (Err (netlink_error (''list routes on WireGuard link '' @ interface_debug) source), s)"
| "del_routes nl net link_index ps (Ok route # stream) s =
     (if \<not> managed_route link_index route then del_routes nl net link_index ps stream s
      else
        (case route_message_prefix net route of
           Err e \<Rightarrow> (Err e, s)
         | Ok route_prefix \<Rightarrow>
             if route_prefix \<in> set ps then del_routes nl net link_index ps stream s
             else
               (case nl_del_route nl route s of
                  (Err source, s) \<Rightarrow>
                    (Err (netlink_error (''remove route '' @ net_to_string net route_prefix @ '' from WireGuard link '' @ interface_debug) source), s)
                | (Ok _, s) \<Rightarrow> del_routes nl net link_index ps stream s)))"

text \<open>The IPv4 routes are listed and cleaned before the IPv6 routes are listed.\<close>

definition del_all_routes :: "'s netlink \<Rightarrow> 'n net_ops \<Rightarrow> 32 word \<Rightarrow> 'n list \<Rightarrow> 's \<Rightarrow> (network_error, unit) result \<times> 's" where
  "del_all_routes nl net link_index ps s =
     (case del_routes nl net link_index ps (nl_routes nl True s) s of
        (Err e, s) \<Rightarrow> (Err e, s)
      | (Ok _, s) \<Rightarrow> del_routes nl net link_index ps (nl_routes nl False s) s)"



section \<open>The configuration of the interface\<close>

definition wireguard_network_create :: "'s netlink \<Rightarrow> 's \<Rightarrow> (network_error, 'n wg_state) result \<times> 's" where
  "wireguard_network_create nl s =
     (case netlink_handle nl of
        Err e \<Rightarrow> (Err e, s)
      | Ok _ \<Rightarrow>
          (case create_or_get_link nl WIREGUARD_INTERFACE_NAME s of
             (Err e, s) \<Rightarrow> (Err e, s)
           | (Ok link, s) \<Rightarrow> (Ok (wireguard_network_new (lk_index link)), s)))"

definition cleanup :: "'s netlink \<Rightarrow> 'n wg_state \<Rightarrow> 's \<Rightarrow> (network_error, unit) result \<times> 's" where
  "cleanup nl st s =
     (if ws_running st then (Err (NetInvalid ''network is still running, stop it before cleanup''), s)
      else
        (case netlink_handle nl of
           Err e \<Rightarrow> (Err e, s)
         | Ok _ \<Rightarrow>
             (case nl_del_link nl (ws_link_index st) s of
                (Err source, s) \<Rightarrow> (Err (netlink_error (''delete WireGuard link '' @ interface_debug) source), s)
              | (Ok _, s) \<Rightarrow> (Ok (), s))))"

text \<open>The whole of \<open>configure\<close>: the device, the address, the MTU, the link state and the routes.\<close>

definition configure_link :: "'s netlink \<Rightarrow> 'n wg_config \<Rightarrow> 32 word \<Rightarrow> 's \<Rightarrow> (network_error, unit) result \<times> 's" where
  "configure_link nl config index s =
     (if effective_mtu config < 0
      then (Err (NetInvalid (''set MTU '' @ int_to_string (effective_mtu config) @ '' on WireGuard link: invalid MTU'')), s)
      else
        (let mtu = of_int (effective_mtu config) in
         case get_link_by_index nl index s of
           Err e \<Rightarrow> (Err e, s)
         | Ok link \<Rightarrow>
             (case (if link_mtu link \<noteq> Some mtu then nl_set_mtu nl index mtu s else (Ok (), s)) of
                (Err source, s) \<Rightarrow>
                  (Err (netlink_error (''set MTU '' @ nat_to_string (unat mtu) @ '' on WireGuard link '' @ interface_debug) source), s)
              | (Ok _, s) \<Rightarrow>
                  (case (if \<not> lk_up link then nl_set_up nl index s else (Ok (), s)) of
                     (Err source, s) \<Rightarrow> (Err (netlink_error (''set WireGuard link '' @ interface_debug @ '' up'') source), s)
                   | (Ok _, s) \<Rightarrow> (Ok (), s)))))"



section \<open>What the kernel and the address library promise\<close>

text \<open>
  A prefix in normal form is rebuilt from its network address and length, and the prefix of a single
  address is only reached from that address at full length.
\<close>

locale ip_net_build = ip_net_laws +
  assumes rebuild: "ok p \<Longrightarrow> map_ok (net_trunc net) (net_new net (net_network net p) (net_prefix_len net p)) = Ok p"
    and single: "single_ip_prefix net m = Ok a \<Longrightarrow> net_addr net a = m \<and> net_prefix_len net a = bit_len m
      \<and> (map_ok (net_trunc net) (net_new net b n) = Ok a \<longleftrightarrow> b = m \<and> n = bit_len m)"

text \<open>
  The addresses and routes in a state of the kernel. A message for a single address, a route to a prefix
  (the kernel leaves the destination out when the prefix is empty), and the routes of other interfaces.
\<close>

definition single_address :: "ip_addr \<Rightarrow> address_message \<Rightarrow> bool" where
  "single_address a x \<longleftrightarrow> message_address x = Some a \<and> am_prefix_length x = bit_len a"

definition leads_to :: "ip_addr \<Rightarrow> nat \<Rightarrow> route_message \<Rightarrow> bool" where
  "leads_to network bits x \<longleftrightarrow> rt_prefix_length x = bits \<and> (0 < bits \<longrightarrow> route_destination x = Some network)"

definition foreign_routes :: "32 word \<Rightarrow> route_message set \<Rightarrow> route_message set" where
  "foreign_routes index xs = {x \<in> xs. route_output_interface x \<noteq> Some index}"

definition stale_route :: "'n net_ops \<Rightarrow> 32 word \<Rightarrow> 'n list \<Rightarrow> route_message \<Rightarrow> bool" where
  "stale_route net index wanted r \<longleftrightarrow> managed_route index r \<and> route_message_prefix net r \<notin> Ok ` set wanted"

text \<open>
  An address that is accepted is on the link. \<open>EEXIST\<close> says that the link has the address, which for
  IPv6 may be with another prefix length. A deletion removes the address; it may remove the secondary
  addresses of its subnet with it, but never another single address. An accepted route is in the main
  table; \<open>EEXIST\<close> says that the main table has a route to the prefix, through whatever interface. A
  listing that ends without an error is complete. Changes of routes and of the link leave the addresses
  alone, and changes of a link and its addresses leave the routes of the other interfaces alone.
\<close>

locale link_kernel =
  fixes nl :: "'s netlink" and addresses :: "'s \<Rightarrow> address_message set" and routes :: "'s \<Rightarrow> route_message set"
  assumes add_address: "nl_add_address nl i a n s = (Ok v, t) \<Longrightarrow>
      \<exists>x. addresses t = insert x (addresses s) \<and> am_index x = i \<and> message_address x = Some a \<and> am_prefix_length x = n"
    and address_exists: "nl_add_address nl i a n s = (Err e, t) \<Longrightarrow> is_errno e EEXIST \<Longrightarrow>
      addresses t = addresses s \<and> (\<exists>x\<in>addresses s. am_index x = i \<and> message_address x = Some a)"
    and listed_addresses: "nl_addresses nl i s = map Ok xs \<Longrightarrow> set xs = {x \<in> addresses s. am_index x = i}"
    and del_address: "nl_del_address nl x s = (Ok v, t) \<Longrightarrow>
      addresses t \<subseteq> addresses s - {x} \<and> (\<forall>y\<in>addresses s. y \<noteq> x \<and> single_address a y \<longrightarrow> y \<in> addresses t)"
    and add_route: "nl_add_route nl q s = (Ok v, t) \<Longrightarrow>
      \<exists>x. routes t = insert x (routes s) \<and> managed_route (rr_output q) x \<and> leads_to (rr_network q) (rr_prefix_length q) x"
    and route_exists: "nl_add_route nl q s = (Err e, t) \<Longrightarrow> is_errno e EEXIST \<Longrightarrow>
      routes t = routes s \<and> (\<exists>x\<in>routes s. in_main_table x \<and> leads_to (rr_network q) (rr_prefix_length q) x)"
    and listed_routes: "nl_routes nl ipv4 s = map Ok rs \<Longrightarrow> set rs = {r \<in> routes s. rt_ipv4 r = ipv4}"
    and del_route: "nl_del_route nl r s = (Ok v, t) \<Longrightarrow> routes t = routes s - {r}"
    and keep_addresses:
      "nl_set_mtu nl i mtu s = (u, t) \<Longrightarrow> addresses t = addresses s" "nl_set_up nl i s = (u, t) \<Longrightarrow> addresses t = addresses s"
      "nl_add_route nl q s = (u, t) \<Longrightarrow> addresses t = addresses s" "nl_del_route nl r s = (u, t) \<Longrightarrow> addresses t = addresses s"
    and keep_foreign:
      "nl_set_mtu nl i mtu s = (u, t) \<Longrightarrow> foreign_routes i (routes t) = foreign_routes i (routes s)"
      "nl_set_up nl i s = (u, t) \<Longrightarrow> foreign_routes i (routes t) = foreign_routes i (routes s)"
      "nl_add_address nl i a n s = (u, t) \<Longrightarrow> foreign_routes i (routes t) = foreign_routes i (routes s)"
      "nl_del_address nl x s = (u, t) \<Longrightarrow> foreign_routes (am_index x) (routes t) = foreign_routes (am_index x) (routes s)"
begin

subsection \<open>Addresses\<close>

lemma del_addresses_Ok:
  "del_addresses nl net debug wanted stream s = (Ok (), t) \<Longrightarrow>
   \<exists>listed. stream = map Ok listed \<and> list_all (\<lambda>x. address_message_prefix net x \<in> Ok ` set wanted \<or> x \<notin> addresses t) listed
     \<and> addresses t \<subseteq> addresses s
     \<and> (\<forall>y\<in>addresses s. single_address a y \<and> address_message_prefix net y \<in> Ok ` set wanted \<longrightarrow> y \<in> addresses t)
     \<and> (list_all (\<lambda>x. am_index x = i) listed \<longrightarrow> foreign_routes i (routes t) = foreign_routes i (routes s))"
proof (induction stream arbitrary: s)
  case (Cons item stream)
  obtain x p where x: "item = Ok x" "address_message_prefix net x = Ok p"
    using Cons.prems by (cases item; cases "address_message_prefix net (projr item)") auto
  show ?case
  proof (cases "p \<in> set wanted")
    case True
    then have "del_addresses nl net debug wanted stream s = (Ok (), t)" using Cons.prems x by simp
    from Cons.IH [OF this] obtain listed where "stream = map Ok listed"
      "list_all (\<lambda>x. address_message_prefix net x \<in> Ok ` set wanted \<or> x \<notin> addresses t) listed" "addresses t \<subseteq> addresses s"
      "\<forall>y\<in>addresses s. single_address a y \<and> address_message_prefix net y \<in> Ok ` set wanted \<longrightarrow> y \<in> addresses t"
      "list_all (\<lambda>x. am_index x = i) listed \<longrightarrow> foreign_routes i (routes t) = foreign_routes i (routes s)" by blast
    with x True show ?thesis by (intro exI [of _ "x # listed"]) simp
  next
    case False
    with Cons.prems x obtain v u where u: "nl_del_address nl x s = (Ok v, u)" "del_addresses nl net debug wanted stream u = (Ok (), t)"
      by (auto split: sum.splits prod.splits)
    from Cons.IH [OF u(2)] obtain listed where "stream = map Ok listed"
      "list_all (\<lambda>x. address_message_prefix net x \<in> Ok ` set wanted \<or> x \<notin> addresses t) listed" "addresses t \<subseteq> addresses u"
      "\<forall>y\<in>addresses u. single_address a y \<and> address_message_prefix net y \<in> Ok ` set wanted \<longrightarrow> y \<in> addresses t"
      "list_all (\<lambda>x. am_index x = i) listed \<longrightarrow> foreign_routes i (routes t) = foreign_routes i (routes u)" by blast
    with x False del_address [OF u(1), of a] keep_foreign(4) [OF u(1)] show ?thesis
      by (intro exI [of _ "x # listed"]) auto
  qed
qed simp

text \<open>The address is there after the additions: it was added, or the link has had it.\<close>

lemma add_address_Ok:
  assumes "add_addresses nl net i [p] s = (Ok (), t)"
  shows "\<exists>x\<in>addresses t. am_index x = i \<and> message_address x = Some (net_addr net p)
      \<and> (am_prefix_length x = net_prefix_len net p \<or> x \<in> addresses s)"
    and "foreign_routes i (routes t) = foreign_routes i (routes s)"
proof -
  obtain r where add: "nl_add_address nl i (net_addr net p) (net_prefix_len net p) s = (r, t)"
    using assms by (auto split: sum.splits if_splits prod.splits)
  show "\<exists>x\<in>addresses t. am_index x = i \<and> message_address x = Some (net_addr net p)
      \<and> (am_prefix_length x = net_prefix_len net p \<or> x \<in> addresses s)"
  proof (cases r)
    case (Inl e)
    then have "is_errno e EEXIST" using assms add by (auto split: if_splits)
    then show ?thesis using address_exists add Inl by blast
  next
    case (Inr v)
    then show ?thesis using add_address [of i "net_addr net p" "net_prefix_len net p" s v t] add by auto
  qed
  show "foreign_routes i (routes t) = foreign_routes i (routes s)" using add by (rule keep_foreign(3))
qed

subsection \<open>Routes\<close>

lemma foreign_insert: "managed_route i x \<Longrightarrow> foreign_routes i (insert x xs) = foreign_routes i xs"
  by (auto simp: foreign_routes_def managed_route_def)

lemma add_routes_Ok:
  "add_routes nl net i ip ps s = (Ok (), t) \<Longrightarrow>
   routes s \<subseteq> routes t \<and> addresses t = addresses s \<and> foreign_routes i (routes t) = foreign_routes i (routes s)
   \<and> (\<forall>p\<in>set ps. \<exists>x\<in>routes t. in_main_table x \<and> leads_to (net_network net p) (net_prefix_len net p) x)"
proof (induction ps arbitrary: s)
  case (Cons p ps)
  let ?q = "route_request_of net i ip p"
  have q: "rr_output ?q = i" "rr_network ?q = net_network net p" "rr_prefix_length ?q = net_prefix_len net p"
    by (simp_all add: route_request_of_def)
  obtain r u where add: "nl_add_route nl ?q s = (r, u)" "add_routes nl net i ip ps u = (Ok (), t)"
      and failed: "\<forall>e. r = Err e \<longrightarrow> is_errno e EEXIST"
    using Cons.prems by (auto split: if_splits prod.splits sum.splits)
  have "routes s \<subseteq> routes u \<and> foreign_routes i (routes u) = foreign_routes i (routes s)
      \<and> (\<exists>x\<in>routes u. in_main_table x \<and> leads_to (net_network net p) (net_prefix_len net p) x)"
  proof (cases r)
    case (Inl e)
    then show ?thesis using route_exists [of ?q s e u] add(1) failed q by auto
  next
    case (Inr v)
    then obtain x where "routes u = insert x (routes s)" "managed_route i x" "leads_to (net_network net p) (net_prefix_len net p) x"
      using add_route [of ?q s v u] add(1) q by auto
    then show ?thesis using foreign_insert by (auto simp: managed_route_def)
  qed
  with Cons.IH [OF add(2)] keep_addresses(3) [OF add(1)] show ?case by auto
qed simp

lemma del_routes_Ok:
  "del_routes nl net i wanted stream s = (Ok (), t) \<Longrightarrow>
   \<exists>listed. stream = map Ok listed \<and> routes t = routes s - {x \<in> set listed. stale_route net i wanted x} \<and> addresses t = addresses s"
proof (induction stream arbitrary: s)
  case (Cons item stream)
  then obtain r where r: "item = Ok r" by (cases item) auto
  show ?case
  proof (cases "stale_route net i wanted r")
    case True
    with Cons.prems r obtain v u where u: "nl_del_route nl r s = (Ok v, u)" "del_routes nl net i wanted stream u = (Ok (), t)"
      by (auto simp: stale_route_def split: sum.splits prod.splits if_splits)
    from Cons.IH [OF u(2)] obtain listed where "stream = map Ok listed" "addresses t = addresses u"
      "routes t = routes u - {x \<in> set listed. stale_route net i wanted x}" by blast
    with r True del_route [OF u(1)] keep_addresses(4) [OF u(1)] show ?thesis by (intro exI [of _ "r # listed"]) auto
  next
    case False
    then have "del_routes nl net i wanted stream s = (Ok (), t)"
      using Cons.prems r by (auto simp: stale_route_def split: sum.splits prod.splits if_splits)
    from Cons.IH [OF this] obtain listed where "stream = map Ok listed" "addresses t = addresses s"
      "routes t = routes s - {x \<in> set listed. stale_route net i wanted x}" by blast
    with r False show ?thesis by (intro exI [of _ "r # listed"]) auto
  qed
qed simp

lemma del_all_routes_Ok:
  assumes "del_all_routes nl net i wanted s = (Ok (), t)"
  shows "routes t = {x \<in> routes s. \<not> stale_route net i wanted x}" "addresses t = addresses s"
proof -
  obtain u where u: "del_routes nl net i wanted (nl_routes nl True s) s = (Ok (), u)"
      "del_routes nl net i wanted (nl_routes nl False u) u = (Ok (), t)"
    using assms by (auto simp: del_all_routes_def split: prod.splits sum.splits)
  obtain v4 v6 where v4: "nl_routes nl True s = map Ok v4" "routes u = routes s - {x \<in> set v4. stale_route net i wanted x}" "addresses u = addresses s"
      and v6: "nl_routes nl False u = map Ok v6" "routes t = routes u - {x \<in> set v6. stale_route net i wanted x}" "addresses t = addresses u"
    using del_routes_Ok [OF u(1)] del_routes_Ok [OF u(2)] by blast
  show "routes t = {x \<in> routes s. \<not> stale_route net i wanted x}"
    using v4(2) v6(2) listed_routes [OF v4(1)] listed_routes [OF v6(1)] by auto
  show "addresses t = addresses s" using v4(3) v6(3) by simp
qed

lemma configure_link_Ok:
  assumes "configure_link nl config i s = (Ok (), t)"
  shows "addresses t = addresses s" "foreign_routes i (routes t) = foreign_routes i (routes s)"
proof -
  obtain mtu r u r' where a: "nl_set_mtu nl i mtu s = (r, u) \<or> u = s" "nl_set_up nl i u = (r', t) \<or> t = u"
    using assms by (auto simp: configure_link_def Let_def split: if_splits sum.splits prod.splits)
  show "addresses t = addresses s" using a keep_addresses(1,2) by metis
  show "foreign_routes i (routes t) = foreign_routes i (routes s)" using a keep_foreign(1,2) by metis
qed

end

section \<open>What a successful configuration leaves behind\<close>



section \<open>A kernel in memory\<close>

record link_memory =
  lm_links :: "link_message list"
  lm_addresses :: "address_message list"
  lm_routes :: "route_message list"

definition file_exists :: netlink_failure where
  "file_exists = NetlinkCode (-17) ''File exists''"

definition memory_add_address :: "32 word \<Rightarrow> ip_addr \<Rightarrow> nat \<Rightarrow> link_memory \<Rightarrow> (netlink_failure, unit) result \<times> link_memory" where
  "memory_add_address i a n s =
     (if list_ex (\<lambda>x. am_index x = i \<and> message_address x = Some a) (lm_addresses s) then (Err file_exists, s)
      else (Ok (), s\<lparr>lm_addresses := lm_addresses s @ [\<lparr>am_index = i, am_prefix_length = n, am_attributes = [AddressAddress a, AddressLocal a]\<rparr>]\<rparr>))"

definition memory_del_address :: "address_message \<Rightarrow> link_memory \<Rightarrow> (netlink_failure, unit) result \<times> link_memory" where
  "memory_del_address x s =
     (if x \<in> set (lm_addresses s) then (Ok (), s\<lparr>lm_addresses := removeAll x (lm_addresses s)\<rparr>)
      else (Err (NetlinkCode (-99) ''Cannot assign requested address''), s))"

definition memory_add_route :: "route_request \<Rightarrow> link_memory \<Rightarrow> (netlink_failure, unit) result \<times> link_memory" where
  "memory_add_route q s =
     (if list_ex (\<lambda>x. in_main_table x \<and> leads_to (rr_network q) (rr_prefix_length q) x) (lm_routes s) then (Err file_exists, s)
      else (Ok (), s\<lparr>lm_routes := lm_routes s @ [\<lparr>rt_ipv4 = is_ipv4 (rr_network q), rt_table = RT_TABLE_MAIN, rt_cloned = False,
              rt_prefix_length = rr_prefix_length q, rt_attributes = [RouteDestination (rr_network q), RouteOif (rr_output q)]\<rparr>]\<rparr>))"

definition memory_del_route :: "route_message \<Rightarrow> link_memory \<Rightarrow> (netlink_failure, unit) result \<times> link_memory" where
  "memory_del_route r s =
     (if r \<in> set (lm_routes s) then (Ok (), s\<lparr>lm_routes := removeAll r (lm_routes s)\<rparr>)
      else (Err (NetlinkCode (-3) ''No such process''), s))"

definition memory_set :: "(link_message \<Rightarrow> link_message) \<Rightarrow> 32 word \<Rightarrow> link_memory \<Rightarrow> (netlink_failure, unit) result \<times> link_memory" where
  "memory_set f i s = (Ok (), s\<lparr>lm_links := map (\<lambda>l. if lk_index l = i then f l else l) (lm_links s)\<rparr>)"

definition memory_netlink :: "link_memory netlink" where
  "memory_netlink = \<lparr>nl_handle = Ok (), nl_find_route = (\<lambda>s. Ok (find (leads_to (V4 0) 0) (lm_routes s))),
     nl_find_link = (\<lambda>name s. Ok (find (\<lambda>l. link_name l = Some name) (lm_links s))),
     nl_get_link = (\<lambda>i s. Ok (find (\<lambda>l. lk_index l = i) (lm_links s))),
     nl_add_link = (\<lambda>name s. (Ok (), s\<lparr>lm_links := lm_links s @
       [\<lparr>lk_index = of_nat (Suc (length (lm_links s))), lk_up = False, lk_attributes = [LinkIfName name, LinkMtu 1420]\<rparr>]\<rparr>)),
     nl_del_link = (\<lambda>i s. (Ok (), s\<lparr>lm_links := filter (\<lambda>l. lk_index l \<noteq> i) (lm_links s)\<rparr>)),
     nl_set_mtu = (\<lambda>i mtu. memory_set (\<lambda>l. l\<lparr>lk_attributes := LinkMtu mtu # lk_attributes l\<rparr>) i),
     nl_set_up = memory_set (\<lambda>l. l\<lparr>lk_up := True\<rparr>),
     nl_add_address = memory_add_address,
     nl_addresses = (\<lambda>i s. map Ok (filter (\<lambda>x. am_index x = i) (lm_addresses s))),
     nl_del_address = memory_del_address, nl_add_route = memory_add_route,
     nl_routes = (\<lambda>ipv4 s. map Ok (filter (\<lambda>r. rt_ipv4 r = ipv4) (lm_routes s))), nl_del_route = memory_del_route\<rparr>"

lemma map_Ok_inject: "map Ok xs = map Ok ys \<longleftrightarrow> xs = ys"
  by (metis list.inj_map_strong sum.inject(2))

lemma memory_netlink_simps [simp]:
  "nl_handle memory_netlink = Ok ()" "nl_get_link memory_netlink i s = Ok (find (\<lambda>l. lk_index l = i) (lm_links s))"
  "nl_set_mtu memory_netlink i mtu = memory_set (\<lambda>l. l\<lparr>lk_attributes := LinkMtu mtu # lk_attributes l\<rparr>) i"
  "nl_set_up memory_netlink = memory_set (\<lambda>l. l\<lparr>lk_up := True\<rparr>)" "nl_add_address memory_netlink = memory_add_address"
  "nl_addresses memory_netlink i s = map Ok (filter (\<lambda>x. am_index x = i) (lm_addresses s))"
  "nl_del_address memory_netlink = memory_del_address" "nl_add_route memory_netlink = memory_add_route"
  "nl_routes memory_netlink ipv4 s = map Ok (filter (\<lambda>r. rt_ipv4 r = ipv4) (lm_routes s))" "nl_del_route memory_netlink = memory_del_route"
  by (simp_all add: memory_netlink_def)

lemma masked_single: "prefix_ok p \<Longrightarrow> pfx_bits p = bit_len (pfx_address p) \<Longrightarrow> masked p = p"
proof -
  assume p: "prefix_ok p" "pfx_bits p = bit_len (pfx_address p)"
  have "addr_val (pfx_address (masked p)) = addr_val (pfx_address p)" using masked_facts(1) [OF p(1)] p(2) by (simp add: pfx_lo_def)
  then have "pfx_address (masked p) = pfx_address p" using masked_facts(2) [OF p(1)] addr_val_eqD by metis
  then show ?thesis using masked_facts(3) [OF p(1)] by simp
qed

lemma masked_bits: "prefix_ok p \<Longrightarrow> pfx_bits (masked p) = pfx_bits p \<and> bit_len (pfx_address (masked p)) = bit_len (pfx_address p)"
  using masked_facts(2,3) [of p] bit_len_same by metis

interpretation prefix_build: ip_net_build prefix_net addresses_of prefix_ok prefix_normal
proof unfold_locales
  fix p assume "prefix_normal p"
  then show "map_ok (net_trunc prefix_net) (net_new prefix_net (net_network prefix_net p) (net_prefix_len prefix_net p)) = Ok p"
    by (cases p) (simp add: prefix_normal_def prefix_ok_def)
next
  fix m a b n assume "single_ip_prefix prefix_net m = Ok a"
  then have a: "a = \<lparr>pfx_address = m, pfx_bits = bit_len m\<rparr>"
    by (cases m) (simp_all add: single_ip_prefix_def bit_len_def is_ipv4_def)
  have "masked \<lparr>pfx_address = b, pfx_bits = n\<rparr> = a \<longleftrightarrow> b = m \<and> n = bit_len m" if n: "n \<le> bit_len b"
  proof
    let ?p = "\<lparr>pfx_address = b, pfx_bits = n\<rparr>"
    have ok: "prefix_ok ?p" using n by (simp add: prefix_ok_def)
    assume eq: "masked ?p = a"
    then have "n = bit_len b" using masked_bits [OF ok] a by simp
    then show "b = m \<and> n = bit_len m" using masked_single [OF ok] eq a by simp
  next
    assume "b = m \<and> n = bit_len m"
    then show "masked \<lparr>pfx_address = b, pfx_bits = n\<rparr> = a" using masked_single [of a] a by (simp add: prefix_ok_def)
  qed
  then show "net_addr prefix_net a = m \<and> net_prefix_len prefix_net a = bit_len m
      \<and> (map_ok (net_trunc prefix_net) (net_new prefix_net b n) = Ok a \<longleftrightarrow> b = m \<and> n = bit_len m)"
    using a by auto
qed

interpretation memory_kernel: link_kernel memory_netlink "\<lambda>s. set (lm_addresses s)" "\<lambda>s. set (lm_routes s)"
  by unfold_locales (auto simp: memory_add_address_def memory_del_address_def memory_add_route_def memory_del_route_def memory_set_def map_Ok_inject
    list_ex_iff message_address_def managed_route_def in_main_table_def leads_to_def route_destination_def route_output_interface_def
    foreign_routes_def RT_TABLE_MAIN_def file_exists_def split: if_splits)






















end
