(* ===== verification/Machine_Json.thy ===== *)
theory Machine_Json
  imports Machine_Spec Wire Api_Error
begin

text \<open>
  The JSON form of a machine in the cluster store (\<open>encode_machine\<close> and \<open>decode_machine\<close> of the store
  crate): the protobuf JSON mapping, written by hand in the code. The text of a JSON value, the texts of
  type errors and base64 are libraries and parameters; the code keeps the members of an object as a
  list, so that it can refuse a duplicate.
\<close>

section \<open>Libraries\<close>

record codec_lib =
  lib_to_text :: "json \<Rightarrow> (string, string) result"
  lib_from_text :: "string \<Rightarrow> (string, json) result"
  lib_type_error :: "string \<Rightarrow> json \<Rightarrow> string"
  lib_b64_encode :: "8 word list \<Rightarrow> string"
  lib_b64_std :: "string \<Rightarrow> 8 word list option"
  lib_b64_url :: "string \<Rightarrow> 8 word list option"
  lib_b64_padded :: "string \<Rightarrow> (string, 8 word list) result"

section \<open>Writing\<close>

text \<open>Members with an empty text, a zero or an absent message are left out.\<close>

definition text_member :: "string \<Rightarrow> string \<Rightarrow> (string \<times> json) list" where
  "text_member key v = (if v = [] then [] else [(key, JString v)])"

definition number_member :: "string \<Rightarrow> 32 word \<Rightarrow> (string \<times> json) list" where
  "number_member key v = (if v = 0 then [] else [(key, JNumber (nat_to_string (unat v)))])"

definition message_member :: "string \<Rightarrow> ('a \<Rightarrow> json) \<Rightarrow> 'a option \<Rightarrow> (string \<times> json) list" where
  "message_member key to_json v = (case v of None \<Rightarrow> [] | Some m \<Rightarrow> [(key, to_json m)])"

definition ip_json :: "codec_lib \<Rightarrow> pb_ip \<Rightarrow> json" where
  "ip_json lib ip = JObject (text_member ''ip'' (lib_b64_encode lib (pb_ip_bytes ip)))"

definition prefix_json :: "codec_lib \<Rightarrow> pb_ip_prefix \<Rightarrow> json" where
  "prefix_json lib p = JObject (message_member ''ip'' (ip_json lib) (pb_prefix_ip p) @ number_member ''bits'' (pb_prefix_bits p))"

definition port_json :: "codec_lib \<Rightarrow> pb_ip_port \<Rightarrow> json" where
  "port_json lib p = JObject (message_member ''ip'' (ip_json lib) (pb_port_ip p) @ number_member ''port'' (pb_port_port p))"

definition network_json :: "codec_lib \<Rightarrow> network_config \<Rightarrow> json" where
  "network_json lib c =
     JObject (message_member ''subnet'' (prefix_json lib) (nc_subnet c)
       @ message_member ''managementIp'' (ip_json lib) (nc_management_ip c)
       @ (if nc_endpoints c = [] then [] else [(''endpoints'', JArray (map (port_json lib) (nc_endpoints c)))])
       @ text_member ''publicKey'' (lib_b64_encode lib (nc_public_key c)))"

definition machine_json :: "codec_lib \<Rightarrow> machine_info \<Rightarrow> json" where
  "machine_json lib m =
     JObject (text_member ''id'' (mi_id m) @ text_member ''name'' (mi_name m)
       @ message_member ''network'' (network_json lib) (mi_network m)
       @ message_member ''publicIp'' (ip_json lib) (mi_public_ip m)
       @ text_member ''daemonVersion'' (mi_daemon_version m) @ text_member ''dockerVersion'' (mi_docker_version m)
       @ text_member ''hostname'' (mi_hostname m) @ text_member ''arch'' (mi_arch m)
       @ text_member ''osPrettyName'' (mi_os_pretty_name m) @ text_member ''kernelVersion'' (mi_kernel_version m))"

definition encode_machine :: "codec_lib \<Rightarrow> machine_info \<Rightarrow> (string, string) result" where
  "encode_machine lib m = map_err (\<lambda>error. ''marshal machine info: '' @ error) (lib_to_text lib (machine_json lib m))"

section \<open>Reading\<close>

definition parse_object :: "codec_lib \<Rightarrow> json \<Rightarrow> string \<Rightarrow> (string, (string \<times> json) list) result" where
  "parse_object lib v context =
     (case v of JObject members \<Rightarrow> Ok members | _ \<Rightarrow> Err (context @ '': '' @ lib_type_error lib ''a JSON object'' v))"

fun find_field :: "(string \<times> json) list \<Rightarrow> string \<Rightarrow> string \<Rightarrow> json option \<Rightarrow> (string, json option) result" where
  "find_field [] json_name proto_name found = Ok found"
| "find_field ((name, v) # members) json_name proto_name found =
     (if name = json_name \<or> name = proto_name then
        (if found \<noteq> None then Err (''duplicate field '' @ json_name)
         else find_field members json_name proto_name (Some v))
      else find_field members json_name proto_name found)"

definition protobuf_field :: "(string \<times> json) list \<Rightarrow> string \<Rightarrow> string \<Rightarrow> (string, json option) result" where
  "protobuf_field members json_name proto_name = find_field members json_name proto_name None"

definition string_field :: "codec_lib \<Rightarrow> (string \<times> json) list \<Rightarrow> string \<Rightarrow> string \<Rightarrow> (string, string) result" where
  "string_field lib members json_name proto_name =
     rbind (protobuf_field members json_name proto_name) (\<lambda>found.
     case found of
       None \<Rightarrow> Ok []
     | Some JNull \<Rightarrow> Ok []
     | Some (JString s) \<Rightarrow> Ok s
     | Some v \<Rightarrow> Err (json_name @ '': '' @ lib_type_error lib ''a string'' v))"

definition bytes_field :: "codec_lib \<Rightarrow> (string \<times> json) list \<Rightarrow> string \<Rightarrow> string \<Rightarrow> (string, 8 word list) result" where
  "bytes_field lib members json_name proto_name =
     rbind (string_field lib members json_name proto_name) (\<lambda>encoded.
     if encoded = [] then Ok []
     else
       (let filtered = filter (\<lambda>c. c \<noteq> CHR 0x0D \<and> c \<noteq> CHR 0x0A) encoded in
        case lib_b64_std lib filtered of
          Some bytes \<Rightarrow> Ok bytes
        | None \<Rightarrow> ok_or (json_name @ '': invalid base64'') (lib_b64_url lib filtered)))"

text \<open>A number, or a text with a number, that fits 32 bits.\<close>

definition u32_field :: "codec_lib \<Rightarrow> (string \<times> json) list \<Rightarrow> string \<Rightarrow> string \<Rightarrow> (string, 32 word) result" where
  "u32_field lib members json_name proto_name =
     rbind (protobuf_field members json_name proto_name) (\<lambda>found.
     case found of
       None \<Rightarrow> Ok 0
     | Some JNull \<Rightarrow> Ok 0
     | Some (JNumber token) \<Rightarrow>
         if list_all is_ascii_digit token \<and> parse_uint 4294967295 token \<noteq> None then Ok (of_nat (dec_val token))
         else Err (json_name @ '': '' @ lib_type_error lib ''a number or a string'' (JNumber token))
     | Some (JString s) \<Rightarrow> map_err (\<lambda>e. json_name @ '': '' @ int_error_display e) (map_ok of_nat (parse_int 4294967295 s))
     | Some v \<Rightarrow> Err (json_name @ '': '' @ lib_type_error lib ''a number or a string'' v))"

definition message_field ::
  "(string \<times> json) list \<Rightarrow> string \<Rightarrow> string \<Rightarrow> (json \<Rightarrow> (string, 'a) result) \<Rightarrow> (string, 'a option) result" where
  "message_field members json_name proto_name decode =
     rbind (protobuf_field members json_name proto_name) (\<lambda>found.
     case found of None \<Rightarrow> Ok None | Some JNull \<Rightarrow> Ok None | Some v \<Rightarrow> map_ok Some (decode v))"

definition decode_ip :: "codec_lib \<Rightarrow> json \<Rightarrow> (string, pb_ip) result" where
  "decode_ip lib v =
     rbind (parse_object lib v ''ip'') (\<lambda>members. map_ok (\<lambda>b. \<lparr>pb_ip_bytes = b\<rparr>) (bytes_field lib members ''ip'' ''ip''))"

definition decode_prefix :: "codec_lib \<Rightarrow> json \<Rightarrow> (string, pb_ip_prefix) result" where
  "decode_prefix lib v =
     rbind (parse_object lib v ''prefix'') (\<lambda>members.
     rbind (message_field members ''ip'' ''ip'' (decode_ip lib)) (\<lambda>ip.
     rbind (u32_field lib members ''bits'' ''bits'') (\<lambda>bits.
     Ok \<lparr>pb_prefix_ip = ip, pb_prefix_bits = bits\<rparr>)))"

definition decode_port :: "codec_lib \<Rightarrow> json \<Rightarrow> (string, pb_ip_port) result" where
  "decode_port lib v =
     rbind (parse_object lib v ''endpoint'') (\<lambda>members.
     rbind (message_field members ''ip'' ''ip'' (decode_ip lib)) (\<lambda>ip.
     rbind (u32_field lib members ''port'' ''port'') (\<lambda>port.
     Ok \<lparr>pb_port_ip = ip, pb_port_port = port\<rparr>)))"

definition decode_network :: "codec_lib \<Rightarrow> json \<Rightarrow> (string, network_config) result" where
  "decode_network lib v =
     rbind (parse_object lib v ''network'') (\<lambda>members.
     rbind (protobuf_field members ''endpoints'' ''endpoints'') (\<lambda>found.
     rbind (case found of
              None \<Rightarrow> Ok []
            | Some JNull \<Rightarrow> Ok []
            | Some (JArray vs) \<Rightarrow> collect_ok (map (decode_port lib) vs)
            | Some v \<Rightarrow> Err (''endpoints: '' @ lib_type_error lib ''a sequence'' v)) (\<lambda>endpoints.
     rbind (message_field members ''subnet'' ''subnet'' (decode_prefix lib)) (\<lambda>subnet.
     rbind (message_field members ''managementIp'' ''management_ip'' (decode_ip lib)) (\<lambda>management_ip.
     rbind (bytes_field lib members ''publicKey'' ''public_key'') (\<lambda>public_key.
     Ok \<lparr>nc_subnet = subnet, nc_management_ip = management_ip, nc_endpoints = endpoints, nc_public_key = public_key\<rparr>))))))"

definition machine_of_json :: "codec_lib \<Rightarrow> json \<Rightarrow> (string, machine_info) result" where
  "machine_of_json lib v =
     rbind (parse_object lib v ''machine'') (\<lambda>members.
     rbind (string_field lib members ''id'' ''id'') (\<lambda>mid.
     rbind (string_field lib members ''name'' ''name'') (\<lambda>name.
     rbind (message_field members ''network'' ''network'' (decode_network lib)) (\<lambda>network.
     rbind (message_field members ''publicIp'' ''public_ip'' (decode_ip lib)) (\<lambda>public_ip.
     rbind (string_field lib members ''daemonVersion'' ''daemon_version'') (\<lambda>daemon_version.
     rbind (string_field lib members ''dockerVersion'' ''docker_version'') (\<lambda>docker_version.
     rbind (string_field lib members ''hostname'' ''hostname'') (\<lambda>hostname.
     rbind (string_field lib members ''arch'' ''arch'') (\<lambda>arch.
     rbind (string_field lib members ''osPrettyName'' ''os_pretty_name'') (\<lambda>os_pretty_name.
     rbind (string_field lib members ''kernelVersion'' ''kernel_version'') (\<lambda>kernel_version.
     Ok \<lparr>mi_id = mid, mi_name = name, mi_network = network, mi_public_ip = public_ip, mi_daemon_version = daemon_version,
         mi_docker_version = docker_version, mi_hostname = hostname, mi_arch = arch, mi_os_pretty_name = os_pretty_name,
         mi_kernel_version = kernel_version\<rparr>)))))))))))"

definition decode_machine :: "codec_lib \<Rightarrow> string \<Rightarrow> (string, machine_info) result" where
  "decode_machine lib s =
     rbind (map_err (\<lambda>error. ''machine: '' @ error) (lib_from_text lib s)) (machine_of_json lib)"

section \<open>What is written is read back\<close>

text \<open>
  The laws of the libraries: a JSON value whose numbers are tokens is read back from its text, and an object is
  never written as nothing and as a pair of braces only when it has no members. The standard alphabet reads
  back what it wrote, with and without a demand for padding, and what it writes has no line breaks and is empty
  only for no bytes. A string is written between quotes.
\<close>

text \<open>Looking for a field passes over the members of the other names.\<close>

definition take_field :: "string \<Rightarrow> json \<Rightarrow> (string \<times> json) list \<Rightarrow> string \<Rightarrow> string \<Rightarrow> json option \<Rightarrow> (string, json option) result" where
  "take_field key v members json_name proto_name found = find_field ((key, v) # members) json_name proto_name found"

lemma take_field_simps [simp]:
  "key \<noteq> json_name \<Longrightarrow> key \<noteq> proto_name \<Longrightarrow> take_field key v members json_name proto_name found = find_field members json_name proto_name found"
  "take_field json_name v members json_name proto_name None = find_field members json_name proto_name (Some v)"
  by (simp_all add: take_field_def)

lemma find_text_member [simp]:
  "find_field (text_member key v @ members) j p f = (if v = [] then find_field members j p f else take_field key (JString v) members j p f)"
  "find_field (text_member key v) j p f = (if v = [] then Ok f else take_field key (JString v) [] j p f)"
  by (simp_all add: text_member_def take_field_def)

lemma find_number_member [simp]:
  "find_field (number_member key v) j p f = (if v = 0 then Ok f else take_field key (JNumber (nat_to_string (unat v))) [] j p f)"
  by (simp add: number_member_def take_field_def)

lemma find_message_member [simp]:
  "find_field (message_member key g v @ members) j p f =
     (case v of None \<Rightarrow> find_field members j p f | Some m \<Rightarrow> take_field key (g m) members j p f)"
  by (simp add: message_member_def take_field_def split: option.split)

lemma find_endpoints_member [simp]:
  "find_field ((if es = [] then [] else [(key, v)]) @ members) j p f =
     (if es = [] then find_field members j p f else take_field key v members j p f)"
  by (simp add: take_field_def)

text \<open>A field is read as it was written.\<close>

lemma string_field_written:
  "protobuf_field ms j p = Ok (if v = [] then None else Some (JString v)) \<Longrightarrow> string_field lib ms j p = Ok v"
  by (cases "v = []") (simp_all add: string_field_def)

lemma u32_field_written:
  assumes "protobuf_field ms j p = Ok (if v = 0 then None else Some (JNumber (nat_to_string (unat v))))"
  shows "u32_field lib ms j p = Ok v"
proof -
  have "unat v < 2 ^ LENGTH(32)" by (rule unsigned_less)
  then have "unat v \<le> 4294967295" by simp
  then show ?thesis using assms nat_to_string_digits [of "unat v"] by (cases "v = 0") (simp_all add: u32_field_def)
qed

lemma message_field_written:
  assumes "protobuf_field ms j p = Ok (map_option to_json v)" "\<And>m. \<exists>members. to_json m = JObject members" "\<And>m. decode (to_json m) = Ok m"
  shows "message_field ms j p decode = Ok v"
proof (cases v)
  case (Some m)
  obtain members where "to_json m = JObject members" using assms(2) by blast
  with Some assms(1) assms(3) [of m] show ?thesis by (simp add: message_field_def)
qed (use assms(1) in \<open>simp add: message_field_def\<close>)

lemma objects: "\<exists>ms. ip_json lib x = JObject ms" "\<exists>ms. prefix_json lib y = JObject ms" "\<exists>ms. network_json lib z = JObject ms"
  by (simp_all add: ip_json_def prefix_json_def network_json_def)

definition number_char :: "char \<Rightarrow> bool" where
  "number_char c \<longleftrightarrow> is_ascii_digit c \<or> c \<in> set ''+-.eE''"

text \<open>The values the writer produces: numbers are natural numbers in decimal, and no key of an object is repeated.\<close>

fun json_ok :: "json \<Rightarrow> bool" where
  "json_ok (JNumber token) \<longleftrightarrow> token = nat_to_string (dec_val token)"
| "json_ok (JArray vs) \<longleftrightarrow> list_all json_ok vs"
| "json_ok (JObject ms) \<longleftrightarrow> distinct (map fst ms) \<and> list_all (\<lambda>(k, v). json_ok v) ms"
| "json_ok _ \<longleftrightarrow> True"

lemma json_ok_number: "json_ok (JNumber token) \<Longrightarrow> token \<noteq> [] \<and> list_all number_char token"
  using nat_to_string_digits [of "dec_val token"] by (metis json_ok.simps(1) list_all_iff nat_to_string_not_Nil number_char_def)

lemma members_ok:
  "list_all (\<lambda>(k, v). json_ok v) (text_member key t)" "list_all (\<lambda>(k, v). json_ok v) (number_member key n)"
  "(\<And>x. json_ok (g x)) \<Longrightarrow> list_all (\<lambda>(k, v). json_ok v) (message_member key g m)"
  by (auto simp: text_member_def number_member_def message_member_def split: option.splits)

lemma members_keys:
  "distinct (map fst (text_member key t))" "distinct (map fst (number_member key n))" "distinct (map fst (message_member key g m))"
  by (auto simp: text_member_def number_member_def message_member_def split: option.splits)

lemma member_key:
  "(k, v) \<in> set (text_member key t) \<Longrightarrow> k = key" "(k, v) \<in> set (number_member key n) \<Longrightarrow> k = key"
  "(k, v) \<in> set (message_member key g m) \<Longrightarrow> k = key"
  by (auto simp: text_member_def number_member_def message_member_def split: option.splits if_splits)

lemma machine_json_ok: "json_ok (machine_json lib m)"
proof -
  have ip: "json_ok (ip_json lib x)" for x by (simp add: ip_json_def members_ok members_keys)
  have "json_ok (prefix_json lib x)" "json_ok (port_json lib y)" for x y
    by (auto simp: prefix_json_def port_json_def members_ok ip members_keys dest!: member_key)
  then have "json_ok (network_json lib x)" for x
    by (auto simp: network_json_def members_ok ip list.pred_map comp_def list.pred_True members_keys dest!: member_key)
  then show ?thesis by (auto simp: machine_json_def members_ok ip members_keys dest!: member_key)
qed

locale codec_laws =
  fixes lib :: codec_lib
  assumes text_roundtrip: "json_ok v \<Longrightarrow> \<exists>s. lib_to_text lib v = Ok s \<and> lib_from_text lib s = Ok v"
    and text_object: "lib_to_text lib (JObject ms) = Ok s \<Longrightarrow> s \<noteq> [] \<and> (s = ''{}'' \<longleftrightarrow> ms = [])"
    and b64_roundtrip: "lib_b64_std lib (lib_b64_encode lib bs) = Some bs"
    and b64_chars: "CHR 0x0D \<notin> set (lib_b64_encode lib bs) \<and> CHR 0x0A \<notin> set (lib_b64_encode lib bs)"
    and b64_empty: "lib_b64_encode lib bs = [] \<longleftrightarrow> bs = []"
    and b64_padded: "lib_b64_padded lib (lib_b64_encode lib bs) = Ok bs"
    and text_string: "lib_to_text lib (JString w) = Ok s \<Longrightarrow> s \<noteq> [] \<and> hd s = CHR 0x22"
begin

lemma bytes_encoded [simp]:
  "(let filtered = filter (\<lambda>c. c \<noteq> CHR 0x0D \<and> c \<noteq> CHR 0x0A) (lib_b64_encode lib bs) in
    case lib_b64_std lib filtered of Some bytes \<Rightarrow> Ok bytes | None \<Rightarrow> ok_or e (lib_b64_url lib filtered)) = Ok bs"
proof -
  have "filter (\<lambda>c. c \<noteq> CHR 0x0D \<and> c \<noteq> CHR 0x0A) (lib_b64_encode lib bs) = lib_b64_encode lib bs"
    using b64_chars [of bs] by (auto simp: filter_id_conv)
  then show ?thesis by (simp add: b64_roundtrip)
qed

lemma bytes_field_encoded:
  "string_field lib members j p = Ok (lib_b64_encode lib bs) \<Longrightarrow> bytes_field lib members j p = Ok bs"
  using b64_empty [of bs] by (auto simp: bytes_field_def)

lemma decode_ip_json: "decode_ip lib (ip_json lib ip) = Ok ip"
proof -
  have "bytes_field lib (text_member ''ip'' (lib_b64_encode lib (pb_ip_bytes ip))) ''ip'' ''ip'' = Ok (pb_ip_bytes ip)"
    by (rule bytes_field_encoded, rule string_field_written) (simp add: protobuf_field_def)
  then show ?thesis by (simp add: decode_ip_def ip_json_def parse_object_def)
qed

lemma decode_prefix_json: "decode_prefix lib (prefix_json lib x) = Ok x"
proof -
  let ?ms = "message_member ''ip'' (ip_json lib) (pb_prefix_ip x) @ number_member ''bits'' (pb_prefix_bits x)"
  have "message_field ?ms ''ip'' ''ip'' (decode_ip lib) = Ok (pb_prefix_ip x)"
    by (rule message_field_written [where to_json = "ip_json lib"])
      (simp_all add: protobuf_field_def objects decode_ip_json split: option.split)
  moreover have "u32_field lib ?ms ''bits'' ''bits'' = Ok (pb_prefix_bits x)"
    by (rule u32_field_written) (simp add: protobuf_field_def split: option.split)
  ultimately show ?thesis by (simp add: decode_prefix_def prefix_json_def parse_object_def)
qed

lemma decode_port_json: "decode_port lib (port_json lib x) = Ok x"
proof -
  let ?ms = "message_member ''ip'' (ip_json lib) (pb_port_ip x) @ number_member ''port'' (pb_port_port x)"
  have "message_field ?ms ''ip'' ''ip'' (decode_ip lib) = Ok (pb_port_ip x)"
    by (rule message_field_written [where to_json = "ip_json lib"])
      (simp_all add: protobuf_field_def objects decode_ip_json split: option.split)
  moreover have "u32_field lib ?ms ''port'' ''port'' = Ok (pb_port_port x)"
    by (rule u32_field_written) (simp add: protobuf_field_def split: option.split)
  ultimately show ?thesis by (simp add: decode_port_def port_json_def parse_object_def)
qed

abbreviation network_members :: "network_config \<Rightarrow> (string \<times> json) list" where
  "network_members c \<equiv> message_member ''subnet'' (prefix_json lib) (nc_subnet c)
       @ message_member ''managementIp'' (ip_json lib) (nc_management_ip c)
       @ (if nc_endpoints c = [] then [] else [(''endpoints'', JArray (map (port_json lib) (nc_endpoints c)))])
       @ text_member ''publicKey'' (lib_b64_encode lib (nc_public_key c))"

lemma network_fields:
  "protobuf_field (network_members c) ''endpoints'' ''endpoints'' =
     Ok (if nc_endpoints c = [] then None else Some (JArray (map (port_json lib) (nc_endpoints c))))"
  "message_field (network_members c) ''subnet'' ''subnet'' (decode_prefix lib) = Ok (nc_subnet c)"
  "message_field (network_members c) ''managementIp'' ''management_ip'' (decode_ip lib) = Ok (nc_management_ip c)"
  "bytes_field lib (network_members c) ''publicKey'' ''public_key'' = Ok (nc_public_key c)"
proof -
  show "message_field (network_members c) ''subnet'' ''subnet'' (decode_prefix lib) = Ok (nc_subnet c)"
    by (rule message_field_written [where to_json = "prefix_json lib"])
      (simp_all add: protobuf_field_def objects decode_prefix_json split: option.split)
  show "message_field (network_members c) ''managementIp'' ''management_ip'' (decode_ip lib) = Ok (nc_management_ip c)"
    by (rule message_field_written [where to_json = "ip_json lib"])
      (simp_all add: protobuf_field_def objects decode_ip_json split: option.split)
  show "bytes_field lib (network_members c) ''publicKey'' ''public_key'' = Ok (nc_public_key c)"
    by (rule bytes_field_encoded, rule string_field_written) (simp add: protobuf_field_def split: option.split)
qed (simp add: protobuf_field_def split: option.split)

lemma decode_network_json: "decode_network lib (network_json lib x) = Ok x"
proof -
  have "collect_ok (map (\<lambda>p. decode_port lib (port_json lib p)) ps) = Ok ps" for ps
    by (simp add: decode_port_json collect_ok_Ok)
  then have ports: "(case (if nc_endpoints x = [] then None else Some (JArray (map (port_json lib) (nc_endpoints x)))) of
      None \<Rightarrow> Ok [] | Some JNull \<Rightarrow> Ok [] | Some (JArray vs) \<Rightarrow> collect_ok (map (decode_port lib) vs)
    | Some v \<Rightarrow> Err (''endpoints: '' @ lib_type_error lib ''a sequence'' v)) = Ok (nc_endpoints x)"
    by (simp add: comp_def)
  show ?thesis by (simp add: decode_network_def network_json_def parse_object_def network_fields ports)
qed

abbreviation machine_members :: "machine_info \<Rightarrow> (string \<times> json) list" where
  "machine_members m \<equiv> text_member ''id'' (mi_id m) @ text_member ''name'' (mi_name m)
       @ message_member ''network'' (network_json lib) (mi_network m)
       @ message_member ''publicIp'' (ip_json lib) (mi_public_ip m)
       @ text_member ''daemonVersion'' (mi_daemon_version m) @ text_member ''dockerVersion'' (mi_docker_version m)
       @ text_member ''hostname'' (mi_hostname m) @ text_member ''arch'' (mi_arch m)
       @ text_member ''osPrettyName'' (mi_os_pretty_name m) @ text_member ''kernelVersion'' (mi_kernel_version m)"

lemma machine_texts:
  "string_field lib (machine_members m) ''id'' ''id'' = Ok (mi_id m)"
  "string_field lib (machine_members m) ''name'' ''name'' = Ok (mi_name m)"
  "string_field lib (machine_members m) ''daemonVersion'' ''daemon_version'' = Ok (mi_daemon_version m)"
  "string_field lib (machine_members m) ''dockerVersion'' ''docker_version'' = Ok (mi_docker_version m)"
  "string_field lib (machine_members m) ''hostname'' ''hostname'' = Ok (mi_hostname m)"
  "string_field lib (machine_members m) ''arch'' ''arch'' = Ok (mi_arch m)"
  "string_field lib (machine_members m) ''osPrettyName'' ''os_pretty_name'' = Ok (mi_os_pretty_name m)"
  "string_field lib (machine_members m) ''kernelVersion'' ''kernel_version'' = Ok (mi_kernel_version m)"
  by (rule string_field_written, simp add: protobuf_field_def split: option.split)+

lemma machine_messages:
  "message_field (machine_members m) ''network'' ''network'' (decode_network lib) = Ok (mi_network m)"
  "message_field (machine_members m) ''publicIp'' ''public_ip'' (decode_ip lib) = Ok (mi_public_ip m)"
  by (rule message_field_written [where to_json = "network_json lib"])
    (simp_all add: protobuf_field_def objects decode_network_json split: option.split,
     rule message_field_written [where to_json = "ip_json lib"],
     simp_all add: protobuf_field_def objects decode_ip_json split: option.split)

lemma machine_of_machine_json: "machine_of_json lib (machine_json lib x) = Ok x"
  by (simp add: machine_of_json_def machine_json_def parse_object_def machine_texts machine_messages)

lemma decode_encode_machine: "\<exists>s. encode_machine lib m = Ok s \<and> decode_machine lib s = Ok m"
  using text_roundtrip [OF machine_json_ok [of lib m]] by (auto simp: encode_machine_def decode_machine_def machine_of_machine_json)

end

end
