(* ===== verification/Json_Text.thy ===== *)
theory Json_Text
  imports Machine_Json
begin

text \<open>
  A compact text of JSON values and base64, as an instance of the libraries that the codec of machines
  relies on: strings are written with the short escapes, other control characters by their number, and
  numbers by their token. The reader takes the compact form back.
\<close>

section \<open>Strings\<close>

definition escape_char :: "char \<Rightarrow> string" where
  "escape_char c =
     (if c = CHR 0x22 then [CHR 0x5C, CHR 0x22]
      else if c = CHR 0x5C then [CHR 0x5C, CHR 0x5C]
      else if c = CHR 0x08 then [CHR 0x5C, CHR ''b'']
      else if c = CHR 0x09 then [CHR 0x5C, CHR ''t'']
      else if c = CHR 0x0A then [CHR 0x5C, CHR ''n'']
      else if c = CHR 0x0C then [CHR 0x5C, CHR ''f'']
      else if c = CHR 0x0D then [CHR 0x5C, CHR ''r'']
      else if byte_of c < 32 then CHR 0x5C # ''u00'' @ [from_digit (byte_of c div 16), from_digit (byte_of c mod 16)]
      else [c])"

definition print_string :: "string \<Rightarrow> string" where
  "print_string s = CHR 0x22 # concat (map escape_char s) @ [CHR 0x22]"

definition short_escape :: "char \<Rightarrow> char option" where
  "short_escape c =
     (if c = CHR 0x22 then Some (CHR 0x22) else if c = CHR 0x5C then Some (CHR 0x5C) else if c = CHR ''b'' then Some (CHR 0x08)
      else if c = CHR ''t'' then Some (CHR 0x09) else if c = CHR ''n'' then Some (CHR 0x0A)
      else if c = CHR ''f'' then Some (CHR 0x0C) else if c = CHR ''r'' then Some (CHR 0x0D) else None)"

definition read_char :: "string \<Rightarrow> (char \<times> string) option" where
  "read_char s =
     (case s of
        [] \<Rightarrow> None
      | c # r \<Rightarrow>
          if c \<noteq> CHR 0x5C then Some (c, r)
          else if r = [] then None
          else
            (case short_escape (hd r) of
               Some d \<Rightarrow> Some (d, tl r)
             | None \<Rightarrow>
                 if length r < 5 then None
                 else
                   (case (to_digit 16 (r ! 3), to_digit 16 (r ! 4)) of
                      (Some a, Some b) \<Rightarrow> Some (char_of (16 * a + b), drop 5 r)
                    | _ \<Rightarrow> None)))"

fun read_chars :: "nat \<Rightarrow> string \<Rightarrow> (string \<times> string) option" where
  "read_chars 0 s = None"
| "read_chars (Suc n) s =
     (if s = [] then None
      else if hd s = CHR 0x22 then Some ([], tl s)
      else
        (case read_char s of
           None \<Rightarrow> None
         | Some (d, r) \<Rightarrow> map_option (\<lambda>(t, r). (d # t, r)) (read_chars n r)))"

abbreviation short_chars :: "char set" where
  "short_chars \<equiv> {CHR 0x22, CHR 0x5C, CHR 0x08, CHR 0x09, CHR 0x0A, CHR 0x0C, CHR 0x0D}"

lemma escape_short: "c \<in> short_chars \<Longrightarrow> \<exists>e. escape_char c = [CHR 0x5C, e] \<and> short_escape e = Some c"
  by (elim insertE) (simp_all add: escape_char_def short_escape_def)

lemma escape_control:
  "c \<notin> short_chars \<Longrightarrow> byte_of c < 32 \<Longrightarrow>
   escape_char c = CHR 0x5C # CHR ''u'' # CHR ''0'' # CHR ''0'' # [from_digit (byte_of c div 16), from_digit (byte_of c mod 16)]"
  unfolding escape_char_def by simp

lemma escape_plain: "c \<notin> short_chars \<Longrightarrow> \<not> byte_of c < 32 \<Longrightarrow> escape_char c = [c]"
  unfolding escape_char_def by simp

lemma read_escape_char: "read_char (escape_char c @ s) = Some (c, s) \<and> escape_char c \<noteq> [] \<and> hd (escape_char c) \<noteq> CHR 0x22"
proof (cases "c \<in> short_chars")
  case True
  then obtain e where "escape_char c = [CHR 0x5C, e]" "short_escape e = Some c" using escape_short by blast
  then show ?thesis by (simp add: read_char_def)
next
  case special: False
  show ?thesis
  proof (cases "byte_of c < 32")
    case True
    then have "byte_of c div 16 < 16" "byte_of c mod 16 < 16" by auto
    moreover have "char_of (16 * (byte_of c div 16) + byte_of c mod 16) = c" by simp
    moreover have "short_escape (CHR ''u'') = None" by (simp add: short_escape_def)
    ultimately show ?thesis unfolding escape_control [OF special True] by (simp add: read_char_def)
  next
    case False
    then show ?thesis unfolding escape_plain [OF special False] using special by (simp add: read_char_def)
  qed
qed

lemma read_json_escaped: "length t < n \<Longrightarrow> read_chars n (concat (map escape_char t) @ CHR 0x22 # s) = Some (t, s)"
proof (induction t arbitrary: n)
  case Nil
  then show ?case by (cases n) simp_all
next
  case (Cons c t)
  then obtain m where "n = Suc m" by (cases n) auto
  with Cons show ?case using read_escape_char [of c "concat (map escape_char t) @ CHR 0x22 # s"] by simp
qed

definition read_string_token :: "string \<Rightarrow> (string \<times> string) option" where
  "read_string_token s = (case s of c # r \<Rightarrow> if c = CHR 0x22 then read_chars (length r) r else None | [] \<Rightarrow> None)"

lemma length_escaped: "length t \<le> length (concat (map escape_char t))"
proof (induction t)
  case (Cons c t)
  have "0 < length (escape_char c)" using read_escape_char [of c "[]"] by simp
  with Cons show ?case unfolding list.map concat.simps length_append length_Cons by linarith
qed simp

lemma read_print_string: "read_string_token (print_string t @ s) = Some (t, s)"
proof -
  have "length t < length (concat (map escape_char t) @ CHR 0x22 # s)" using length_escaped [of t] by simp
  from read_json_escaped [OF this] show ?thesis by (simp add: read_string_token_def print_string_def del: read_chars.simps)
qed

section \<open>Values\<close>

fun print_json :: "json \<Rightarrow> string" and print_elems :: "json list \<Rightarrow> string" and print_members :: "(string \<times> json) list \<Rightarrow> string" where
  "print_json JNull = ''null''"
| "print_json (JBool b) = (if b then ''true'' else ''false'')"
| "print_json (JNumber token) = token"
| "print_json (JString s) = print_string s"
| "print_json (JArray vs) = CHR ''['' # print_elems vs"
| "print_json (JObject ms) = CHR ''{'' # print_members ms"
| "print_elems [] = '']''"
| "print_elems [v] = print_json v @ '']''"
| "print_elems (v # w # vs) = print_json v @ CHR '','' # print_elems (w # vs)"
| "print_members [] = ''}''"
| "print_members [(k, v)] = print_string k @ CHR '':'' # print_json v @ ''}''"
| "print_members ((k, v) # m # ms) = print_string k @ CHR '':'' # print_json v @ CHR '','' # print_members (m # ms)"

fun read_value :: "nat \<Rightarrow> string \<Rightarrow> (json \<times> string) option"
  and read_elems :: "nat \<Rightarrow> string \<Rightarrow> (json list \<times> string) option"
  and read_members :: "nat \<Rightarrow> string \<Rightarrow> ((string \<times> json) list \<times> string) option" where
  "read_value 0 s = None"
| "read_value (Suc n) s =
     (if starts_with s ''null'' then Some (JNull, drop 4 s)
      else if starts_with s ''true'' then Some (JBool True, drop 4 s)
      else if starts_with s ''false'' then Some (JBool False, drop 5 s)
      else if starts_with s [CHR 0x22] then map_option (\<lambda>(t, r). (JString t, r)) (read_string_token s)
      else if starts_with s ''[]'' then Some (JArray [], drop 2 s)
      else if starts_with s ''['' then map_option (\<lambda>(vs, r). (JArray vs, r)) (read_elems n (drop 1 s))
      else if starts_with s ''{}'' then Some (JObject [], drop 2 s)
      else if starts_with s ''{'' then map_option (\<lambda>(ms, r). (JObject ms, r)) (read_members n (drop 1 s))
      else if s \<noteq> [] \<and> number_char (hd s) then Some (JNumber (takeWhile number_char s), dropWhile number_char s)
      else None)"
| "read_elems 0 s = None"
| "read_elems (Suc n) s =
     (case read_value n s of
        None \<Rightarrow> None
      | Some (v, r) \<Rightarrow>
          if starts_with r '']'' then Some ([v], drop 1 r)
          else if starts_with r '','' then map_option (\<lambda>(vs, r). (v # vs, r)) (read_elems n (drop 1 r))
          else None)"
| "read_members 0 s = None"
| "read_members (Suc n) s =
     (case read_string_token s of
        None \<Rightarrow> None
      | Some (k, r) \<Rightarrow>
          if \<not> starts_with r '':'' then None
          else
            (case read_value n (drop 1 r) of
               None \<Rightarrow> None
             | Some (v, r) \<Rightarrow>
                 if starts_with r ''}'' then Some ([(k, v)], drop 1 r)
                 else if starts_with r '','' then map_option (\<lambda>(ms, r). ((k, v) # ms, r)) (read_members n (drop 1 r))
                 else None))"

lemma starts_with_Cons: "starts_with (c # s) (d # p) \<longleftrightarrow> c = d \<and> starts_with s p" "starts_with s []" "\<not> starts_with [] (d # p)"
  by (auto simp: starts_with_iff)

text \<open>What follows a value is not a number character.\<close>

definition ends_value :: "string \<Rightarrow> bool" where
  "ends_value s \<longleftrightarrow> (case s of [] \<Rightarrow> True | c # _ \<Rightarrow> \<not> number_char c)"

lemma ends_value_simps [simp]: "ends_value []" "ends_value (CHR '','' # s)" "ends_value (CHR '']'' # s)" "ends_value (CHR ''}'' # s)"
  by (simp_all add: ends_value_def number_char_def is_ascii_digit_def)

lemma takeWhile_number: "list_all number_char t \<Longrightarrow> ends_value s \<Longrightarrow> takeWhile number_char (t @ s) = t \<and> dropWhile number_char (t @ s) = s"
  by (cases s) (auto simp: ends_value_def list_all_iff takeWhile_append dropWhile_append)

lemma not_number [simp]:
  "\<not> number_char CHR ''n''" "\<not> number_char CHR ''t''" "\<not> number_char CHR ''f''" "\<not> number_char CHR 0x22"
  "\<not> number_char CHR ''[''" "\<not> number_char CHR ''{''"
  by (simp_all add: number_char_def is_ascii_digit_def)

lemma read_number_token:
  assumes "token \<noteq> []" "list_all number_char token" "ends_value s"
  shows "read_value (Suc n) (token @ s) = Some (JNumber token, s)"
proof -
  obtain c t where token: "token = c # t" "number_char c" using assms by (cases token) auto
  then have "c \<noteq> CHR ''n''" "c \<noteq> CHR ''t''" "c \<noteq> CHR ''f''" "c \<noteq> CHR 0x22" "c \<noteq> CHR ''[''" "c \<noteq> CHR ''{''" by auto
  then show ?thesis using takeWhile_number [OF assms(2,3)] token by (simp add: starts_with_Cons)
qed

lemma print_first: "json_ok v \<Longrightarrow> \<exists>c t. print_json v = c # t \<and> c \<noteq> CHR '']''"
proof (cases v)
  case (JNumber token)
  moreover assume "json_ok v"
  ultimately obtain c t where "token = c # t" "number_char c" using json_ok_number [of token] by (cases token) auto
  then show ?thesis using JNumber by (auto simp: number_char_def is_ascii_digit_def)
qed (auto simp: print_string_def)

lemma print_elems_first: "vs \<noteq> [] \<Longrightarrow> list_all json_ok vs \<Longrightarrow> \<exists>c t. print_elems vs = c # t \<and> c \<noteq> CHR '']''"
  using print_first by (cases vs rule: print_elems.cases) fastforce+

lemma print_members_first: "ms \<noteq> [] \<Longrightarrow> \<exists>t. print_members ms = CHR 0x22 # t"
  by (cases ms rule: print_members.cases) (auto simp: print_string_def)

lemma read_print:
  "json_ok v \<Longrightarrow> length (print_json v) \<le> n \<Longrightarrow> ends_value s \<Longrightarrow> read_value n (print_json v @ s) = Some (v, s)"
  "vs \<noteq> [] \<Longrightarrow> list_all json_ok vs \<Longrightarrow> length (print_elems vs) \<le> n \<Longrightarrow> read_elems n (print_elems vs @ s) = Some (vs, s)"
  "ms \<noteq> [] \<Longrightarrow> list_all (\<lambda>(k, v). json_ok v) ms \<Longrightarrow> length (print_members ms) \<le> n \<Longrightarrow> read_members n (print_members ms @ s) = Some (ms, s)"
proof (induction v and vs and ms arbitrary: n s and n s and n s rule: print_json_print_elems_print_members.induct)
  case 1
  then show ?case by (cases n) (auto simp: starts_with_Cons)
next
  case (2 b)
  then show ?case by (cases n) (auto simp: starts_with_Cons split: if_splits)
next
  case (3 token)
  then show ?case using read_number_token json_ok_number [of token] by (cases n) (auto simp del: read_value.simps json_ok.simps)
next
  case (4 t)
  then show ?case using read_print_string [of t s] by (cases n) (auto simp: starts_with_Cons print_string_def)
next
  case (5 vs)
  show ?case
  proof (cases "vs = []")
    case False
    then obtain c t where "print_elems vs = c # t" "c \<noteq> CHR '']''" using print_elems_first [of vs] 5(2) by auto
    with 5 False show ?thesis by (cases n) (auto simp: starts_with_Cons)
  qed (use 5(3) in \<open>cases n; simp add: starts_with_Cons\<close>)
next
  case (6 ms)
  show ?case
  proof (cases "ms = []")
    case False
    then obtain t where "print_members ms = CHR 0x22 # t" using print_members_first by blast
    with 6 False show ?thesis by (cases n) (auto simp: starts_with_Cons)
  qed (use 6(3) in \<open>cases n; simp add: starts_with_Cons\<close>)
next
  case (8 v)
  then show ?case by (cases n) (auto simp: starts_with_Cons)
next
  case (9 v w vs)
  then show ?case by (cases n) (auto simp: starts_with_Cons)
next
  case (11 k v)
  then show ?case using read_print_string [of k "CHR '':'' # print_json v @ CHR ''}'' # s"]
    by (cases n) (auto simp: starts_with_Cons)
next
  case (12 k v m ms)
  then show ?case using read_print_string [of k "CHR '':'' # print_json v @ CHR '','' # print_members (m # ms) @ s"]
    by (cases n) (auto simp: starts_with_Cons)
qed simp_all

definition json_from_text :: "string \<Rightarrow> (string, json) result" where
  "json_from_text s = (case read_value (length s) s of Some (v, []) \<Rightarrow> Ok v | _ \<Rightarrow> Err ''expected value'')"

lemma json_from_print: "json_ok v \<Longrightarrow> json_from_text (print_json v) = Ok v"
  using read_print(1) [of v "length (print_json v)" "[]"] by (simp add: json_from_text_def)

section \<open>Base64\<close>

definition b64_alphabet :: string where
  "b64_alphabet = ''ABCDEFGHIJKLMNOPQRSTUVWXYZabcdefghijklmnopqrstuvwxyz0123456789+/''"

definition b64_digit :: "nat \<Rightarrow> char" where
  "b64_digit d = b64_alphabet ! d"

definition b64_value :: "char \<Rightarrow> nat option" where
  "b64_value c = map_of (zip b64_alphabet [0..<64]) c"

text \<open>Groups of three bytes are four digits; a shorter last group is padded.\<close>

fun b64_encode :: "8 word list \<Rightarrow> string" where
  "b64_encode [] = []"
| "b64_encode [a] = (let n = unat a * 16 in [b64_digit (n div 64), b64_digit (n mod 64), CHR ''='', CHR ''=''])"
| "b64_encode [a, b] =
     (let n = (unat a * 256 + unat b) * 4
      in [b64_digit (n div 64 div 64), b64_digit (n div 64 mod 64), b64_digit (n mod 64), CHR ''=''])"
| "b64_encode (a # b # c # bs) =
     (let n = (unat a * 256 + unat b) * 256 + unat c
      in b64_digit (n div 64 div 64 div 64) # b64_digit (n div 64 div 64 mod 64) # b64_digit (n div 64 mod 64) #
         b64_digit (n mod 64) # b64_encode bs)"

fun b64_decode :: "string \<Rightarrow> 8 word list option" where
  "b64_decode [] = Some []"
| "b64_decode (p # q # r # s # rest) =
     (case (b64_value p, b64_value q) of
        (Some p, Some q) \<Rightarrow>
          if r = CHR ''='' then (if s = CHR ''='' \<and> rest = [] then Some [of_nat ((p * 64 + q) div 16)] else None)
          else
            (case b64_value r of
               None \<Rightarrow> None
             | Some r \<Rightarrow>
                 if s = CHR ''='' then
                   (let n = ((p * 64 + q) * 64 + r) div 4 in if rest = [] then Some [of_nat (n div 256), of_nat (n mod 256)] else None)
                 else
                   (case b64_value s of
                      None \<Rightarrow> None
                    | Some s \<Rightarrow>
                        (let n = ((p * 64 + q) * 64 + r) * 64 + s
                         in map_option (\<lambda>bs. of_nat (n div 256 div 256) # of_nat (n div 256 mod 256) # of_nat (n mod 256) # bs)
                              (b64_decode rest))))
      | _ \<Rightarrow> None)"
| "b64_decode _ = None"

lemma b64_digits: "list_all (\<lambda>d. b64_value (b64_digit d) = Some d \<and> b64_digit d \<notin> {CHR ''='', CHR 0x0D, CHR 0x0A}) [0..<64]"
  by code_simp

lemma b64_digit_value [simp]:
  assumes "d < 64"
  shows "b64_value (b64_digit d) = Some d" "b64_digit d \<noteq> CHR ''=''" "b64_digit d \<noteq> CHR 0x0D" "b64_digit d \<noteq> CHR 0x0A"
  using b64_digits assms by (auto simp: list_all_iff)

lemma byte_less [simp]: "unat (b :: 8 word) < 256"
  using unsigned_less [of b] by simp

lemma byte_le: "unat (b :: 8 word) \<le> 255"
  using byte_less [of b] by linarith

lemma div_mod_256: "(c::nat) < 256 \<Longrightarrow> (k * 256 + c) div 256 = k" "(c::nat) < 256 \<Longrightarrow> (k * 256 + c) mod 256 = c"
  by simp_all

lemma group_bytes:
  assumes "n = (unat a * 256 + unat b) * 256 + unat c"
  shows "n div 256 div 256 = unat (a :: 8 word)" "n div 256 mod 256 = unat (b :: 8 word)" "n mod 256 = unat (c :: 8 word)"
proof -
  have "n div 256 = unat a * 256 + unat b" "n mod 256 = unat c" unfolding assms by (rule div_mod_256 [OF byte_less])+
  then show "n div 256 div 256 = unat a" "n div 256 mod 256 = unat b" "n mod 256 = unat c" by simp_all
qed

lemma regroup: "((n div 64 div 64 div 64 * 64 + n div 64 div 64 mod 64) * 64 + n div 64 mod 64) * 64 + n mod 64 = (n :: nat)"
  by simp

lemma first_digit: "(n :: nat) < 16777216 \<Longrightarrow> n div 64 div 64 div 64 < 64" "(n :: nat) < 262144 \<Longrightarrow> n div 64 div 64 < 64"
  "(n :: nat) < 4096 \<Longrightarrow> n div 64 < 64"
  by simp_all

abbreviation b64_chars :: "char set" where
  "b64_chars \<equiv> insert (CHR ''='') (b64_digit ` {..<64})"

lemma b64_decode_encode: "b64_decode (b64_encode bs) = Some bs \<and> set (b64_encode bs) \<subseteq> b64_chars"
proof (induction bs rule: b64_encode.induct)
  case (2 a)
  define n where "n = unat a * 16"
  have enc: "b64_encode [a] = [b64_digit (n div 64), b64_digit (n mod 64), CHR ''='', CHR ''='']"
    by (simp only: b64_encode.simps n_def Let_def)
  have "n < 4096" "n div 16 = unat a" using byte_less [of a] by (simp_all add: n_def)
  then show ?case unfolding enc using first_digit(3) [of n] by simp
next
  case (3 a b)
  define n where "n = (unat a * 256 + unat b) * 4"
  have enc: "b64_encode [a, b] = [b64_digit (n div 64 div 64), b64_digit (n div 64 mod 64), b64_digit (n mod 64), CHR ''='']"
    by (simp only: b64_encode.simps n_def Let_def)
  have "unat a * 256 + unat b \<le> 65535" using byte_le [of a] byte_le [of b] by simp
  then have "n < 262144" by (simp add: n_def)
  moreover have "n div 4 = unat a * 256 + unat b" by (simp only: n_def div_mult_self_is_m zero_less_numeral)
  then have "n div 4 div 256 = unat a" "n div 4 mod 256 = unat b" by simp_all
  moreover have "(n div 64 div 64 * 64 + n div 64 mod 64) * 64 + n mod 64 = n" by simp
  ultimately show ?case unfolding enc using first_digit(2) [of n] by simp
next
  case (4 a b c bs)
  define n where "n = (unat a * 256 + unat b) * 256 + unat c"
  have enc: "b64_encode (a # b # c # bs) = b64_digit (n div 64 div 64 div 64) # b64_digit (n div 64 div 64 mod 64) #
      b64_digit (n div 64 mod 64) # b64_digit (n mod 64) # b64_encode bs"
    by (simp only: b64_encode.simps n_def Let_def)
  have "unat a * 256 + unat b \<le> 65535" using byte_le [of a] byte_le [of b] by simp
  then have "n < 16777216" using byte_le [of c] by (simp add: n_def)
  then show ?case unfolding enc using 4 first_digit(1) [of n] group_bytes [OF n_def] regroup [of n] by (simp add: Let_def)
qed simp

lemma b64_encode_chars: "CHR 0x0D \<notin> set (b64_encode bs) \<and> CHR 0x0A \<notin> set (b64_encode bs)"
proof -
  have out: "c \<notin> b64_chars" if "\<forall>d<64. b64_digit d \<noteq> c" "c \<noteq> CHR ''=''" for c using that by blast
  have "CHR 0x0D \<notin> b64_chars" "CHR 0x0A \<notin> b64_chars" by (rule out; simp)+
  then show ?thesis using b64_decode_encode [of bs] by blast
qed

lemma b64_encode_Nil: "b64_encode bs = [] \<longleftrightarrow> bs = []"
  by (cases bs rule: b64_encode.cases) (simp_all add: Let_def)

section \<open>The instance\<close>

definition plain_lib :: codec_lib where
  "plain_lib = \<lparr>lib_to_text = (\<lambda>v. Ok (print_json v)), lib_from_text = json_from_text,
     lib_type_error = (\<lambda>expected _. ''invalid type, expected '' @ expected),
     lib_b64_encode = b64_encode, lib_b64_std = b64_decode, lib_b64_url = (\<lambda>_. None),
     lib_b64_padded = (\<lambda>s. ok_or ''invalid padding'' (b64_decode s))\<rparr>"

lemma print_object: "print_json (JObject ms) \<noteq> [] \<and> (print_json (JObject ms) = ''{}'' \<longleftrightarrow> ms = [])"
  using print_members_first [of ms] by (cases "ms = []") auto

interpretation plain: codec_laws plain_lib
proof
  show "\<exists>s. lib_to_text plain_lib v = Ok s \<and> lib_from_text plain_lib s = Ok v" if "json_ok v" for v
    using that by (simp add: plain_lib_def json_from_print)
  show "s \<noteq> [] \<and> (s = ''{}'' \<longleftrightarrow> ms = [])" if "lib_to_text plain_lib (JObject ms) = Ok s" for ms s
  proof -
    have "s = print_json (JObject ms)" using that by (simp add: plain_lib_def)
    show ?thesis unfolding \<open>s = print_json (JObject ms)\<close> by (rule print_object)
  qed
  show "lib_b64_std plain_lib (lib_b64_encode plain_lib bs) = Some bs" for bs
    using conjunct1 [OF b64_decode_encode [of bs]] by (simp add: plain_lib_def)
  show "CHR 0x0D \<notin> set (lib_b64_encode plain_lib bs) \<and> CHR 0x0A \<notin> set (lib_b64_encode plain_lib bs)" for bs
    using b64_encode_chars [of bs] by (simp add: plain_lib_def)
  show "lib_b64_encode plain_lib bs = [] \<longleftrightarrow> bs = []" for bs by (simp add: plain_lib_def b64_encode_Nil)
  show "lib_b64_padded plain_lib (lib_b64_encode plain_lib bs) = Ok bs" for bs
    using conjunct1 [OF b64_decode_encode [of bs]] by (simp add: plain_lib_def)
  show "s \<noteq> [] \<and> hd s = CHR 0x22" if "lib_to_text plain_lib (JString v) = Ok s" for v s
    using that by (auto simp: plain_lib_def print_string_def)
qed

section \<open>The round trip\<close>

text \<open>
  (C40) A machine written to the store is read back unchanged: whatever its fields, \<open>encode_machine\<close> produces a text
  and \<open>decode_machine\<close> of that text gives the machine, with any JSON and base64 library that reads back what it
  wrote.
\<close>

theorem machine_json_roundtrip:
  assumes "codec_laws lib"
  shows "\<exists>s. encode_machine lib m = Ok s \<and> decode_machine lib s = Ok m"
  using assms by (rule codec_laws.decode_encode_machine)

text \<open>A machine with a subnet, an endpoint and a key, through the plain library.\<close>

theorem machine_json_roundtrip_witness:
  "\<exists>s. encode_machine plain_lib \<lparr>mi_id = ''m1'', mi_name = ''one'',
      mi_network = Some \<lparr>nc_subnet = Some \<lparr>pb_prefix_ip = Some \<lparr>pb_ip_bytes = [10, 210, 0, 0]\<rparr>, pb_prefix_bits = 24\<rparr>,
        nc_management_ip = None, nc_endpoints = [\<lparr>pb_port_ip = Some \<lparr>pb_ip_bytes = [1, 2, 3, 4]\<rparr>, pb_port_port = 51820\<rparr>],
        nc_public_key = [1, 2, 3]\<rparr>,
      mi_public_ip = None, mi_daemon_version = [], mi_docker_version = [], mi_hostname = [], mi_arch = ''amd64'',
      mi_os_pretty_name = [], mi_kernel_version = []\<rparr> = Ok s
    \<and> map_ok mi_name (decode_machine plain_lib s) = Ok ''one''"
  using machine_json_roundtrip [OF plain.codec_laws_axioms] by force

end
