(* ===== verification/Store.thy ===== *)
theory Store
  imports Json_Text BTree Secret Civil_Time "HOL-Library.Multiset"
begin

text \<open>
  The cluster store (\<open>ployz-internal-machine-store/src/lib.rs\<close>): key-value pairs, machines and the
  statements on containers over a replicated SQLite database. The code reaches the database through
  the trait \<open>Backend\<close>, which is the record \<open>backend\<close> here: a statement and a query with their
  parameters, on a state of the database that is threaded through every operation, also the failing
  ones. A query gives the rows that arrived and, if the stream broke, the error that ended it. What
  SQLite does with the statements of this code is the locale \<open>database\<close>; from it follow the laws
  that the cluster relies on, the locale \<open>cluster_store\<close>.
\<close>

section \<open>Operations on a state\<close>

type_synonym ('s, 'e, 'a) action = "'s \<Rightarrow> ('e, 'a) result \<times> 's"

definition and_then :: "('s, 'e, 'a) action \<Rightarrow> ('a \<Rightarrow> ('s, 'e, 'b) action) \<Rightarrow> ('s, 'e, 'b) action" where
  "and_then m f s = (case m s of (Err e, t) \<Rightarrow> (Err e, t) | (Ok a, t) \<Rightarrow> f a t)"

definition pure :: "('e, 'a) result \<Rightarrow> ('s, 'e, 'a) action" where
  "pure r s = (r, s)"

definition with_err :: "('e \<Rightarrow> 'd) \<Rightarrow> ('s, 'e, 'a) action \<Rightarrow> ('s, 'd, 'a) action" where
  "with_err g m s = (case m s of (r, t) \<Rightarrow> (map_err g r, t))"

lemma action_simps [simp]: "pure r s = (r, s)" "and_then (pure (Ok a)) f = f a" "and_then (pure (Err e)) f = pure (Err e)"
  by (simp_all add: pure_def and_then_def fun_eq_iff)

lemma and_then_Ok: "and_then m f s = (Ok b, u) \<longleftrightarrow> (\<exists>a t. m s = (Ok a, t) \<and> f a t = (Ok b, u))"
  by (auto simp: and_then_def split: prod.splits sum.splits)

lemma with_err_Ok: "with_err g m s = (Ok a, t) \<longleftrightarrow> m s = (Ok a, t)"
  by (cases "m s") (auto simp: with_err_def map_err_eq_Ok)

lemmas action_Ok = and_then_Ok with_err_Ok

text \<open>An operation keeps a predicate when it holds of the state it leaves, whether it succeeds or fails.\<close>

definition keeps :: "('s \<Rightarrow> bool) \<Rightarrow> ('s, 'e, 'a) action \<Rightarrow> bool" where
  "keeps P m \<longleftrightarrow> (\<forall>s. P s \<longrightarrow> P (snd (m s)))"

named_theorems keeps_intros

lemma keeps_and_then [keeps_intros]: "keeps P m \<Longrightarrow> (\<And>a. keeps P (f a)) \<Longrightarrow> keeps P (and_then m f)"
  by (fastforce simp: keeps_def and_then_def split: prod.splits sum.splits)

lemma keeps_pure [keeps_intros]: "keeps P (pure r)"
  by (simp add: keeps_def)

lemma keeps_with_err [keeps_intros]: "keeps P m \<Longrightarrow> keeps P (with_err g m)"
  by (fastforce simp: keeps_def with_err_def split: prod.splits)

lemma keepsI: "(\<And>s r t. P s \<Longrightarrow> m s = (r, t) \<Longrightarrow> P t) \<Longrightarrow> keeps P m"
  by (simp add: keeps_def) (metis prod.collapse)

lemma keepsD: "keeps P m \<Longrightarrow> P s \<Longrightarrow> m s = (r, t) \<Longrightarrow> P t"
  by (metis keeps_def snd_conv)

section \<open>Values of the database\<close>

text \<open>The payload of a number in binary floating point is its bits.\<close>

datatype sql_value =
  SqlNull
| SqlBool bool
| SqlI64 int
| SqlU64 "64 word"
| SqlF64 "64 word"
| SqlString string
| SqlBytes "8 word list"
| SqlRaw string

datatype column_kind = TextColumn | BlobColumn | IntegerColumn | RawColumn

datatype db_value = DbText string | DbBytes "8 word list" | DbInteger int | DbRaw string

record query_rows =
  qr_rows :: "db_value list list"
  qr_terminal_error :: "string option"

record 's backend =
  be_exec :: "string \<Rightarrow> sql_value list option \<Rightarrow> ('s, string, 64 word) action"
  be_query :: "string \<Rightarrow> sql_value list option \<Rightarrow> column_kind list \<Rightarrow> ('s, string, query_rows) action"

datatype store_error =
  KeyNotFound
| MachineNotFound string
| InvalidInput string
| InvalidData string
| Operation string string

fun store_error_display :: "store_error \<Rightarrow> string" where
  "store_error_display KeyNotFound = ''key not found''"
| "store_error_display (MachineNotFound mid) = ''machine not found: '' @ mid"
| "store_error_display (InvalidInput message) = message"
| "store_error_display (InvalidData message) = message"
| "store_error_display (Operation ctx source) = ctx @ '': '' @ source"

text \<open>\<open>exec\<close>, \<open>query_result\<close> and \<open>query\<close>; the last one drops the error that ended the stream.\<close>

definition store_exec :: "'s backend \<Rightarrow> string \<Rightarrow> string \<Rightarrow> sql_value list option \<Rightarrow> ('s, store_error, 64 word) action" where
  "store_exec be ctx query params = with_err (Operation ctx) (be_exec be query params)"

definition query_result ::
  "'s backend \<Rightarrow> string \<Rightarrow> string \<Rightarrow> sql_value list option \<Rightarrow> column_kind list \<Rightarrow> ('s, store_error, query_rows) action" where
  "query_result be ctx query params columns = with_err (Operation ctx) (be_query be query params columns)"

definition store_query ::
  "'s backend \<Rightarrow> string \<Rightarrow> string \<Rightarrow> sql_value list option \<Rightarrow> column_kind list \<Rightarrow> ('s, store_error, db_value list list) action" where
  "store_query be ctx query params columns =
     and_then (query_result be ctx query params columns) (\<lambda>result. pure (Ok (qr_rows result)))"

section \<open>Key-value pairs\<close>

definition get_sql :: string where "get_sql = ''SELECT value FROM cluster WHERE key = ?''"

definition put_sql :: string where
  "put_sql = ''INSERT OR REPLACE INTO cluster (key, value, updated_at) VALUES (?, ?, datetime('' @ [CHR 0x27] @ ''now'' @ [CHR 0x27] @ ''))''"

definition delete_sql :: string where "delete_sql = ''DELETE FROM cluster WHERE key = ?''"

text \<open>
  A value comes back as JSON text; the code reads it as a text or as bytes in base64, and takes null
  for the empty value.
\<close>

definition string_from_cluster_json :: "codec_lib \<Rightarrow> string \<Rightarrow> (store_error, string) result" where
  "string_from_cluster_json lib v =
     (if trim v = ''null'' then Ok []
      else map_err (\<lambda>error. InvalidData (''decode cluster TEXT value: '' @ error))
        (rbind (lib_from_text lib v) (\<lambda>j. case j of JString s \<Rightarrow> Ok s | _ \<Rightarrow> Err (lib_type_error lib ''a string'' j))))"

definition decode_go_base64 :: "codec_lib \<Rightarrow> string \<Rightarrow> (string, 8 word list) result" where
  "decode_go_base64 lib v = lib_b64_padded lib (filter (\<lambda>c. c \<noteq> CHR 0x0D \<and> c \<noteq> CHR 0x0A) v)"

definition go_bytes_of_json :: "codec_lib \<Rightarrow> json \<Rightarrow> (string, 8 word list option) result" where
  "go_bytes_of_json lib j =
     (case j of
        JNull \<Rightarrow> Ok None
      | JString s \<Rightarrow> map_ok Some (decode_go_base64 lib s)
      | _ \<Rightarrow> Err (lib_type_error lib ''null or a padded standard Base64 string'' j))"

definition bytes_from_cluster_json :: "codec_lib \<Rightarrow> string \<Rightarrow> (store_error, 8 word list) result" where
  "bytes_from_cluster_json lib v =
     (if trim v = ''null'' then Ok []
      else map_ok (\<lambda>b. case b of None \<Rightarrow> [] | Some bytes \<Rightarrow> bytes)
        (map_err (\<lambda>error. InvalidData (''decode cluster BLOB value: '' @ error))
          (rbind (lib_from_text lib v) (go_bytes_of_json lib))))"

definition store_get :: "'s backend \<Rightarrow> (string \<Rightarrow> (store_error, 'a) result) \<Rightarrow> string \<Rightarrow> ('s, store_error, 'a) action" where
  "store_get be from_cluster_json key =
     and_then (query_result be ''query cluster value'' get_sql (Some [SqlString key]) [RawColumn]) (\<lambda>result. pure
       (case qr_rows result of
          [] \<Rightarrow> (case qr_terminal_error result of
                  Some source \<Rightarrow> Err (Operation ''query cluster value'' source)
                | None \<Rightarrow> Err KeyNotFound)
        | (DbRaw v # _) # _ \<Rightarrow> from_cluster_json v
        | _ \<Rightarrow> Err (InvalidData ''cluster value has unsupported SQL type'')))"

definition store_put :: "'s backend \<Rightarrow> string \<Rightarrow> sql_value \<Rightarrow> ('s, store_error, unit) action" where
  "store_put be key v =
     and_then (store_exec be ''put cluster value'' put_sql (Some [SqlString key, v])) (\<lambda>_. pure (Ok ()))"

definition store_delete :: "'s backend \<Rightarrow> string \<Rightarrow> ('s, store_error, unit) action" where
  "store_delete be key =
     and_then (store_exec be ''delete cluster value'' delete_sql (Some [SqlString key])) (\<lambda>_. pure (Ok ()))"


section \<open>Versions of the database\<close>

definition encode_hex :: "8 word list \<Rightarrow> string" where
  "encode_hex bytes = concat (map (\<lambda>b. [hex_digit (unat (drop_bit 4 b)), hex_digit (unat (take_bit 4 b))]) bytes)"

definition format_uuid :: "8 word list \<Rightarrow> (store_error, string) result" where
  "format_uuid bytes =
     (if length bytes \<noteq> 16 then Err (InvalidData (''parse site_id as UUID: invalid length '' @ nat_to_string (length bytes)))
      else
        (let hex = encode_hex bytes in
         Ok (take 8 hex @ ''-'' @ take 4 (drop 8 hex) @ ''-'' @ take 4 (drop 12 hex) @ ''-'' @
             take 4 (drop 16 hex) @ ''-'' @ take 12 (drop 20 hex))))"

fun scan_versions :: "db_value list list \<Rightarrow> (string, int) bmap \<Rightarrow> (store_error, (string, int) bmap) result" where
  "scan_versions [] versions = Ok versions"
| "scan_versions (row # rows) versions =
     (case row of
        [DbBytes site_id, DbInteger version] \<Rightarrow>
          rbind (format_uuid site_id) (\<lambda>uuid. scan_versions rows (bm_insert uuid version versions))
      | _ \<Rightarrow> Err (InvalidData ''scan actor version: invalid columns''))"

definition store_version :: "'s backend \<Rightarrow> ('s, store_error, (string, int) bmap) action" where
  "store_version be =
     and_then (store_query be ''query crsql_db_versions'' ''SELECT site_id, db_version FROM crsql_db_versions'' None
       [BlobColumn, IntegerColumn]) (\<lambda>rows. pure (scan_versions rows []))"

record missing_change =
  mc_actor_id :: string
  mc_start_version :: int
  mc_end_version :: int

definition missing_change_of_row :: "db_value list \<Rightarrow> (store_error, missing_change) result" where
  "missing_change_of_row row =
     (case row of
        [DbBytes actor, DbInteger start, DbInteger stop] \<Rightarrow>
          Ok \<lparr>mc_actor_id = encode_hex actor, mc_start_version = start, mc_end_version = stop\<rparr>
      | _ \<Rightarrow> Err (InvalidData ''scan missing change: invalid columns''))"

definition known_missing_changes :: "'s backend \<Rightarrow> ('s, store_error, missing_change list) action" where
  "known_missing_changes be =
     and_then (store_query be ''query missing changes'' ''SELECT actor_id, start, end FROM __corro_bookkeeping_gaps'' None
       [BlobColumn, IntegerColumn, IntegerColumn]) (\<lambda>rows. pure (collect_ok (map missing_change_of_row rows)))"

section \<open>Machines\<close>

definition now_sql :: string where "now_sql = ''datetime('' @ [CHR 0x27] @ ''now'' @ [CHR 0x27] @ '')''"

definition create_machine_sql :: string where
  "create_machine_sql =
     ''INSERT INTO machines (id, info, created_at, updated_at) VALUES (?, ?, '' @ now_sql @ '', '' @ now_sql @ '')''"

definition get_machine_sql :: string where "get_machine_sql = ''SELECT info FROM machines WHERE id = ?''"

definition list_machines_sql :: string where "list_machines_sql = ''SELECT id, info FROM machines ORDER BY name''"

definition update_machine_sql :: string where
  "update_machine_sql = ''UPDATE machines SET info = ?, updated_at = '' @ now_sql @ '' WHERE id = ?''"

definition delete_machine_sql :: string where "delete_machine_sql = ''DELETE FROM machines WHERE id = ?''"

definition create_machine :: "codec_lib \<Rightarrow> 's backend \<Rightarrow> machine_info \<Rightarrow> ('s, store_error, unit) action" where
  "create_machine lib be machine =
     and_then (pure (map_err InvalidData (encode_machine lib machine))) (\<lambda>info.
     and_then (store_exec be ''insert query'' create_machine_sql (Some [SqlString (mi_id machine), SqlString info])) (\<lambda>_.
     pure (Ok ())))"

text \<open>\<open>show_status\<close> is the text of a gRPC status.\<close>

definition machine_of_info :: "codec_lib \<Rightarrow> (status \<Rightarrow> string) \<Rightarrow> string \<Rightarrow> string \<Rightarrow> (store_error fault, machine_info) result" where
  "machine_of_info lib show_status machine_id info =
     (if info = [] then Err (Fail (InvalidData (''machine info is empty for id '' @ machine_id)))
      else
        rbind (map_err (\<lambda>error. Fail (InvalidData (''unmarshal machine info for id '' @ machine_id @ '': '' @ error)))
          (decode_machine lib info)) (\<lambda>machine.
        if mi_id machine \<noteq> machine_id then
          Err (Fail (InvalidData (''machine ID mismatch: expected '' @ machine_id @ '', got '' @ mi_id machine)))
        else
          rbind (case mi_network machine of
                   None \<Rightarrow> Ok ()
                 | Some network \<Rightarrow>
                     map_err (fault_map (\<lambda>error. InvalidData
                       (''invalid network configuration for machine '' @ mi_id machine @ '': '' @ show_status error)))
                       (network_config_validate network)) (\<lambda>_.
          Ok machine)))"

definition get_machine :: "codec_lib \<Rightarrow> (status \<Rightarrow> string) \<Rightarrow> 's backend \<Rightarrow> string \<Rightarrow> ('s, store_error fault, machine_info) action" where
  "get_machine lib show_status be machine_id =
     (if machine_id = [] then pure (Err (Fail (InvalidInput ''machine ID cannot be empty'')))
      else
        and_then (with_err Fail (query_result be ''query machine'' get_machine_sql (Some [SqlString machine_id]) [TextColumn]))
          (\<lambda>result. pure
            (case qr_rows result of
               [] \<Rightarrow> (case qr_terminal_error result of
                       Some source \<Rightarrow> Err (Fail (Operation ''query machine'' source))
                     | None \<Rightarrow> Err (Fail (MachineNotFound machine_id)))
             | (DbText info # _) # _ \<Rightarrow> machine_of_info lib show_status machine_id info
             | _ \<Rightarrow> Err (Fail (InvalidData ''scan machine info: invalid column'')))))"

text \<open>Whether a machine is listed: with an invalid network it is passed over, without one the code panics.\<close>

definition network_valid :: "machine_info \<Rightarrow> (store_error fault, bool) result" where
  "network_valid machine =
     rbind (expect ''machine network is absent in replicated store data'' (mi_network machine)) (\<lambda>network.
     case network_config_validate network of
       Ok _ \<Rightarrow> Ok True
     | Err (Fail _) \<Rightarrow> Ok False
     | Err (Panic message) \<Rightarrow> Err (Panic message))"

fun decode_machine_rows :: "codec_lib \<Rightarrow> bool \<Rightarrow> db_value list list \<Rightarrow> (store_error fault, machine_info list) result" where
  "decode_machine_rows lib validate_network [] = Ok []"
| "decode_machine_rows lib validate_network (row # rows) =
     (case row of
        [DbText _, DbText info] \<Rightarrow>
          if info = [] \<or> info = ''{}'' then decode_machine_rows lib validate_network rows
          else
            rbind (map_err (\<lambda>error. Fail (InvalidData (''unmarshal machine info: '' @ error))) (decode_machine lib info)) (\<lambda>machine.
            rbind (if validate_network then network_valid machine else Ok True) (\<lambda>keep.
            rbind (decode_machine_rows lib validate_network rows) (\<lambda>machines.
            Ok (if keep then machine # machines else machines))))
      | _ \<Rightarrow> Err (Fail (InvalidData ''scan machine info: invalid columns'')))"

definition list_machines :: "codec_lib \<Rightarrow> 's backend \<Rightarrow> ('s, store_error fault, machine_info list) action" where
  "list_machines lib be =
     and_then (with_err Fail (store_query be ''list machines'' list_machines_sql None [TextColumn, TextColumn])) (\<lambda>rows.
     pure (decode_machine_rows lib True rows))"

definition update_machine :: "codec_lib \<Rightarrow> 's backend \<Rightarrow> machine_info \<Rightarrow> ('s, store_error, unit) action" where
  "update_machine lib be machine =
     (if mi_id machine = [] then pure (Err (InvalidInput ''machine ID cannot be empty''))
      else
        and_then (pure (map_err InvalidData (encode_machine lib machine))) (\<lambda>info.
        and_then (store_exec be ''update machine'' update_machine_sql (Some [SqlString info, SqlString (mi_id machine)])) (\<lambda>affected.
        pure (if affected = 0 then Err (MachineNotFound (mi_id machine)) else Ok ()))))"

definition delete_machine :: "'s backend \<Rightarrow> string \<Rightarrow> ('s, store_error, unit) action" where
  "delete_machine be machine_id =
     and_then (store_exec be ''delete machine'' delete_machine_sql (Some [SqlString machine_id])) (\<lambda>affected.
     pure (if affected = 0 then Err (MachineNotFound machine_id) else Ok ()))"


section \<open>Containers\<close>

definition SYNC_STATUS_SYNCED :: string where "SYNC_STATUS_SYNCED = ''synced''"

record service_id_or_name =
  so_id :: string
  so_name :: string

record list_options =
  lo_machine_ids :: "string list"
  lo_service_id_or_name :: service_id_or_name

record delete_options =
  do_ids :: "string list"
  do_machine_ids :: "string list"

definition push_placeholders :: "string \<Rightarrow> nat \<Rightarrow> string" where
  "push_placeholders query n = query @ concat (map (\<lambda>index. (if 0 < index then '', '' else []) @ ''?'') [0..<n])"

definition list_containers_query :: "list_options \<Rightarrow> string \<times> sql_value list" where
  "list_containers_query options =
     (let query = ''SELECT c.id, c.container, c.machine_id, c.sync_status, c.updated_at FROM containers c JOIN machines m ON m.id = c.machine_id WHERE c.sync_status = ?'';
          params = [SqlString SYNC_STATUS_SYNCED];
          (query, params) =
            (if lo_machine_ids options \<noteq> [] then
               (push_placeholders (query @ '' AND c.machine_id IN ('') (length (lo_machine_ids options)) @ '')'',
                params @ map SqlString (lo_machine_ids options))
             else (query, params));
          service = lo_service_id_or_name options
      in if so_id service \<noteq> [] \<or> so_name service \<noteq> [] then
           (query @ '' AND ('' @ (if so_id service \<noteq> [] then ''c.service_id = ?'' else [])
              @ (if so_id service \<noteq> [] \<and> so_name service \<noteq> [] then '' OR '' else [])
              @ (if so_name service \<noteq> [] then ''c.service_name = ?'' else []) @ '')'',
            params @ (if so_id service \<noteq> [] then [SqlString (so_id service)] else [])
              @ (if so_name service \<noteq> [] then [SqlString (so_name service)] else []))
         else (query, params))"

definition delete_containers_query :: "delete_options \<Rightarrow> string \<times> sql_value list" where
  "delete_containers_query options =
     (let query = ''DELETE FROM containers'';
          (query, params, has_filter) =
            (if do_ids options \<noteq> [] then
               (push_placeholders (query @ '' WHERE id IN ('') (length (do_ids options)) @ '')'',
                map SqlString (do_ids options), True)
             else (query, [], False))
      in if do_machine_ids options \<noteq> [] then
           (push_placeholders (query @ (if has_filter then '' AND machine_id IN ('' else '' WHERE machine_id IN (''))
              (length (do_machine_ids options)) @ '')'',
            params @ map SqlString (do_machine_ids options))
         else (query, params))"

definition delete_containers :: "'s backend \<Rightarrow> delete_options \<Rightarrow> ('s, store_error, unit) action" where
  "delete_containers be options =
     (let (query, params) = delete_containers_query options in
      and_then (store_exec be ''delete query'' query (if params \<noteq> [] then Some params else None)) (\<lambda>_. pure (Ok ())))"

text \<open>A statement has as many placeholders as parameters, and what the user gave is never in its text.\<close>

definition placeholders :: "string \<Rightarrow> nat" where
  "placeholders query = length (filter (\<lambda>c. c = CHR ''?'') query)"

lemma placeholders_append [simp]: "placeholders (a @ b) = placeholders a + placeholders b"
  by (simp add: placeholders_def)

lemma placeholders_push [simp]: "placeholders (push_placeholders query n) = placeholders query + n"
  by (induction n) (simp_all add: push_placeholders_def placeholders_def)

lemma container_statements_bound:
  "placeholders (fst (list_containers_query lo)) = length (snd (list_containers_query lo))"
  "placeholders (fst (delete_containers_query dopts)) = length (snd (delete_containers_query dopts))"
  by (simp_all add: list_containers_query_def delete_containers_query_def Let_def)
    (simp_all add: placeholders_def)

lemma container_statements_text:
  assumes "length (lo_machine_ids a) = length (lo_machine_ids b)"
    and "so_id (lo_service_id_or_name a) = [] \<longleftrightarrow> so_id (lo_service_id_or_name b) = []"
    and "so_name (lo_service_id_or_name a) = [] \<longleftrightarrow> so_name (lo_service_id_or_name b) = []"
  shows "fst (list_containers_query a) = fst (list_containers_query b)"
proof -
  have "lo_machine_ids a = [] \<longleftrightarrow> lo_machine_ids b = []" using assms(1) by (metis length_0_conv)
  with assms show ?thesis by (simp add: list_containers_query_def Let_def)
qed

section \<open>Timestamps\<close>

definition timestamp_shape :: "string \<Rightarrow> bool" where
  "timestamp_shape v \<longleftrightarrow> length v = 19 \<and>
     list_all (\<lambda>(index, c).
       if index = 4 \<or> index = 7 then c = CHR ''-''
       else if index = 10 then c = CHR '' ''
       else if index = 13 \<or> index = 16 then c = CHR '':''
       else is_ascii_digit c) (List.enumerate 0 v)"

definition slice_number :: "string \<Rightarrow> nat \<Rightarrow> nat \<Rightarrow> nat option" where
  "slice_number v start stop = ok_opt (parse_int 4294967295 (take (stop - start) (drop start v)))"

definition valid_store_timestamp :: "string \<Rightarrow> bool" where
  "valid_store_timestamp v =
     (case (slice_number v 0 4, slice_number v 5 7, slice_number v 8 10, slice_number v 11 13, slice_number v 14 16,
            slice_number v 17 19) of
        (Some year, Some month, Some day, Some hour, Some minute, Some second) \<Rightarrow>
          (let leap_year = (year mod 4 = 0 \<and> (year mod 100 \<noteq> 0 \<or> year mod 400 = 0));
               days = (if month \<in> {1, 3, 5, 7, 8, 10, 12} then Some 31
                       else if month \<in> {4, 6, 9, 11} then Some 30
                       else if month = 2 then Some (if leap_year then 29 else 28) else None)
           in case days of
                None \<Rightarrow> False
              | Some days \<Rightarrow> 1 \<le> day \<and> day \<le> days \<and> hour < 24 \<and> minute < 60 \<and> second < 60)
      | _ \<Rightarrow> False)"

text \<open>\<open>StoreTimestamp::parse\<close> accepts the texts of this shape with a date that exists and a time of day.\<close>

definition store_timestamp_ok :: "string \<Rightarrow> bool" where
  "store_timestamp_ok v \<longleftrightarrow> timestamp_shape v \<and> valid_store_timestamp v"


lemma valid_store_timestamp_date:
  assumes "slice_number v 0 4 = Some y" "slice_number v 5 7 = Some m" "slice_number v 8 10 = Some d"
    and "slice_number v 11 13 = Some h" "slice_number v 14 16 = Some mi" "slice_number v 17 19 = Some sec"
  shows "valid_store_timestamp v \<longleftrightarrow> 1 \<le> d \<and> int d \<le> days_in_month (int y) (int m) \<and> h < 24 \<and> mi < 60 \<and> sec < 60"
proof -
  have "int y smod 4 = 0 \<longleftrightarrow> y mod 4 = 0" "int y smod 100 = 0 \<longleftrightarrow> y mod 100 = 0" "int y smod 400 = 0 \<longleftrightarrow> y mod 400 = 0"
    by (simp_all add: smod_zero zmod_int [symmetric, of y 4, simplified] zmod_int [symmetric, of y 100, simplified]
      zmod_int [symmetric, of y 400, simplified])
  then show ?thesis using assms by (auto simp: valid_store_timestamp_def days_in_month_def Let_def)
qed

section \<open>What the database does\<close>

text \<open>
  The tables as this code uses them: the cells of \<open>cluster\<close>, which are texts since the code writes
  texts and bytes in base64, and the rows of \<open>machines\<close>.
\<close>

record tables =
  tb_cluster :: "string \<Rightarrow> string option"
  tb_machines :: "(string \<times> string) list"

definition sql_text :: "codec_lib \<Rightarrow> sql_value \<Rightarrow> string option" where
  "sql_text lib v =
     (case v of SqlString s \<Rightarrow> Some s | SqlBytes bytes \<Rightarrow> Some (lib_b64_encode lib bytes) | _ \<Rightarrow> None)"

definition machine_row :: "string \<times> string \<Rightarrow> db_value list" where
  "machine_row row = [DbText (fst row), DbText (snd row)]"

text \<open>
  A query leaves the tables alone. The stream of its rows may break early, which the terminal error
  tells. A statement that fails has been applied or not: the answer may be lost after the commit.
\<close>

locale database = codec_laws lib for lib :: codec_lib +
  fixes be :: "'s backend"
    and tables :: "'s \<Rightarrow> tables"
  assumes query_tables: "be_query be query params columns s = (answer, t) \<Longrightarrow> tables t = tables s"
    and get_rows: "be_query be get_sql (Some [SqlString key]) [RawColumn] s = (Ok result, t) \<Longrightarrow>
      qr_rows result = (case tb_cluster (tables s) key of None \<Rightarrow> [] | Some v \<Rightarrow> [[DbRaw (projr (lib_to_text lib (JString v)))]])
      \<or> qr_rows result = [] \<and> qr_terminal_error result \<noteq> None"
    and list_rows: "be_query be list_machines_sql None [TextColumn, TextColumn] s = (Ok result, t) \<Longrightarrow>
      \<exists>rows. qr_rows result = map machine_row rows \<and> mset rows \<subseteq># mset (tb_machines (tables s)) \<and>
        (qr_terminal_error result = None \<longrightarrow> mset rows = mset (tb_machines (tables s)))"
    and put_cell: "be_exec be put_sql (Some [SqlString key, v]) s = (r, t) \<Longrightarrow> sql_text lib v = Some cell \<Longrightarrow>
      tables t = (tables s)\<lparr>tb_cluster := (tb_cluster (tables s))(key \<mapsto> cell)\<rparr> \<or> \<not> is_ok r \<and> tables t = tables s"
    and delete_cell: "be_exec be delete_sql (Some [SqlString key]) s = (r, t) \<Longrightarrow>
      tables t = (tables s)\<lparr>tb_cluster := (tb_cluster (tables s))(key := None)\<rparr> \<or> \<not> is_ok r \<and> tables t = tables s"
    and insert_row: "be_exec be create_machine_sql (Some [SqlString mid, SqlString info]) s = (r, t) \<Longrightarrow>
      mid \<notin> fst ` set (tb_machines (tables s)) \<and> tables t = (tables s)\<lparr>tb_machines := tb_machines (tables s) @ [(mid, info)]\<rparr>
      \<or> \<not> is_ok r \<and> tables t = tables s"
    and delete_row: "be_exec be delete_machine_sql (Some [SqlString mid]) s = (r, t) \<Longrightarrow>
      tables t = (tables s)\<lparr>tb_machines := filter (\<lambda>row. fst row \<noteq> mid) (tb_machines (tables s))\<rparr> \<and>
        (\<forall>n. r = Ok n \<longrightarrow> (n = 0 \<longleftrightarrow> mid \<notin> fst ` set (tb_machines (tables s))))
      \<or> \<not> is_ok r \<and> tables t = tables s"
    and delete_containers_rows: "be_exec be (fst (delete_containers_query options)) params s = (r, t) \<Longrightarrow> tables t = tables s"

section \<open>The store of the cluster service\<close>

record 's store_access =
  sa_put_string :: "string \<Rightarrow> string \<Rightarrow> ('s, store_error, unit) action"
  sa_put_bytes :: "string \<Rightarrow> 8 word list \<Rightarrow> ('s, store_error, unit) action"
  sa_get_string :: "string \<Rightarrow> ('s, store_error, string) action"
  sa_get_bytes :: "string \<Rightarrow> ('s, store_error, 8 word list) action"
  sa_delete :: "string \<Rightarrow> ('s, store_error, unit) action"
  sa_list_machines :: "('s, store_error fault, machine_info list) action"
  sa_create_machine :: "machine_info \<Rightarrow> ('s, store_error, unit) action"
  sa_delete_machine :: "string \<Rightarrow> ('s, store_error, unit) action"
  sa_delete_machine_containers :: "string \<Rightarrow> ('s, store_error, unit) action"

definition store_access_of :: "codec_lib \<Rightarrow> 's backend \<Rightarrow> 's store_access" where
  "store_access_of lib be =
     \<lparr>sa_put_string = (\<lambda>key v. store_put be key (SqlString v)),
      sa_put_bytes = (\<lambda>key v. store_put be key (SqlBytes v)),
      sa_get_string = store_get be (string_from_cluster_json lib),
      sa_get_bytes = store_get be (bytes_from_cluster_json lib),
      sa_delete = store_delete be,
      sa_list_machines = list_machines lib be,
      sa_create_machine = create_machine lib be,
      sa_delete_machine = delete_machine be,
      sa_delete_machine_containers = (\<lambda>mid. delete_containers be \<lparr>do_ids = [], do_machine_ids = [mid]\<rparr>)\<rparr>"

text \<open>
  The contract: the cells as texts and as bytes, the machines that the rows hold, when every row
  holds a machine (\<open>typed\<close>), and when a listing will not be cut short (\<open>complete\<close>).
\<close>

locale cluster_store =
  fixes sa :: "'s store_access"
    and cells :: "'s \<Rightarrow> string \<Rightarrow> string option"
    and machines :: "'s \<Rightarrow> machine_info list"
    and typed :: "'s \<Rightarrow> bool"
    and complete :: "'s \<Rightarrow> bool"
    and of_bytes :: "8 word list \<Rightarrow> string"
  assumes put_string: "sa_put_string sa key v s = (r, t) \<Longrightarrow> machines t = machines s \<and> typed t = typed s \<and>
      (cells t = (cells s)(key \<mapsto> v) \<or> \<not> is_ok r \<and> cells t = cells s)"
    and put_bytes: "sa_put_bytes sa key bytes s = (r, t) \<Longrightarrow> machines t = machines s \<and> typed t = typed s \<and>
      (cells t = (cells s)(key \<mapsto> of_bytes bytes) \<or> \<not> is_ok r \<and> cells t = cells s)"
    and delete: "sa_delete sa key s = (r, t) \<Longrightarrow> machines t = machines s \<and> typed t = typed s \<and>
      (cells t = (cells s)(key := None) \<or> \<not> is_ok r \<and> cells t = cells s)"
    and get_string: "sa_get_string sa key s = (r_text, t) \<Longrightarrow> machines t = machines s \<and> typed t = typed s \<and> cells t = cells s \<and>
      (r_text = (case cells s key of None \<Rightarrow> Err KeyNotFound | Some v \<Rightarrow> Ok v) \<or> (\<exists>ctx e. r_text = Err (Operation ctx e)))"
    and get_bytes: "sa_get_bytes sa key s = (r_bytes, t) \<Longrightarrow> machines t = machines s \<and> typed t = typed s \<and> cells t = cells s \<and>
      (cells s key = None \<longrightarrow> r_bytes = Err KeyNotFound \<or> (\<exists>ctx e. r_bytes = Err (Operation ctx e))) \<and>
      (\<forall>bytes. cells s key = Some (of_bytes bytes) \<longrightarrow> r_bytes = Ok bytes \<or> (\<exists>ctx e. r_bytes = Err (Operation ctx e)))"
    and list_machines: "sa_list_machines sa s = (r_list, t) \<Longrightarrow> machines t = machines s \<and> typed t = typed s \<and> cells t = cells s"
    and list_machines_typed: "sa_list_machines sa s = (r_list, t) \<Longrightarrow> typed s \<Longrightarrow>
      (\<exists>ms. r_list = Ok ms \<and> mset ms \<subseteq># mset (machines s) \<and> (complete s \<longrightarrow> mset ms = mset (machines s))) \<or>
      (\<exists>ctx e. r_list = Err (Fail (Operation ctx e)))"
    and create_machine: "sa_create_machine sa m s = (r, t) \<Longrightarrow> typed s \<Longrightarrow> network_valid m = Ok True \<Longrightarrow> cells t = cells s \<and> typed t \<and>
      (mi_id m \<notin> mi_id ` set (machines s) \<and> machines t = machines s @ [m] \<or> \<not> is_ok r \<and> machines t = machines s)"
    and delete_machine: "sa_delete_machine sa mid s = (r, t) \<Longrightarrow> typed s \<Longrightarrow> cells t = cells s \<and> typed t \<and>
      (machines t = filter (\<lambda>m. mi_id m \<noteq> mid) (machines s) \<and>
         (r = Ok () \<longrightarrow> mid \<in> mi_id ` set (machines s)) \<and>
         (r = Err (MachineNotFound mid) \<longrightarrow> mid \<notin> mi_id ` set (machines s)) \<or>
       machines t = machines s \<and> (\<exists>ctx e. r = Err (Operation ctx e)))"
    and delete_machine_containers: "sa_delete_machine_containers sa mid s = (r, t) \<Longrightarrow>
      cells t = cells s \<and> typed t = typed s \<and> machines t = machines s"


section \<open>The store keeps the contract\<close>

definition row_machine :: "codec_lib \<Rightarrow> string \<times> string \<Rightarrow> machine_info" where
  "row_machine lib row = (case decode_machine lib (snd row) of Ok m \<Rightarrow> m | Err _ \<Rightarrow> machine_info_default)"

definition row_ok :: "codec_lib \<Rightarrow> string \<times> string \<Rightarrow> bool" where
  "row_ok lib row \<longleftrightarrow> snd row \<noteq> [] \<and> snd row \<noteq> ''{}'' \<and>
     (case decode_machine lib (snd row) of Ok m \<Rightarrow> mi_id m = fst row \<and> network_valid m = Ok True | Err _ \<Rightarrow> False)"

definition stored_machines :: "codec_lib \<Rightarrow> tables \<Rightarrow> machine_info list" where
  "stored_machines lib tabs = map (row_machine lib) (tb_machines tabs)"

definition typed_rows :: "codec_lib \<Rightarrow> tables \<Rightarrow> bool" where
  "typed_rows lib tabs \<longleftrightarrow> list_all (row_ok lib) (tb_machines tabs)"

definition listing_complete :: "'s backend \<Rightarrow> 's \<Rightarrow> bool" where
  "listing_complete be s \<longleftrightarrow>
     (case be_query be list_machines_sql None [TextColumn, TextColumn] s of
        (Ok result, _) \<Rightarrow> qr_terminal_error result = None
      | (Err _, _) \<Rightarrow> True)"

lemma row_ok_machine: "row_ok lib row \<Longrightarrow> mi_id (row_machine lib row) = fst row \<and> network_valid (row_machine lib row) = Ok True"
  by (auto simp: row_ok_def row_machine_def split: sum.splits)

lemma decode_typed_rows:
  "list_all (row_ok lib) rows \<Longrightarrow> decode_machine_rows lib True (map machine_row rows) = Ok (map (row_machine lib) rows)"
  by (induction rows) (auto simp: machine_row_def row_ok_def row_machine_def split: sum.splits)

lemma stored_ids: "typed_rows lib tabs \<Longrightarrow> mi_id ` set (stored_machines lib tabs) = fst ` set (tb_machines tabs)"
  by (force simp: typed_rows_def stored_machines_def list_all_iff dest: row_ok_machine)

lemma stored_filter:
  "typed_rows lib tabs \<Longrightarrow>
   stored_machines lib (tabs\<lparr>tb_machines := filter (\<lambda>row. fst row \<noteq> mid) (tb_machines tabs)\<rparr>) =
     filter (\<lambda>m. mi_id m \<noteq> mid) (stored_machines lib tabs)"
  by (auto simp: typed_rows_def stored_machines_def list_all_iff filter_map row_ok_machine
    intro!: arg_cong [of _ _ "map (row_machine lib)"] filter_cong)

lemma trim_quoted:
  assumes "s \<noteq> []" "hd s = CHR 0x22"
  shows "trim s \<noteq> ''null''"
proof -
  obtain rest where s: "s = CHR 0x22 # rest" using assms by (cases s) auto
  have "strip_one (filter (\<lambda>w. w \<noteq> []) utf8_white_space) s = None"
    unfolding strip_one_None utf8_white_space_def s by (simp add: starts_with_def)
  then have start: "trim_start s = s" by (simp add: trim_start_def strip_all.simps [of utf8_white_space s])
  obtain p where p: "rev s = p @ strip_all (map rev utf8_white_space) (rev s)" using strip_all_suffix by blast
  have split: "s = trim s @ rev p"
    using arg_cong [OF p, of rev] by (simp add: trim_def start trim_end_def)
  show ?thesis
  proof
    assume "trim s = ''null''"
    then have "hd s = CHR ''n''" by (subst split) simp
    with assms(2) show False by simp
  qed
qed


context database
begin

text \<open>Texts and bytes are read back as they were written.\<close>

lemma cell_text:
  obtains raw where "lib_to_text lib (JString v) = Ok raw" "lib_from_text lib raw = Ok (JString v)" "trim raw \<noteq> ''null''"
proof -
  obtain raw where raw: "lib_to_text lib (JString v) = Ok raw" "lib_from_text lib raw = Ok (JString v)"
    using text_roundtrip [of "JString v"] by auto
  then show ?thesis using that trim_quoted text_string [OF raw(1)] by blast
qed

lemma read_cell:
  "string_from_cluster_json lib (projr (lib_to_text lib (JString v))) = Ok v"
  "bytes_from_cluster_json lib (projr (lib_to_text lib (JString (lib_b64_encode lib bytes)))) = Ok bytes"
proof -
  show "string_from_cluster_json lib (projr (lib_to_text lib (JString v))) = Ok v"
    by (rule cell_text [of v]) (simp add: string_from_cluster_json_def)
  have "filter (\<lambda>c. c \<noteq> CHR 0x0D \<and> c \<noteq> CHR 0x0A) (lib_b64_encode lib bytes) = lib_b64_encode lib bytes"
    using b64_chars [of bytes] by (auto simp: filter_id_conv)
  then show "bytes_from_cluster_json lib (projr (lib_to_text lib (JString (lib_b64_encode lib bytes)))) = Ok bytes"
    by (rule_tac cell_text [of "lib_b64_encode lib bytes"])
      (simp add: bytes_from_cluster_json_def go_bytes_of_json_def decode_go_base64_def b64_padded)
qed

lemma exec_state: "store_exec be ctx query params s = (r, t) \<Longrightarrow> \<exists>r'. be_exec be query params s = (r', t) \<and> is_ok r' = is_ok r \<and> r = map_err (Operation ctx) r'"
  by (cases "be_exec be query params s") (auto simp: store_exec_def with_err_def)

lemma put_state:
  assumes "store_put be key v s = (r, t)" "sql_text lib v = Some cell"
  shows "tables t = (tables s)\<lparr>tb_cluster := (tb_cluster (tables s))(key \<mapsto> cell)\<rparr> \<or> \<not> is_ok r \<and> tables t = tables s"
proof -
  obtain r' where "store_exec be ''put cluster value'' put_sql (Some [SqlString key, v]) s = (r', t)" "is_ok r = is_ok r'"
    using assms(1) by (auto simp: store_put_def and_then_def split: prod.splits sum.splits)
  then show ?thesis using exec_state put_cell [OF _ assms(2)] by metis
qed

lemma delete_state:
  assumes "store_delete be key s = (r, t)"
  shows "tables t = (tables s)\<lparr>tb_cluster := (tb_cluster (tables s))(key := None)\<rparr> \<or> \<not> is_ok r \<and> tables t = tables s"
proof -
  obtain r' where "store_exec be ''delete cluster value'' delete_sql (Some [SqlString key]) s = (r', t)" "is_ok r = is_ok r'"
    using assms(1) by (auto simp: store_delete_def and_then_def split: prod.splits sum.splits)
  then show ?thesis using exec_state delete_cell by metis
qed

lemma get_state:
  assumes "store_get be from_json key s = (r, t)"
  shows "tables t = tables s"
    "r = (case tb_cluster (tables s) key of None \<Rightarrow> Err KeyNotFound | Some v \<Rightarrow> from_json (projr (lib_to_text lib (JString v))))
     \<or> (\<exists>ctx e. r = Err (Operation ctx e))"
proof -
  obtain q where q: "be_query be get_sql (Some [SqlString key]) [RawColumn] s = (q, t)"
    using assms by (auto simp: store_get_def and_then_def query_result_def with_err_def split: prod.splits sum.splits)
  then show "tables t = tables s" by (rule query_tables)
  show "r = (case tb_cluster (tables s) key of None \<Rightarrow> Err KeyNotFound | Some v \<Rightarrow> from_json (projr (lib_to_text lib (JString v))))
     \<or> (\<exists>ctx e. r = Err (Operation ctx e))"
  proof (cases q)
    case (Inl e)
    with assms q show ?thesis by (auto simp: store_get_def and_then_def query_result_def with_err_def)
  next
    case (Inr result)
    have r: "r = (case qr_rows result of
          [] \<Rightarrow> (case qr_terminal_error result of
                  Some source \<Rightarrow> Err (Operation ''query cluster value'' source) | None \<Rightarrow> Err KeyNotFound)
        | (DbRaw v # _) # _ \<Rightarrow> from_json v
        | _ \<Rightarrow> Err (InvalidData ''cluster value has unsupported SQL type''))"
      using assms unfolding store_get_def and_then_def query_result_def with_err_def q Inr by simp
    consider "qr_rows result = []" "qr_terminal_error result \<noteq> None"
      | "qr_rows result = (case tb_cluster (tables s) key of None \<Rightarrow> [] | Some v \<Rightarrow> [[DbRaw (projr (lib_to_text lib (JString v)))]])"
      using get_rows q Inr by blast
    then show ?thesis by cases (auto simp: r split: option.split)
  qed
qed

end


context database
begin

lemma list_state:
  assumes "list_machines lib be s = (r, t)"
  shows "tables t = tables s"
    "typed_rows lib (tables s) \<Longrightarrow>
      (\<exists>ms. r = Ok ms \<and> mset ms \<subseteq># mset (stored_machines lib (tables s)) \<and>
        (listing_complete be s \<longrightarrow> mset ms = mset (stored_machines lib (tables s)))) \<or> (\<exists>ctx e. r = Err (Fail (Operation ctx e)))"
proof -
  obtain q where q: "be_query be list_machines_sql None [TextColumn, TextColumn] s = (q, t)"
    using assms by (auto simp: list_machines_def store_query_def and_then_def query_result_def with_err_def split: prod.splits sum.splits)
  then show "tables t = tables s" by (rule query_tables)
  assume typed: "typed_rows lib (tables s)"
  show "(\<exists>ms. r = Ok ms \<and> mset ms \<subseteq># mset (stored_machines lib (tables s)) \<and>
        (listing_complete be s \<longrightarrow> mset ms = mset (stored_machines lib (tables s)))) \<or> (\<exists>ctx e. r = Err (Fail (Operation ctx e)))"
  proof (cases q)
    case (Inl e)
    with assms q show ?thesis by (auto simp: list_machines_def store_query_def and_then_def query_result_def with_err_def)
  next
    case (Inr result)
    obtain rows where rows: "qr_rows result = map machine_row rows" "mset rows \<subseteq># mset (tb_machines (tables s))"
      "qr_terminal_error result = None \<longrightarrow> mset rows = mset (tb_machines (tables s))"
      using list_rows q Inr by blast
    have "set rows \<subseteq> set (tb_machines (tables s))" using rows(2) by (metis set_mset_mono set_mset_mset)
    then have "list_all (row_ok lib) rows" using typed by (auto simp: typed_rows_def list_all_iff)
    from decode_typed_rows [OF this] have "r = Ok (map (row_machine lib) rows)"
      using assms unfolding list_machines_def store_query_def and_then_def query_result_def with_err_def q Inr by (simp add: rows(1))
    moreover have "listing_complete be s \<longleftrightarrow> qr_terminal_error result = None" by (simp add: listing_complete_def q Inr)
    ultimately show ?thesis using rows(2,3) by (auto simp: stored_machines_def image_mset_subseteq_mono)
  qed
qed

lemma encoded_row:
  assumes "network_valid m = Ok True"
  shows "\<exists>info. encode_machine lib m = Ok info \<and> row_ok lib (mi_id m, info) \<and> row_machine lib (mi_id m, info) = m"
proof -
  obtain info where info: "encode_machine lib m = Ok info" "decode_machine lib info = Ok m"
    using decode_encode_machine by blast
  obtain c where "mi_network m = Some c" using assms by (auto simp: network_valid_def rbind_eq_Ok)
  then obtain ms where ms: "machine_json lib m = JObject ms" "ms \<noteq> []" by (simp add: machine_json_def message_member_def)
  then have "lib_to_text lib (JObject ms) = Ok info" using info(1) by (simp add: encode_machine_def map_err_eq_Ok)
  from text_object [OF this] ms(2) have "info \<noteq> [] \<and> info \<noteq> ''{}''" by simp
  with info assms show ?thesis by (simp add: row_ok_def row_machine_def)
qed

lemma create_state:
  assumes "create_machine lib be m s = (r, t)" "typed_rows lib (tables s)" "network_valid m = Ok True"
  shows "tb_cluster (tables t) = tb_cluster (tables s) \<and> typed_rows lib (tables t) \<and>
    (mi_id m \<notin> mi_id ` set (stored_machines lib (tables s)) \<and>
       stored_machines lib (tables t) = stored_machines lib (tables s) @ [m] \<or>
     \<not> is_ok r \<and> stored_machines lib (tables t) = stored_machines lib (tables s))"
proof -
  obtain info where info: "encode_machine lib m = Ok info" "row_ok lib (mi_id m, info)" "row_machine lib (mi_id m, info) = m"
    using encoded_row [OF assms(3)] by blast
  obtain r' where "store_exec be ''insert query'' create_machine_sql (Some [SqlString (mi_id m), SqlString info]) s = (r', t)"
    "is_ok r = is_ok r'"
    using assms(1) by (auto simp: create_machine_def info(1) and_then_def split: prod.splits sum.splits)
  then consider "\<not> is_ok r" "tables t = tables s"
    | "mi_id m \<notin> fst ` set (tb_machines (tables s))"
      "tables t = (tables s)\<lparr>tb_machines := tb_machines (tables s) @ [(mi_id m, info)]\<rparr>"
    using exec_state insert_row by metis
  then show ?thesis
    using stored_ids [OF assms(2)] assms(2) info by cases (simp_all add: stored_machines_def typed_rows_def)
qed

lemma delete_machine_state:
  assumes "delete_machine be mid s = (r, t)" "typed_rows lib (tables s)"
  shows "tb_cluster (tables t) = tb_cluster (tables s) \<and> typed_rows lib (tables t) \<and>
    (stored_machines lib (tables t) = filter (\<lambda>m. mi_id m \<noteq> mid) (stored_machines lib (tables s)) \<and>
       (r = Ok () \<longrightarrow> mid \<in> mi_id ` set (stored_machines lib (tables s))) \<and>
       (r = Err (MachineNotFound mid) \<longrightarrow> mid \<notin> mi_id ` set (stored_machines lib (tables s))) \<or>
     stored_machines lib (tables t) = stored_machines lib (tables s) \<and> (\<exists>ctx e. r = Err (Operation ctx e)))"
proof -
  obtain r' where r': "be_exec be delete_machine_sql (Some [SqlString mid]) s = (r', t)"
    and r: "r = rbind (map_err (Operation ''delete machine'') r') (\<lambda>n. if n = 0 then Err (MachineNotFound mid) else Ok ())"
    using assms(1) by (auto simp: delete_machine_def store_exec_def and_then_def with_err_def split: prod.splits sum.splits)
  from delete_row [OF r'] consider
      e where "r' = Err e" "tables t = tables s"
    | "tables t = (tables s)\<lparr>tb_machines := filter (\<lambda>row. fst row \<noteq> mid) (tb_machines (tables s))\<rparr>"
      "\<forall>n. r' = Ok n \<longrightarrow> (n = 0 \<longleftrightarrow> mid \<notin> fst ` set (tb_machines (tables s)))"
    by (cases r') auto
  then show ?thesis
  proof cases
    case 2
    have "typed_rows lib (tables t)" using assms(2) 2(1) by (simp add: typed_rows_def list_all_iff)
    moreover have "stored_machines lib (tables t) = filter (\<lambda>m. mi_id m \<noteq> mid) (stored_machines lib (tables s))"
      unfolding 2(1) by (rule stored_filter [OF assms(2)])
    ultimately show ?thesis using 2 r stored_ids [OF assms(2)] by (cases r') auto
  qed (use assms(2) r in simp)
qed

end

sublocale database \<subseteq> store: cluster_store "store_access_of lib be" "\<lambda>s. tb_cluster (tables s)" "\<lambda>s. stored_machines lib (tables s)"
  "\<lambda>s. typed_rows lib (tables s)" "listing_complete be" "lib_b64_encode lib"
proof (unfold_locales, unfold store_access_of_def store_access.simps)
  fix key v s t and r :: "(store_error, unit) result"
  assume "store_put be key (SqlString v) s = (r, t)"
  then show "stored_machines lib (tables t) = stored_machines lib (tables s) \<and> typed_rows lib (tables t) = typed_rows lib (tables s) \<and>
    (tb_cluster (tables t) = (tb_cluster (tables s))(key \<mapsto> v) \<or> \<not> is_ok r \<and> tb_cluster (tables t) = tb_cluster (tables s))"
    using put_state [of key "SqlString v" s r t v] by (auto simp: sql_text_def stored_machines_def typed_rows_def)
next
  fix key bytes s t and r :: "(store_error, unit) result"
  assume "store_put be key (SqlBytes bytes) s = (r, t)"
  then show "stored_machines lib (tables t) = stored_machines lib (tables s) \<and> typed_rows lib (tables t) = typed_rows lib (tables s) \<and>
    (tb_cluster (tables t) = (tb_cluster (tables s))(key \<mapsto> lib_b64_encode lib bytes) \<or> \<not> is_ok r \<and> tb_cluster (tables t) = tb_cluster (tables s))"
    using put_state [of key "SqlBytes bytes" s r t] by (auto simp: sql_text_def stored_machines_def typed_rows_def)
next
  fix key s t and r :: "(store_error, unit) result"
  assume "store_delete be key s = (r, t)"
  then show "stored_machines lib (tables t) = stored_machines lib (tables s) \<and> typed_rows lib (tables t) = typed_rows lib (tables s) \<and>
    (tb_cluster (tables t) = (tb_cluster (tables s))(key := None) \<or> \<not> is_ok r \<and> tb_cluster (tables t) = tb_cluster (tables s))"
    using delete_state [of key s r t] by (auto simp: stored_machines_def typed_rows_def)
next
  fix key s t and r :: "(store_error, string) result"
  assume "store_get be (string_from_cluster_json lib) key s = (r, t)"
  from get_state [OF this] show "stored_machines lib (tables t) = stored_machines lib (tables s) \<and> typed_rows lib (tables t) = typed_rows lib (tables s) \<and>
    tb_cluster (tables t) = tb_cluster (tables s) \<and>
    (r = (case tb_cluster (tables s) key of None \<Rightarrow> Err KeyNotFound | Some v \<Rightarrow> Ok v) \<or> (\<exists>ctx e. r = Err (Operation ctx e)))"
    by (auto simp: read_cell split: option.splits)
next
  fix key s t and r :: "(store_error, 8 word list) result"
  assume "store_get be (bytes_from_cluster_json lib) key s = (r, t)"
  from get_state [OF this] show "stored_machines lib (tables t) = stored_machines lib (tables s) \<and> typed_rows lib (tables t) = typed_rows lib (tables s) \<and>
    tb_cluster (tables t) = tb_cluster (tables s) \<and>
    (tb_cluster (tables s) key = None \<longrightarrow> r = Err KeyNotFound \<or> (\<exists>ctx e. r = Err (Operation ctx e))) \<and>
    (\<forall>bytes. tb_cluster (tables s) key = Some (lib_b64_encode lib bytes) \<longrightarrow> r = Ok bytes \<or> (\<exists>ctx e. r = Err (Operation ctx e)))"
    by (auto simp: read_cell)
next
  fix mid s t and r :: "(store_error, unit) result"
  assume r: "delete_containers be \<lparr>do_ids = [], do_machine_ids = [mid]\<rparr> s = (r, t)"
  let ?query = "delete_containers_query \<lparr>do_ids = [], do_machine_ids = [mid]\<rparr>"
  have "\<exists>params r'. be_exec be (fst ?query) params s = (r', t)"
    using r by (auto simp: delete_containers_def Let_def store_exec_def and_then_def with_err_def split: prod.splits sum.splits)
  then show "tb_cluster (tables t) = tb_cluster (tables s) \<and> typed_rows lib (tables t) = typed_rows lib (tables s) \<and>
    stored_machines lib (tables t) = stored_machines lib (tables s)"
    using delete_containers_rows by metis
next
  fix s t and r :: "(store_error fault, machine_info list) result"
  assume "list_machines lib be s = (r, t)"
  from list_state(1) [OF this] show "stored_machines lib (tables t) = stored_machines lib (tables s) \<and>
    typed_rows lib (tables t) = typed_rows lib (tables s) \<and> tb_cluster (tables t) = tb_cluster (tables s)" by simp
qed (fact list_state(2) create_state delete_machine_state)+


context database
begin

lemma store_laws: "cluster_store (store_access_of lib be) (\<lambda>s. tb_cluster (tables s)) (\<lambda>s. stored_machines lib (tables s))
    (\<lambda>s. typed_rows lib (tables s)) (listing_complete be) (lib_b64_encode lib)"
  by (rule store.cluster_store_axioms)

end

section \<open>A database in memory\<close>

text \<open>
  An instance of the laws: tables in memory, statements that are made to fail, and a stream that
  breaks after some rows.
\<close>

record memory =
  mem_tables :: tables
  mem_failing :: "string list"
  mem_stream :: "nat option"

definition memory_write :: "memory \<Rightarrow> tables \<Rightarrow> nat \<Rightarrow> (string, 64 word) result \<times> memory" where
  "memory_write m tabs affected = (Ok (of_nat affected), m\<lparr>mem_tables := tabs\<rparr>)"

definition memory_exec :: "codec_lib \<Rightarrow> string \<Rightarrow> sql_value list option \<Rightarrow> (memory, string, 64 word) action" where
  "memory_exec lib query params m =
     (let tabs = mem_tables m in
      if query \<in> set (mem_failing m) then (Err ''disk I/O error'', m)
      else if starts_with query ''DELETE FROM containers'' then (Ok 0, m)
      else case params of
        Some [SqlString key, v] \<Rightarrow>
          if query = put_sql then
            (case sql_text lib v of
               Some cell \<Rightarrow> memory_write m (tabs\<lparr>tb_cluster := (tb_cluster tabs)(key \<mapsto> cell)\<rparr>) 1
             | None \<Rightarrow> (Err ''unsupported value'', m))
          else if query = create_machine_sql then
            (case v of
               SqlString info \<Rightarrow>
                 if list_ex (\<lambda>row. fst row = key) (tb_machines tabs) then (Err ''UNIQUE constraint failed: machines.id'', m)
                 else memory_write m (tabs\<lparr>tb_machines := tb_machines tabs @ [(key, info)]\<rparr>) 1
             | _ \<Rightarrow> (Err ''unsupported value'', m))
          else (Err ''unsupported statement'', m)
      | Some [SqlString key] \<Rightarrow>
          if query = delete_sql then memory_write m (tabs\<lparr>tb_cluster := (tb_cluster tabs)(key := None)\<rparr>) 1
          else if query = delete_machine_sql then
            memory_write m (tabs\<lparr>tb_machines := filter (\<lambda>row. fst row \<noteq> key) (tb_machines tabs)\<rparr>)
              (if list_ex (\<lambda>row. fst row = key) (tb_machines tabs) then 1 else 0)
          else (Err ''unsupported statement'', m)
      | _ \<Rightarrow> (Err ''unsupported statement'', m))"

definition memory_rows :: "codec_lib \<Rightarrow> string \<Rightarrow> sql_value list option \<Rightarrow> tables \<Rightarrow> db_value list list" where
  "memory_rows lib query params tabs =
     (if query = list_machines_sql then map machine_row (tb_machines tabs)
      else case params of
        Some [SqlString key] \<Rightarrow>
          if query = get_sql then
            (case tb_cluster tabs key of None \<Rightarrow> [] | Some v \<Rightarrow> [[DbRaw (projr (lib_to_text lib (JString v)))]])
          else []
      | _ \<Rightarrow> [])"

definition memory_query :: "codec_lib \<Rightarrow> string \<Rightarrow> sql_value list option \<Rightarrow> column_kind list \<Rightarrow> (memory, string, query_rows) action" where
  "memory_query lib query params columns m =
     (if query \<in> set (mem_failing m) then (Err ''disk I/O error'', m)
      else
        (let rows = memory_rows lib query params (mem_tables m) in
         (Ok (case mem_stream m of
                None \<Rightarrow> \<lparr>qr_rows = rows, qr_terminal_error = None\<rparr>
              | Some n \<Rightarrow> \<lparr>qr_rows = take n rows, qr_terminal_error = Some ''connection reset''\<rparr>), m)))"

definition memory_backend :: "codec_lib \<Rightarrow> memory backend" where
  "memory_backend lib = \<lparr>be_exec = memory_exec lib, be_query = memory_query lib\<rparr>"

lemma statements_distinct [simp]:
  "\<not> starts_with put_sql ''DELETE FROM containers''" "\<not> starts_with delete_sql ''DELETE FROM containers''"
  "\<not> starts_with create_machine_sql ''DELETE FROM containers''" "\<not> starts_with delete_machine_sql ''DELETE FROM containers''"
  "create_machine_sql \<noteq> put_sql" "put_sql \<noteq> create_machine_sql" "delete_machine_sql \<noteq> delete_sql" "delete_sql \<noteq> delete_machine_sql"
  "get_sql \<noteq> list_machines_sql"
  by (simp_all add: put_sql_def delete_sql_def create_machine_sql_def delete_machine_sql_def get_sql_def list_machines_sql_def starts_with_def)

lemma delete_containers_text: "starts_with (fst (delete_containers_query options)) ''DELETE FROM containers''"
  by (simp add: delete_containers_query_def Let_def push_placeholders_def starts_with_def)

lemma mset_take: "mset (take n xs) \<subseteq># mset xs"
  by (metis append_take_drop_id mset_append mset_subset_eq_add_left)

interpretation memory: database plain_lib "memory_backend plain_lib" mem_tables
proof (unfold_locales, unfold memory_backend_def backend.simps)
  fix s t and result :: query_rows
  assume "memory_query plain_lib list_machines_sql None [TextColumn, TextColumn] s = (Ok result, t)"
  then have "result = (case mem_stream s of
      None \<Rightarrow> \<lparr>qr_rows = map machine_row (tb_machines (mem_tables s)), qr_terminal_error = None\<rparr>
    | Some n \<Rightarrow> \<lparr>qr_rows = map machine_row (take n (tb_machines (mem_tables s))), qr_terminal_error = Some ''connection reset''\<rparr>)"
    by (auto simp: memory_query_def memory_rows_def take_map split: if_splits option.splits)
  then show "\<exists>rows. qr_rows result = map machine_row rows \<and> mset rows \<subseteq># mset (tb_machines (mem_tables s)) \<and>
      (qr_terminal_error result = None \<longrightarrow> mset rows = mset (tb_machines (mem_tables s)))"
    using mset_take by (cases "mem_stream s") auto
next
  fix key s t and result :: query_rows
  assume "memory_query plain_lib get_sql (Some [SqlString key]) [RawColumn] s = (Ok result, t)"
  then show "qr_rows result = (case tb_cluster (mem_tables s) key of None \<Rightarrow> [] | Some v \<Rightarrow> [[DbRaw (projr (lib_to_text plain_lib (JString v)))]])
      \<or> qr_rows result = [] \<and> qr_terminal_error result \<noteq> None"
    by (auto simp: memory_query_def memory_rows_def take_Cons' Let_def split: if_splits option.splits)
qed (auto simp: memory_query_def memory_exec_def memory_write_def Let_def delete_containers_text list_ex_iff image_iff
    split: if_splits)


text \<open>What the operations of the store answer on the tables in memory.\<close>

lemma memory_list_machines:
  assumes "mem_failing m = []" "typed_rows plain_lib (mem_tables m)"
  shows "list_machines plain_lib (memory_backend plain_lib) m =
    (Ok (case mem_stream m of None \<Rightarrow> stored_machines plain_lib (mem_tables m)
       | Some n \<Rightarrow> take n (stored_machines plain_lib (mem_tables m))), m)"
proof -
  have "decode_machine_rows plain_lib True (map machine_row (take n (tb_machines (mem_tables m)))) =
      Ok (take n (stored_machines plain_lib (mem_tables m)))" for n
    using decode_typed_rows [of plain_lib "take n (tb_machines (mem_tables m))"] assms(2)
    by (auto simp: typed_rows_def stored_machines_def take_map list_all_iff dest!: in_set_takeD)
  moreover have "decode_machine_rows plain_lib True (map machine_row (tb_machines (mem_tables m))) = Ok (stored_machines plain_lib (mem_tables m))"
    using decode_typed_rows assms(2) by (simp add: typed_rows_def stored_machines_def)
  ultimately show ?thesis
    by (simp add: list_machines_def store_query_def query_result_def and_then_def with_err_def memory_backend_def memory_query_def
        memory_rows_def Let_def take_map assms(1) split: option.split)
qed

lemma memory_get_string:
  assumes "mem_failing m = []" "mem_stream m \<noteq> Some 0" "tb_cluster (mem_tables m) key = Some v"
  shows "store_get (memory_backend plain_lib) (string_from_cluster_json plain_lib) key m = (Ok v, m)"
proof -
  have "memory_query plain_lib get_sql (Some [SqlString key]) [RawColumn] m =
      (Ok \<lparr>qr_rows = [[DbRaw (projr (lib_to_text plain_lib (JString v)))]],
           qr_terminal_error = (case mem_stream m of None \<Rightarrow> None | Some _ \<Rightarrow> Some ''connection reset'')\<rparr>, m)"
    using assms by (cases "mem_stream m") (simp_all add: memory_query_def memory_rows_def Let_def take_Cons')
  then show ?thesis
    by (simp add: store_get_def query_result_def and_then_def with_err_def memory_backend_def memory.read_cell(1))
qed

lemma memory_create_machine:
  assumes "mem_failing s = []" "mi_id m \<notin> fst ` set (tb_machines (mem_tables s))"
  shows "create_machine plain_lib (memory_backend plain_lib) m s =
    (Ok (), s\<lparr>mem_tables := (mem_tables s)\<lparr>tb_machines := tb_machines (mem_tables s) @ [(mi_id m, projr (encode_machine plain_lib m))]\<rparr>\<rparr>)"
proof -
  obtain info where "encode_machine plain_lib m = Ok info" using plain.decode_encode_machine by blast
  moreover have "\<not> list_ex (\<lambda>row. fst row = mi_id m) (tb_machines (mem_tables s))" using assms(2) by (force simp: list_ex_iff)
  ultimately show ?thesis
    using assms(1)
    by (simp add: create_machine_def store_exec_def and_then_def with_err_def memory_backend_def memory_exec_def memory_write_def Let_def)
qed

end
