(* ===== verification/Machine_Name.thy ===== *)
theory Machine_Name
  imports Secret
begin

text \<open>
  Names and identifiers of machines (\<open>machine.rs\<close> of the cluster crate): the name derived from a
  host name, and the search for a name that no machine of the cluster has yet.
\<close>

section \<open>Operations\<close>

definition new_machine_id :: "(nat \<Rightarrow> (string, 8 word list) result) \<Rightarrow> (secret_error, string) result" where
  "new_machine_id fill = new_id fill"

text \<open>The random name, \<open>None\<close> when the generator of the suffix does not return.\<close>

definition new_random_machine_name :: "(nat \<Rightarrow> (string, 8 word) result) \<Rightarrow> (secret_error, string) result option" where
  "new_random_machine_name fill = map_option (map_ok (\<lambda>suffix. ''machine-'' @ suffix)) (random_alphanumeric 4 fill)"

definition machine_name_error_display :: "secret_error \<Rightarrow> string" where
  "machine_name_error_display e = ''generate random suffix: '' @ secret_error_display e"

text \<open>
  The first code point of the lower-case mapping of a character. Outside ASCII only two characters
  have a mapping that begins in ASCII, the dotted capital I (U+0130) and the Kelvin sign (U+212A);
  for every other one what matters is that the result is not an ASCII character, which holds of the
  character itself.
\<close>

definition lower_first :: "string \<Rightarrow> string" where
  "lower_first c =
     (if c = [CHR 0xC4, CHR 0xB0] then ''i''
      else if c = [CHR 0xE2, CHR 0x84, CHR 0xAA] then ''k''
      else map (\<lambda>b. if is_ascii_uppercase b then char_of (byte_of b + 32) else b) c)"

definition sanitize_char :: "string \<Rightarrow> char" where
  "sanitize_char character =
     (case lower_first character of
        [c] \<Rightarrow>
          if is_ascii_lowercase c \<or> is_ascii_digit c \<or> c = CHR ''-'' \<or> c = CHR ''_'' then c else CHR ''-''
      | _ \<Rightarrow> CHR ''-'')"

definition trim_dashes :: "string \<Rightarrow> string" where
  "trim_dashes s = rev (dropWhile (\<lambda>c. c = CHR ''-'') (rev (dropWhile (\<lambda>c. c = CHR ''-'') s)))"

definition machine_name_from_hostname :: "string \<Rightarrow> string" where
  "machine_name_from_hostname hostname =
     (let first_label = (case split_once CHR ''.'' hostname of Some (label, _) \<Rightarrow> label | None \<Rightarrow> hostname)
      in trim_dashes (map sanitize_char (utf8_chars (trim first_label))))"

definition candidate :: "string \<Rightarrow> nat \<Rightarrow> string" where
  "candidate name suffix = name @ ''-'' @ nat_to_string suffix"

lemma candidate_inject [simp]: "candidate name a = candidate name b \<longleftrightarrow> a = b"
  by (simp add: candidate_def)

lemma taken_suffixes_finite: "finite {k. suffix \<le> k \<and> candidate name k \<in> set existing}"
proof -
  have "candidate name ` {k. suffix \<le> k \<and> candidate name k \<in> set existing} \<subseteq> set existing" by auto
  then show ?thesis by (rule finite_imageD [OF finite_subset]) (auto simp: inj_on_def)
qed

text \<open>The loop over the suffixes: the names taken from a suffix on become fewer.\<close>

function first_free :: "string \<Rightarrow> string list \<Rightarrow> nat \<Rightarrow> nat" where
  "first_free name existing suffix =
     (if candidate name suffix \<in> set existing then first_free name existing (suffix + 1) else suffix)"
  by pat_completeness auto
termination
proof (relation "measure (\<lambda>(name, existing, suffix). card {k. suffix \<le> k \<and> candidate name k \<in> set existing})", simp)
  fix name :: string and existing suffix
  assume taken: "candidate name suffix \<in> set existing"
  have "{k. suffix + 1 \<le> k \<and> candidate name k \<in> set existing} \<subset> {k. suffix \<le> k \<and> candidate name k \<in> set existing}"
  proof (rule psubsetI)
    have "suffix \<in> {k. suffix \<le> k \<and> candidate name k \<in> set existing}"
      "suffix \<notin> {k. suffix + 1 \<le> k \<and> candidate name k \<in> set existing}"
      using taken by auto
    then show "{k. suffix + 1 \<le> k \<and> candidate name k \<in> set existing} \<noteq> {k. suffix \<le> k \<and> candidate name k \<in> set existing}"
      by metis
  qed auto
  then show "((name, existing, suffix + 1), name, existing, suffix)
      \<in> measure (\<lambda>(name, existing, suffix). card {k. suffix \<le> k \<and> candidate name k \<in> set existing})"
    by (simp add: psubset_card_mono taken_suffixes_finite)
qed

declare first_free.simps [simp del]

definition default_machine_name ::
  "(nat \<Rightarrow> (string, 8 word) result) \<Rightarrow> string \<Rightarrow> string list \<Rightarrow> (secret_error, string) result option" where
  "default_machine_name fill hostname existing =
     Option.bind
       (let name = machine_name_from_hostname hostname in
        if name = [] then new_random_machine_name fill else Some (Ok name)) (\<lambda>r.
     Some (rbind r (\<lambda>name.
       if name \<notin> set existing then Ok name
       else Ok (candidate name (first_free name existing 1)))))"

section \<open>The name is free and well-formed\<close>

lemma first_free_spec:
  "suffix \<le> first_free name existing suffix \<and>
   candidate name (first_free name existing suffix) \<notin> set existing \<and>
   {candidate name k | k. suffix \<le> k \<and> k < first_free name existing suffix} \<subseteq> set existing"
proof (induction name existing suffix rule: first_free.induct)
  case (1 name existing suffix)
  show ?case
  proof (cases "candidate name suffix \<in> set existing")
    case True
    note IH = 1 [OF True]
    have step: "first_free name existing suffix = first_free name existing (suffix + 1)"
      using True by (subst first_free.simps) simp
    have "candidate name k \<in> set existing" if "suffix \<le> k" "k < first_free name existing (suffix + 1)" for k
      using IH that True by (cases "k = suffix") auto
    then show ?thesis unfolding step using IH by auto
  next
    case False
    then have "first_free name existing suffix = suffix" by (subst first_free.simps) simp
    then show ?thesis using False by auto
  qed
qed

lemma first_free_bound: "first_free name existing suffix \<le> suffix + length existing"
proof -
  let ?n = "first_free name existing suffix"
  have sub: "candidate name ` {suffix..<?n} \<subseteq> set existing" using first_free_spec [of suffix name existing] by auto
  have "card {suffix..<?n} = card (candidate name ` {suffix..<?n})" by (rule card_image [symmetric]) (auto simp: inj_on_def)
  also have "\<dots> \<le> card (set existing)" by (rule card_mono [OF _ sub]) simp
  also have "\<dots> \<le> length existing" by (rule card_length)
  finally show ?thesis by simp
qed

definition name_char :: "char \<Rightarrow> bool" where
  "name_char c \<longleftrightarrow> is_ascii_lowercase c \<or> is_ascii_digit c \<or> c = CHR ''-'' \<or> c = CHR ''_''"

lemma sanitize_name_char: "name_char (sanitize_char c)"
  by (auto simp: sanitize_char_def name_char_def split: list.splits)

lemma dropWhile_hd: "dropWhile P s \<noteq> [] \<Longrightarrow> \<not> P (hd (dropWhile P s))"
  by (induction s) auto

lemma trim_dashes_ends:
  "set (trim_dashes s) \<subseteq> set s"
  "trim_dashes s \<noteq> [] \<Longrightarrow> hd (trim_dashes s) \<noteq> CHR ''-'' \<and> last (trim_dashes s) \<noteq> CHR ''-''"
proof -
  let ?d = "dropWhile (\<lambda>c. c = CHR ''-'')"
  show "set (trim_dashes s) \<subseteq> set s" by (auto simp: trim_dashes_def dest!: set_dropWhileD)
  assume nonempty: "trim_dashes s \<noteq> []"
  then have "last (trim_dashes s) \<noteq> CHR ''-''"
    using dropWhile_hd [of "\<lambda>c. c = CHR ''-''" "rev (?d s)"] by (simp add: trim_dashes_def last_rev)
  moreover have "hd (trim_dashes s) = hd (?d s)"
  proof -
    obtain p where "rev (?d s) = p @ ?d (rev (?d s))" by (metis takeWhile_dropWhile_id)
    then have "?d s = trim_dashes s @ rev p" by (metis rev_append rev_rev_ident trim_dashes_def)
    then show ?thesis using nonempty by (metis hd_append2)
  qed
  moreover have "?d s \<noteq> []"
  proof
    assume "?d s = []"
    then show False using nonempty by (simp only: trim_dashes_def rev.simps dropWhile.simps)
  qed
  ultimately show "hd (trim_dashes s) \<noteq> CHR ''-'' \<and> last (trim_dashes s) \<noteq> CHR ''-''"
    using dropWhile_hd [of "\<lambda>c. c = CHR ''-''" s] by simp
qed

text \<open>
  (C30) The default name of a machine always exists and is free: the search for a suffix ends, after
  at most one step more than there are names, so its 64-bit counter never overflows; the name is
  the sanitized host name when that is free, and otherwise the host name with the least positive
  number that makes it free. The sanitized host name has only lower-case letters, digits, dashes
  and underscores, and no dash at either end.
\<close>

theorem default_machine_name_is_free:
  assumes "base = machine_name_from_hostname hostname" "base \<noteq> []"
  shows "\<exists>name. default_machine_name fill hostname existing = Some (Ok name) \<and> name \<notin> set existing \<and>
      (if base \<notin> set existing then name = base
       else \<exists>k. name = candidate base k \<and> 1 \<le> k \<and> k \<le> length existing + 1 \<and>
         {candidate base j | j. 1 \<le> j \<and> j < k} \<subseteq> set existing) \<and>
      list_all name_char base \<and> hd base \<noteq> CHR ''-'' \<and> last base \<noteq> CHR ''-''"
proof -
  have "set base \<subseteq> set (map sanitize_char (utf8_chars (trim (case split_once CHR ''.'' hostname of Some (label, _) \<Rightarrow> label | None \<Rightarrow> hostname))))"
    unfolding assms(1) machine_name_from_hostname_def Let_def by (rule trim_dashes_ends(1))
  then have "list_all name_char base" using sanitize_name_char by (auto simp: list_all_iff)
  moreover have "hd base \<noteq> CHR ''-'' \<and> last base \<noteq> CHR ''-''"
    using trim_dashes_ends(2) assms(2) unfolding assms(1) machine_name_from_hostname_def Let_def by simp
  moreover have "default_machine_name fill hostname existing =
      Some (Ok (if base \<notin> set existing then base else candidate base (first_free base existing 1)))"
    using assms by (simp add: default_machine_name_def Let_def)
  ultimately show ?thesis
    using first_free_spec [of 1 base existing] first_free_bound [of base existing 1] by auto
qed

theorem default_machine_name_is_free_witness:
  "\<exists>name. default_machine_name (\<lambda>_. Err []) ''Web.example'' [''web'', ''web-1''] = Some (Ok name) \<and>
    name \<notin> {''web'', ''web-1''}"
proof -
  have "trim ''Web'' = ''Web''" by code_simp
  moreover have "utf8_chars ''Web'' = [''W'', ''e'', ''b'']" by (simp add: utf8_chars_ascii)
  moreover have "map sanitize_char [''W'', ''e'', ''b''] = ''web''" by code_simp
  moreover have "trim_dashes ''web'' = ''web''" by (simp add: trim_dashes_def)
  ultimately have "machine_name_from_hostname ''Web.example'' = ''web''"
    by (simp only: machine_name_from_hostname_def Let_def) simp
  then have base: "''web'' = machine_name_from_hostname ''Web.example''" by simp
  obtain name where "default_machine_name (\<lambda>_. Err []) ''Web.example'' [''web'', ''web-1''] = Some (Ok name) \<and>
      name \<notin> set [''web'', ''web-1'']"
    using default_machine_name_is_free [OF base, of "\<lambda>_. Err []" "[''web'', ''web-1'']"] by blast
  then show ?thesis by (intro exI [of _ name]) simp
qed

end
