(* ===== verification/Utf8_Char.thy ===== *)
theory Utf8_Char
  imports Utf8
begin

text \<open>
  Single characters of UTF-8: the decoder consumes exactly the bytes of a character whatever
  follows, the characters of a valid text are valid, and a character is the encoding of its code
  point.
\<close>

section \<open>Characters\<close>

definition utf8_char :: "string \<Rightarrow> bool" where
  "utf8_char c \<longleftrightarrow> c \<noteq> [] \<and> utf8_step c = (length c, True)"

lemma cont_at: "is_cont (byte_at s i) \<Longrightarrow> i < length s"
  by (auto simp: byte_at_def is_cont_def in_range_def split: if_splits)

definition second_of_3 :: "nat \<Rightarrow> nat \<Rightarrow> bool" where
  "second_of_3 b b1 = (if b = 224 then in_range 160 191 b1 else if b = 237 then in_range 128 159 b1 else is_cont b1)"

definition second_of_4 :: "nat \<Rightarrow> nat \<Rightarrow> bool" where
  "second_of_4 b b1 = (if b = 240 then in_range 144 191 b1 else if b = 244 then in_range 128 143 b1 else is_cont b1)"

lemma utf8_step_alt:
  "utf8_step s =
     (if byte_at s 0 < 128 then (1, True)
      else if in_range 194 223 (byte_at s 0) then (if is_cont (byte_at s 1) then (2, True) else (1, False))
      else if in_range 224 239 (byte_at s 0) then
        (if second_of_3 (byte_at s 0) (byte_at s 1)
         then (if is_cont (byte_at s 2) then (3, True) else (2, False)) else (1, False))
      else if in_range 240 244 (byte_at s 0) then
        (if second_of_4 (byte_at s 0) (byte_at s 1)
         then (if is_cont (byte_at s 2) then (if is_cont (byte_at s 3) then (4, True) else (3, False)) else (2, False))
         else (1, False))
      else (1, False))"
  unfolding utf8_step_def Let_def second_of_3_def second_of_4_def by (rule refl)

lemma utf8_step_True:
  "snd (utf8_step s) \<Longrightarrow> byte_at s 0 < 128 \<and> fst (utf8_step s) = 1 \<or>
     128 \<le> byte_at s 0 \<and>
     (fst (utf8_step s) = 2 \<and> is_cont (byte_at s 1) \<or>
      fst (utf8_step s) = 3 \<and> is_cont (byte_at s 2) \<or>
      fst (utf8_step s) = 4 \<and> is_cont (byte_at s 3))"
  by (simp add: utf8_step_alt split: if_splits)

lemma utf8_step_bound:
  assumes "snd (utf8_step s)" "s \<noteq> []"
  shows "fst (utf8_step s) \<le> length s"
proof -
  have "0 < length s" using assms(2) by simp
  with utf8_step_True [OF assms(1)] cont_at [of s 1] cont_at [of s 2] cont_at [of s 3] show ?thesis by linarith
qed

lemma byte_at_append: "i < length s \<Longrightarrow> byte_at (s @ r) i = byte_at s i"
  by (simp add: byte_at_def nth_append)

lemma byte_at_take: "i < n \<Longrightarrow> byte_at (take n s) i = byte_at s i"
  by (simp add: byte_at_def)

lemma utf8_step_cong:
  assumes "\<And>i. i < fst (utf8_step s) \<Longrightarrow> byte_at t i = byte_at s i" "snd (utf8_step s)"
  shows "utf8_step t = utf8_step s"
proof -
  have bytes: "byte_at t 0 = byte_at s 0" "1 < fst (utf8_step s) \<Longrightarrow> byte_at t 1 = byte_at s 1"
    "2 < fst (utf8_step s) \<Longrightarrow> byte_at t 2 = byte_at s 2" "3 < fst (utf8_step s) \<Longrightarrow> byte_at t 3 = byte_at s 3"
    using assms(1) utf8_step_pos [of s] by auto
  from utf8_step_True [OF assms(2)] consider
      "byte_at s 0 < 128" | "fst (utf8_step s) = 2" | "fst (utf8_step s) = 3" | "fst (utf8_step s) = 4"
    by blast
  then show ?thesis
    using bytes assms(2) by cases (simp_all add: utf8_step_alt split: if_splits)
qed

lemma utf8_step_append: "utf8_char c \<Longrightarrow> utf8_step (c @ r) = (length c, True)"
  using utf8_step_cong [of c "c @ r"] by (simp add: utf8_char_def byte_at_append)

lemma utf8_char_take:
  assumes "snd (utf8_step s)" "s \<noteq> []"
  shows "utf8_char (take (fst (utf8_step s)) s)"
proof -
  have "utf8_step (take (fst (utf8_step s)) s) = utf8_step s"
    using assms by (intro utf8_step_cong) (simp_all add: byte_at_take)
  then show ?thesis
    using assms utf8_step_pos [of s] utf8_step_bound [of s]
    by (cases "utf8_step s") (auto simp: utf8_char_def min_def)
qed

lemma utf8_chars_valid: "is_utf8 s \<Longrightarrow> list_all utf8_char (utf8_chars s)"
proof (induction s rule: utf8_chars.induct)
  case (2 c s)
  then show ?case using utf8_char_take [of "c # s"]
    by (simp add: utf8_chars.simps(2) [of c s] is_utf8.simps(2) [of c s] Let_def split: prod.splits)
qed simp

lemma byte_of_less [simp]: "byte_of c < 256"
  using range_nat_of_char by (metis atLeastLessThan_iff rangeI)

text \<open>A character is an ASCII byte, or has no ASCII byte at all.\<close>

lemma utf8_char_cases:
  assumes "utf8_char c"
  obtains (ascii) b where "c = [b]" "byte_of b < 128"
  | (wide) "2 \<le> length c" "128 \<le> byte_of (hd c)"
proof (cases "byte_at c 0 < 128")
  case True
  then have "length c = 1" using assms by (auto simp: utf8_char_def utf8_step_def Let_def)
  then obtain b where "c = [b]" by (cases c) auto
  then show ?thesis using True ascii by (simp add: byte_at_def)
next
  case False
  then show ?thesis using assms wide
    by (cases c) (auto simp: utf8_char_def utf8_step_def byte_at_def Let_def split: if_splits)
qed

lemma length_utf8_chars: "length (utf8_chars s) \<le> length s"
proof (induction s rule: utf8_chars.induct)
  case (2 c s)
  then show ?case using utf8_step_pos [of "c # s"] by (simp add: utf8_chars.simps(2) [of c s] Let_def)
qed simp

section \<open>Code points\<close>

definition utf8_encode :: "nat \<Rightarrow> string" where
  "utf8_encode n =
     (if n < 0x80 then [char_of n]
      else if n < 0x800 then [char_of (192 + n div 64), char_of (128 + n mod 64)]
      else if n < 0x10000 then
        [char_of (224 + n div 4096), char_of (128 + n div 64 mod 64), char_of (128 + n mod 64)]
      else
        [char_of (240 + n div 262144), char_of (128 + n div 4096 mod 64), char_of (128 + n div 64 mod 64),
         char_of (128 + n mod 64)])"

lemma byte_at_nth: "i < length s \<Longrightarrow> char_of (byte_at s i) = s ! i"
  by (simp add: byte_at_def)

lemma utf8_char_shape:
  assumes "utf8_char c"
  obtains (one) "length c = 1" "byte_at c 0 < 128"
  | (two) "length c = 2" "in_range 194 223 (byte_at c 0)" "is_cont (byte_at c 1)"
  | (three) "length c = 3" "in_range 224 239 (byte_at c 0)" "second_of_3 (byte_at c 0) (byte_at c 1)" "is_cont (byte_at c 2)"
  | (four) "length c = 4" "in_range 240 244 (byte_at c 0)" "second_of_4 (byte_at c 0) (byte_at c 1)"
      "is_cont (byte_at c 2)" "is_cont (byte_at c 3)"
  using assms unfolding utf8_char_def utf8_step_alt by (auto split: if_splits)

lemma second_of_bounds:
  "second_of_3 b b1 \<Longrightarrow> 128 \<le> b1 \<and> b1 \<le> 191" "second_of_3 224 b1 \<Longrightarrow> 160 \<le> b1"
  "second_of_4 b b1 \<Longrightarrow> 128 \<le> b1 \<and> b1 \<le> 191" "second_of_4 240 b1 \<Longrightarrow> 144 \<le> b1"
  "second_of_4 244 b1 \<Longrightarrow> b1 \<le> 143"
  by (auto simp: second_of_3_def second_of_4_def is_cont_def in_range_def split: if_splits)

lemma list_of_length:
  "length c = 2 \<Longrightarrow> c = [c ! 0, c ! 1]" "length c = 3 \<Longrightarrow> c = [c ! 0, c ! 1, c ! 2]"
  "length c = 4 \<Longrightarrow> c = [c ! 0, c ! 1, c ! 2, c ! 3]"
  by (auto simp: list_eq_iff_nth_eq less_Suc_eq numeral_2_eq_2 numeral_3_eq_3 numeral_eq_Suc)

lemma div_mod_64: "(b :: nat) < 64 \<Longrightarrow> (64 * a + b) div 64 = a" "(b :: nat) < 64 \<Longrightarrow> (64 * a + b) mod 64 = b"
  by simp_all

lemma utf8_encode_two:
  assumes two: "length c = 2" "in_range 194 223 (byte_at c 0)" "is_cont (byte_at c 1)"
  shows "utf8_encode (code_point c) = c \<and> code_point c < 0x110000"
proof -
  define x y where "x = byte_at c 0 - 192" and "y = byte_at c 1 - 128"
  have b: "byte_at c 0 = 192 + x" "byte_at c 1 = 128 + y" "2 \<le> x" "x < 32" "y < 64"
    using two by (auto simp: x_def y_def in_range_def is_cont_def)
  define n where "n = code_point c"
  have n: "n = 64 * x + y" using two(1) by (simp add: n_def code_point_def x_def y_def)
  have "n div 64 = x" "n mod 64 = y" unfolding n using b(5) by (rule div_mod_64)+
  then have "utf8_encode n = [char_of (byte_at c 0), char_of (byte_at c 1)] \<and> n < 0x110000"
    using b n by (simp add: utf8_encode_def)
  then show ?thesis using list_of_length(1) [OF two(1)] two(1) unfolding n_def by (simp add: byte_at_nth)
qed

lemma utf8_encode_three:
  assumes three: "length c = 3" "in_range 224 239 (byte_at c 0)" "second_of_3 (byte_at c 0) (byte_at c 1)" "is_cont (byte_at c 2)"
  shows "utf8_encode (code_point c) = c \<and> code_point c < 0x110000"
proof -
  define x y z where "x = byte_at c 0 - 224" and "y = byte_at c 1 - 128" and "z = byte_at c 2 - 128"
  have b: "byte_at c 0 = 224 + x" "byte_at c 1 = 128 + y" "byte_at c 2 = 128 + z" "x < 16" "y < 64" "z < 64"
    using three second_of_bounds(1) [OF three(3)] by (auto simp: x_def y_def z_def in_range_def is_cont_def)
  have low: "32 \<le> y" if "x = 0" using second_of_bounds(2) [of "byte_at c 1"] three(3) b that by simp
  define n where "n = code_point c"
  have n: "n = 64 * (64 * x + y) + z" using three(1) by (simp add: n_def code_point_def x_def y_def z_def algebra_simps)
  have "n div 64 = 64 * x + y" "n mod 64 = z" unfolding n using b(6) by (rule div_mod_64)+
  moreover have "n div 4096 = n div 64 div 64" by (simp add: div_mult2_eq [symmetric])
  ultimately have parts: "n div 4096 = x" "n div 64 mod 64 = y" "n mod 64 = z" using b(5) by simp_all
  have "\<not> n < 0x800" "n < 0x10000" using n b(4-6) low by (cases "x = 0"; simp)+
  then have "utf8_encode n = [char_of (byte_at c 0), char_of (byte_at c 1), char_of (byte_at c 2)] \<and> n < 0x110000"
    using parts b(1-3) by (simp add: utf8_encode_def)
  then show ?thesis using list_of_length(2) [OF three(1)] three(1) unfolding n_def by (simp add: byte_at_nth)
qed

lemma utf8_encode_four:
  assumes four: "length c = 4" "in_range 240 244 (byte_at c 0)" "second_of_4 (byte_at c 0) (byte_at c 1)"
    "is_cont (byte_at c 2)" "is_cont (byte_at c 3)"
  shows "utf8_encode (code_point c) = c \<and> code_point c < 0x110000"
proof -
  define x y z w where "x = byte_at c 0 - 240" and "y = byte_at c 1 - 128" and "z = byte_at c 2 - 128"
    and "w = byte_at c 3 - 128"
  have b: "byte_at c 0 = 240 + x" "byte_at c 1 = 128 + y" "byte_at c 2 = 128 + z" "byte_at c 3 = 128 + w"
      "x < 5" "y < 64" "z < 64" "w < 64"
    using four second_of_bounds(3) [OF four(3)] by (auto simp: x_def y_def z_def w_def in_range_def is_cont_def)
  have low: "16 \<le> y" if "x = 0" using second_of_bounds(4) [of "byte_at c 1"] four(3) b that by simp
  have high: "y < 16" if "x = 4" using second_of_bounds(5) [of "byte_at c 1"] four(3) b that by simp
  define n where "n = code_point c"
  have n: "n = 64 * (64 * (64 * x + y) + z) + w"
    using four(1) by (simp add: n_def code_point_def x_def y_def z_def w_def algebra_simps)
  have "n div 64 = 64 * (64 * x + y) + z" "n mod 64 = w" unfolding n using b(8) by (rule div_mod_64)+
  moreover have "n div 4096 = n div 64 div 64" "n div 262144 = n div 64 div 64 div 64" by (simp_all add: div_mult2_eq [symmetric])
  ultimately have parts: "n div 262144 = x" "n div 4096 mod 64 = y" "n div 64 mod 64 = z" "n mod 64 = w"
    by (simp_all only: div_mod_64 [OF b(6)] div_mod_64 [OF b(7)])
  have "\<not> n < 0x10000" using n low by (cases "x = 0") simp_all
  moreover have "n < 0x110000" using n b(5-8) high by (cases "x = 4") simp_all
  ultimately have "utf8_encode n = [char_of (byte_at c 0), char_of (byte_at c 1), char_of (byte_at c 2), char_of (byte_at c 3)]
      \<and> n < 0x110000"
    using parts b(1-4) by (simp add: utf8_encode_def)
  then show ?thesis using list_of_length(3) [OF four(1)] four(1) unfolding n_def by (simp add: byte_at_nth)
qed

lemma utf8_encode_code_point:
  assumes "utf8_char c"
  shows "utf8_encode (code_point c) = c \<and> code_point c < 0x110000"
  using assms
proof (cases rule: utf8_char_shape)
  case one
  then obtain b where "c = [b]" by (cases c) auto
  with one show ?thesis by (simp add: code_point_def utf8_encode_def byte_at_def)
qed (simp_all add: utf8_encode_two utf8_encode_three utf8_encode_four)

end
