(* ===== verification/Go_Text.thy ===== *)
theory Go_Text
  imports Go_Printable Utf8_Char Ip_Text
begin

text \<open>
  Texts written the way Go writes them: quoted names in messages (\<open>go_quote\<close> of the cluster
  service), strings of JSON (\<open>push_go_json_string\<close> of its \<open>dns.rs\<close>), and the escaping of JSON
  that is already encoded (\<open>go_escape_json\<close> of the store). The readers of both notations are
  specifications: they say what the written text denotes.
\<close>

section \<open>Writers\<close>

abbreviation backslash :: char where
  "backslash \<equiv> CHR 0x5C"

abbreviation quote :: char where
  "quote \<equiv> CHR 0x22"

definition hex_pad :: "nat \<Rightarrow> nat \<Rightarrow> string" where
  "hex_pad w n = replicate (w - length (print_radix 16 n)) (CHR ''0'') @ print_radix 16 n"

definition line_separator :: string where
  "line_separator = [CHR 0xE2, CHR 0x80, CHR 0xA8]"

definition paragraph_separator :: string where
  "paragraph_separator = [CHR 0xE2, CHR 0x80, CHR 0xA9]"

definition go_quote_char :: "string \<Rightarrow> string" where
  "go_quote_char character =
     (let codepoint = code_point character in
      if character = [CHR 0x07] then [backslash, CHR ''a'']
      else if character = [CHR 0x08] then [backslash, CHR ''b'']
      else if character = [CHR 0x09] then [backslash, CHR ''t'']
      else if character = [CHR 0x0A] then [backslash, CHR ''n'']
      else if character = [CHR 0x0B] then [backslash, CHR ''v'']
      else if character = [CHR 0x0C] then [backslash, CHR ''f'']
      else if character = [CHR 0x0D] then [backslash, CHR ''r'']
      else if character = [quote] then [backslash, quote]
      else if character = [backslash] then [backslash, backslash]
      else if codepoint < 32 \<or> codepoint = 127 then [backslash, CHR ''x''] @ hex_pad 2 codepoint
      else if character = line_separator then [backslash] @ ''u2028''
      else if character = paragraph_separator then [backslash] @ ''u2029''
      else if \<not> is_print character then
        (if codepoint \<le> 0xffff then [backslash, CHR ''u''] @ hex_pad 4 codepoint
         else [backslash, CHR ''U''] @ hex_pad 8 codepoint)
      else character)"

definition go_quote :: "string \<Rightarrow> string" where
  "go_quote value = [quote] @ concat (map go_quote_char (utf8_chars value)) @ [quote]"

definition go_json_char :: "string \<Rightarrow> string" where
  "go_json_char character =
     (if character = [quote] then [backslash, quote]
      else if character = [backslash] then [backslash, backslash]
      else if character = [CHR 0x08] then [backslash, CHR ''b'']
      else if character = [CHR 0x0C] then [backslash, CHR ''f'']
      else if character = [CHR 0x0A] then [backslash, CHR ''n'']
      else if character = [CHR 0x0D] then [backslash, CHR ''r'']
      else if character = [CHR 0x09] then [backslash, CHR ''t'']
      else if character = ''<'' then [backslash] @ ''u003c''
      else if character = ''>'' then [backslash] @ ''u003e''
      else if character = ''&'' then [backslash] @ ''u0026''
      else if character = line_separator then [backslash] @ ''u2028''
      else if character = paragraph_separator then [backslash] @ ''u2029''
      else if code_point character \<le> 0x1f then [backslash, CHR ''u''] @ hex_pad 4 (code_point character)
      else character)"

definition push_go_json_string :: "string \<Rightarrow> string \<Rightarrow> string" where
  "push_go_json_string encoded value = encoded @ [quote] @ concat (map go_json_char (utf8_chars value)) @ [quote]"

text \<open>The store's version works on the bytes of encoded JSON.\<close>

fun go_escape_json :: "string \<Rightarrow> string" where
  "go_escape_json [] = []"
| "go_escape_json (c # s) =
     (if c = CHR ''<'' then [backslash] @ ''u003c'' @ go_escape_json s
      else if c = CHR ''>'' then [backslash] @ ''u003e'' @ go_escape_json s
      else if c = CHR ''&'' then [backslash] @ ''u0026'' @ go_escape_json s
      else if take 3 (c # s) = line_separator then [backslash] @ ''u2028'' @ go_escape_json (drop 2 s)
      else if take 3 (c # s) = paragraph_separator then [backslash] @ ''u2029'' @ go_escape_json (drop 2 s)
      else c # go_escape_json s)"

section \<open>Readers\<close>

text \<open>
  A quoted text is read character by character up to the closing quote. \<open>step\<close> reads one character,
  escaped or not, and the number bounds the characters.
\<close>

fun read_quoted :: "(string \<Rightarrow> (string \<times> string) option) \<Rightarrow> nat \<Rightarrow> string \<Rightarrow> (string \<times> string) option" where
  "read_quoted step 0 s = None"
| "read_quoted step (Suc n) s =
     (if s \<noteq> [] \<and> hd s = quote then Some ([], tl s)
      else (case step s of
              None \<Rightarrow> None
            | Some (c, rest) \<Rightarrow> map_option (\<lambda>(v, rest). (c @ v, rest)) (read_quoted step n rest)))"

definition read_hex :: "nat \<Rightarrow> string \<Rightarrow> (string \<times> string) option" where
  "read_hex w s =
     (if w \<le> length s \<and> list_all (is_digit 16) (take w s)
      then Some (utf8_encode (radix_val 16 (take w s)), drop w s) else None)"

definition read_plain :: "string \<Rightarrow> (string \<times> string) option" where
  "read_plain s = (if byte_at s 0 < 32 then None else Some (take (fst (utf8_step s)) s, drop (fst (utf8_step s)) s))"

text \<open>JSON strings (RFC 8259, without pairs of surrogates, which no writer here produces).\<close>

definition json_step :: "string \<Rightarrow> (string \<times> string) option" where
  "json_step s =
     (case s of
        [] \<Rightarrow> None
      | c # s' \<Rightarrow>
          if c \<noteq> backslash then read_plain s
          else (case s' of
                  [] \<Rightarrow> None
                | e # rest \<Rightarrow>
                    if e = quote \<or> e = backslash \<or> e = CHR ''/'' then Some ([e], rest)
                    else if e = CHR ''b'' then Some ([CHR 0x08], rest)
                    else if e = CHR ''f'' then Some ([CHR 0x0C], rest)
                    else if e = CHR ''n'' then Some ([CHR 0x0A], rest)
                    else if e = CHR ''r'' then Some ([CHR 0x0D], rest)
                    else if e = CHR ''t'' then Some ([CHR 0x09], rest)
                    else if e = CHR ''u'' then read_hex 4 rest
                    else None))"

text \<open>Interpreted string literals of Go.\<close>

definition go_step :: "string \<Rightarrow> (string \<times> string) option" where
  "go_step s =
     (case s of
        [] \<Rightarrow> None
      | c # s' \<Rightarrow>
          if c \<noteq> backslash then read_plain s
          else (case s' of
                  [] \<Rightarrow> None
                | e # rest \<Rightarrow>
                    if e = quote \<or> e = backslash then Some ([e], rest)
                    else if e = CHR ''a'' then Some ([CHR 0x07], rest)
                    else if e = CHR ''b'' then Some ([CHR 0x08], rest)
                    else if e = CHR ''t'' then Some ([CHR 0x09], rest)
                    else if e = CHR ''n'' then Some ([CHR 0x0A], rest)
                    else if e = CHR ''v'' then Some ([CHR 0x0B], rest)
                    else if e = CHR ''f'' then Some ([CHR 0x0C], rest)
                    else if e = CHR ''r'' then Some ([CHR 0x0D], rest)
                    else if e = CHR ''x'' then read_hex 2 rest
                    else if e = CHR ''u'' then read_hex 4 rest
                    else if e = CHR ''U'' then read_hex 8 rest
                    else None))"

text \<open>What a notation promises: one character is written, and read back without its neighbours.\<close>

locale notation_of =
  fixes esc :: "string \<Rightarrow> string" and step :: "string \<Rightarrow> (string \<times> string) option"
  assumes step_esc: "utf8_char c \<Longrightarrow> step (esc c @ rest) = Some (c, rest)"
    and esc_open: "utf8_char c \<Longrightarrow> esc c \<noteq> [] \<and> hd (esc c) \<noteq> quote"
begin

lemma read_escaped:
  "list_all utf8_char cs \<Longrightarrow> length cs < n \<Longrightarrow>
   read_quoted step n (concat (map esc cs) @ quote # rest) = Some (concat cs, rest)"
proof (induction cs arbitrary: n)
  case Nil
  then show ?case by (cases n) simp_all
next
  case (Cons c cs)
  then obtain m where n: "n = Suc m" "length cs < m" by (cases n) auto
  have c: "utf8_char c" using Cons.prems by simp
  let ?s = "esc c @ concat (map esc cs) @ quote # rest"
  have "?s \<noteq> []" "hd ?s \<noteq> quote" using esc_open [OF c] by auto
  then have "read_quoted step n ?s = map_option (\<lambda>(v, rest). (c @ v, rest))
      (read_quoted step m (concat (map esc cs) @ quote # rest))"
    using step_esc [OF c] by (simp add: n)
  then show ?case using Cons n by simp
qed

lemma read_text:
  assumes "is_utf8 s" "length s < n"
  shows "read_quoted step n (concat (map esc (utf8_chars s)) @ quote # rest) = Some (s, rest)"
  using read_escaped [OF utf8_chars_valid [OF assms(1)]] length_utf8_chars [of s] assms(2) by simp

lemma written_injective:
  assumes "is_utf8 s" "is_utf8 t"
    and "concat (map esc (utf8_chars s)) @ quote # rest = concat (map esc (utf8_chars t)) @ quote # rest'"
  shows "s = t \<and> rest = rest'"
proof -
  let ?n = "Suc (length s + length t)"
  have "Some (s, rest) = Some (t, rest')"
    using read_text [OF assms(1), of ?n rest] read_text [OF assms(2), of ?n rest'] assms(3) by simp
  then show ?thesis by simp
qed

end

section \<open>Both notations keep the promise\<close>

lemma radix_val_zeros: "radix_val 16 (replicate k (CHR ''0'') @ s) = radix_val 16 s"
proof -
  have "the (to_digit 16 CHR ''0'') = 0" by (simp add: to_digit_def)
  then show ?thesis by (induction k) (simp_all add: radix_val_def)
qed

lemma hex_pad_facts:
  assumes "n < 16 ^ w" "0 < w"
  shows "length (hex_pad w n) = w" "list_all (is_digit 16) (hex_pad w n)" "radix_val 16 (hex_pad w n) = n"
proof -
  show "length (hex_pad w n) = w" using length_print_radix [of 16 n w] assms by (simp add: hex_pad_def)
  have "is_digit 16 CHR ''0''" by (simp add: is_digit_def to_digit_def)
  then show "list_all (is_digit 16) (hex_pad w n)"
    using print_radix_digits [of 16 n] by (auto simp: hex_pad_def list_all_iff)
  show "radix_val 16 (hex_pad w n) = n" by (simp add: hex_pad_def radix_val_zeros)
qed

lemma read_hex_pad:
  assumes "utf8_char c" "code_point c < 16 ^ w" "0 < w"
  shows "read_hex w (hex_pad w (code_point c) @ rest) = Some (c, rest)"
  using hex_pad_facts [OF assms(2,3)] utf8_encode_code_point [OF assms(1)] by (simp add: read_hex_def)

lemma read_plain_char:
  assumes "utf8_char c" "32 \<le> code_point c"
  shows "read_plain (c @ rest) = Some (c, rest)"
proof -
  have "32 \<le> byte_at (c @ rest) 0"
    using assms(1)
  proof (cases rule: utf8_char_cases)
    case (ascii b)
    then show ?thesis using assms(2) by (simp add: code_point_def byte_at_def)
  next
    case wide
    then show ?thesis by (cases c) (auto simp: byte_at_def)
  qed
  then show ?thesis using utf8_step_append [OF assms(1)] by (simp add: read_plain_def)
qed

lemma plain_head:
  assumes "utf8_char c" "c \<noteq> [b]" "byte_of b < 128"
  shows "hd c \<noteq> b \<and> c \<noteq> []"
  using assms(1) by (cases rule: utf8_char_cases) (use assms in auto)

lemma ascii_code_point: "code_point [b] = byte_of b"
  by (simp add: code_point_def byte_at_def)

text \<open>The escapes that the code writes out are those of the code points of their characters.\<close>

lemma written_escapes:
  "''003c'' = hex_pad 4 (code_point ''<'')" "''003e'' = hex_pad 4 (code_point ''>'')" "''0026'' = hex_pad 4 (code_point ''&'')"
  "''2028'' = hex_pad 4 (code_point line_separator)" "''2029'' = hex_pad 4 (code_point paragraph_separator)"
  by (simp_all add: hex_pad_def print_radix.simps from_digit_def code_point_def byte_at_def
      line_separator_def paragraph_separator_def) code_simp+

definition escaped_by_code :: "string \<Rightarrow> bool" where
  "escaped_by_code c \<longleftrightarrow> c \<in> {''<'', ''>'', ''&'', line_separator, paragraph_separator}"

lemma small_code_points: "escaped_by_code c \<or> code_point c < 128 \<Longrightarrow> code_point c < 16 ^ 4"
  by (auto simp: escaped_by_code_def code_point_def byte_at_def line_separator_def paragraph_separator_def)

lemma json_step_plain:
  assumes "utf8_char c" "c \<noteq> [backslash]" "32 \<le> code_point c"
  shows "json_step (c @ rest) = Some (c, rest)" "go_step (c @ rest) = Some (c, rest)"
  using plain_head [OF assms(1,2)] read_plain_char [OF assms(1,3), of rest]
  by (cases c; simp add: json_step_def go_step_def)+

lemma json_step_code:
  assumes "utf8_char c" "code_point c < 16 ^ 4"
  shows "json_step (backslash # CHR ''u'' # hex_pad 4 (code_point c) @ rest) = Some (c, rest)"
  using read_hex_pad [OF assms] by (simp add: json_step_def)

lemma go_json_char_cases:
  "go_json_char c =
     (if escaped_by_code c then backslash # CHR ''u'' # hex_pad 4 (code_point c) else go_json_char c)"
  by (auto simp: escaped_by_code_def go_json_char_def written_escapes line_separator_def paragraph_separator_def)

lemma json_step_go_json_char:
  assumes c: "utf8_char c"
  shows "json_step (go_json_char c @ rest) = Some (c, rest)"
proof (cases "escaped_by_code c")
  case True
  then show ?thesis
    using json_step_code [OF c] small_code_points [of c] by (subst go_json_char_cases) simp
next
  case False
  consider "c \<in> {[quote], [backslash], [CHR 0x08], [CHR 0x0C], [CHR 0x0A], [CHR 0x0D], [CHR 0x09]}"
    | "c \<notin> {[quote], [backslash], [CHR 0x08], [CHR 0x0C], [CHR 0x0A], [CHR 0x0D], [CHR 0x09]}" "code_point c \<le> 0x1f"
    | "c \<notin> {[quote], [backslash], [CHR 0x08], [CHR 0x0C], [CHR 0x0A], [CHR 0x0D], [CHR 0x09]}" "\<not> code_point c \<le> 0x1f"
    by blast
  then show ?thesis
  proof cases
    case 1
    then show ?thesis by (auto simp: go_json_char_def json_step_def line_separator_def paragraph_separator_def)
  next
    case 2
    then have "go_json_char c = backslash # CHR ''u'' # hex_pad 4 (code_point c)"
      using False by (simp add: go_json_char_def escaped_by_code_def)
    then show ?thesis using json_step_code [OF c] small_code_points [of c] 2 by simp
  next
    case 3
    then have "go_json_char c = c" using False by (simp add: go_json_char_def escaped_by_code_def)
    then show ?thesis using json_step_plain(1) [OF c] 3 by simp
  qed
qed

interpretation json_text: notation_of go_json_char json_step
proof
  fix c rest :: string
  assume c: "utf8_char c"
  then show "json_step (go_json_char c @ rest) = Some (c, rest)" by (rule json_step_go_json_char)
  show "go_json_char c \<noteq> [] \<and> hd (go_json_char c) \<noteq> quote"
    using plain_head [OF c, of quote] by (auto simp: go_json_char_def)
qed

lemma go_step_code:
  assumes "utf8_char c"
  shows "code_point c < 16 ^ 2 \<Longrightarrow> go_step (backslash # CHR ''x'' # hex_pad 2 (code_point c) @ rest) = Some (c, rest)"
    "code_point c < 16 ^ 4 \<Longrightarrow> go_step (backslash # CHR ''u'' # hex_pad 4 (code_point c) @ rest) = Some (c, rest)"
    "code_point c < 16 ^ 8 \<Longrightarrow> go_step (backslash # CHR ''U'' # hex_pad 8 (code_point c) @ rest) = Some (c, rest)"
  using read_hex_pad [OF assms, of 2] read_hex_pad [OF assms, of 4] read_hex_pad [OF assms, of 8]
  by (simp_all add: go_step_def)

definition go_named_escape :: "string \<Rightarrow> bool" where
  "go_named_escape c \<longleftrightarrow>
     c \<in> {[CHR 0x07], [CHR 0x08], [CHR 0x09], [CHR 0x0A], [CHR 0x0B], [CHR 0x0C], [CHR 0x0D], [quote], [backslash]}"

lemma go_quote_char_code:
  assumes "\<not> go_named_escape c"
  shows "go_quote_char c =
     (if code_point c < 32 \<or> code_point c = 127 then backslash # CHR ''x'' # hex_pad 2 (code_point c)
      else if c \<in> {line_separator, paragraph_separator} \<or> \<not> is_print c \<and> code_point c \<le> 0xffff
        then backslash # CHR ''u'' # hex_pad 4 (code_point c)
      else if \<not> is_print c then backslash # CHR ''U'' # hex_pad 8 (code_point c)
      else c)"
  using assms unfolding go_quote_char_def Let_def go_named_escape_def by (auto simp: written_escapes(4,5))

lemma go_step_go_quote_char:
  assumes c: "utf8_char c"
  shows "go_step (go_quote_char c @ rest) = Some (c, rest)"
proof (cases "go_named_escape c")
  case True
  then show ?thesis
    by (auto simp: go_named_escape_def go_quote_char_def go_step_def line_separator_def paragraph_separator_def)
next
  case False
  have "code_point c < 0x110000" using utf8_encode_code_point [OF c] by simp
  then have big: "code_point c < 16 ^ 8" by simp
  have small: "code_point c < 16 ^ 4" if "c \<in> {line_separator, paragraph_separator}"
    using small_code_points [of c] that by (auto simp: escaped_by_code_def)
  show ?thesis
    using go_step_code(1,2) [OF c, of rest] go_step_code(3) [OF c big, of rest] small json_step_plain(2) [OF c, of rest] False
    unfolding go_quote_char_code [OF False] by (auto simp: go_named_escape_def)
qed

interpretation go_text: notation_of go_quote_char go_step
proof
  fix c rest :: string
  assume c: "utf8_char c"
  then show "go_step (go_quote_char c @ rest) = Some (c, rest)" by (rule go_step_go_quote_char)
  show "go_quote_char c \<noteq> [] \<and> hd (go_quote_char c) \<noteq> quote"
    using plain_head [OF c, of quote] by (auto simp: go_quote_char_def Let_def)
qed

text \<open>
  (C32) Quoted names are unambiguous: a name written by \<open>go_quote\<close> is read back exactly by the
  grammar of Go's string literals, whatever follows the closing quote, so two different names never
  have the same quoted form.
\<close>

theorem go_quote_roundtrip:
  assumes "is_utf8 s" "is_utf8 t"
  shows "read_quoted go_step (Suc (length s)) (tl (go_quote s @ rest)) = Some (s, rest) \<and>
    hd (go_quote s) = quote \<and> (go_quote s = go_quote t \<longleftrightarrow> s = t)"
proof -
  have "s = t" if "go_quote s = go_quote t"
    using go_text.written_injective [OF assms, of "[]" "[]"] that by (simp add: go_quote_def)
  then show ?thesis using go_text.read_text [OF assms(1), of "Suc (length s)" rest] by (auto simp: go_quote_def)
qed

theorem go_quote_roundtrip_witness:
  "read_quoted go_step (Suc (length [CHR 0xE2, CHR 0x80, CHR 0xA8, CHR 0x07, quote]))
     (tl (go_quote [CHR 0xE2, CHR 0x80, CHR 0xA8, CHR 0x07, quote] @ ''!'')) =
   Some ([CHR 0xE2, CHR 0x80, CHR 0xA8, CHR 0x07, quote], ''!'') \<and>
   go_quote [CHR 0xE2, CHR 0x80, CHR 0xA8, CHR 0x07, quote] \<noteq> go_quote ''x''"
proof -
  have "is_utf8 [CHR 0xE2, CHR 0x80, CHR 0xA8, CHR 0x07, quote]" "is_utf8 ''x''"
    by (simp_all add: is_utf8.simps(2) utf8_step_alt second_of_3_def byte_at_def in_range_def is_cont_def)
  then show ?thesis
    using go_quote_roundtrip [of "[CHR 0xE2, CHR 0x80, CHR 0xA8, CHR 0x07, quote]" "''x''" "''!''"] by simp
qed

end
