(* ===== verification/Dns_Domain.thy ===== *)
theory Dns_Domain
  imports Go_Text Wire Machine_Spec
begin

text \<open>
  The managed DNS domain: the messages of the DNS service (\<open>api.rs\<close> of the DNS crate) with their
  JSON form, and the domain the cluster keeps in its store with the conversion of the records
  (\<open>dns.rs\<close> of the cluster crate). JSON values are read member by member, as the visitors do; the
  field names are compared without regard to case, and a later member overrides an earlier one.
\<close>

section \<open>Reading JSON values\<close>

datatype json_error = InvalidType

definition opt_string :: "json \<Rightarrow> (json_error, string option) result" where
  "opt_string v = (case v of JNull \<Rightarrow> Ok None | JString s \<Rightarrow> Ok (Some s) | _ \<Rightarrow> Err InvalidType)"

definition json_string :: "json \<Rightarrow> (json_error, string) result" where
  "json_string v = (case v of JString s \<Rightarrow> Ok s | _ \<Rightarrow> Err InvalidType)"

definition opt_strings :: "json \<Rightarrow> (json_error, string list option) result" where
  "opt_strings v =
     (case v of
        JNull \<Rightarrow> Ok None
      | JArray vs \<Rightarrow> map_ok Some (collect_ok (map json_string vs))
      | _ \<Rightarrow> Err InvalidType)"

definition eq_ignore_ascii_case :: "string \<Rightarrow> string \<Rightarrow> bool" where
  "eq_ignore_ascii_case a b \<longleftrightarrow> map to_ascii_lowercase a = map to_ascii_lowercase b"

text \<open>The loop of a visitor over the members of an object.\<close>

fun visit_map :: "('s \<Rightarrow> string \<Rightarrow> json \<Rightarrow> ('e, 's) result) \<Rightarrow> 's \<Rightarrow> (string \<times> json) list \<Rightarrow> ('e, 's) result" where
  "visit_map field s [] = Ok s"
| "visit_map field s ((key, v) # members) = rbind (field s key v) (\<lambda>s. visit_map field s members)"

text \<open>An optional value overrides the field unless it is null.\<close>

definition set_some :: "('a \<Rightarrow> 's) \<Rightarrow> 's \<Rightarrow> ('e, 'a option) result \<Rightarrow> ('e, 's) result" where
  "set_some update s r = rbind r (\<lambda>v. Ok (case v of Some a \<Rightarrow> update a | None \<Rightarrow> s))"

section \<open>Messages of the DNS service\<close>

datatype record_type = TypeA | TypeAaaa | TypeOther string

definition record_type_default :: record_type where
  "record_type_default = TypeOther []"

definition record_type_new :: "string \<Rightarrow> record_type" where
  "record_type_new s = (if s = ''A'' then TypeA else if s = ''AAAA'' then TypeAaaa else TypeOther s)"

fun record_type_str :: "record_type \<Rightarrow> string" where
  "record_type_str TypeA = ''A''"
| "record_type_str TypeAaaa = ''AAAA''"
| "record_type_str (TypeOther s) = s"

record domain_response =
  dp_name :: string
  dp_token :: string

record record_request =
  rq_name :: string
  rq_record_type :: record_type
  rq_values :: "string list"

record record_response =
  rs_record :: record_request
  rs_fqdn :: string

definition domain_response_default :: domain_response where
  "domain_response_default = \<lparr>dp_name = [], dp_token = []\<rparr>"

definition record_request_default :: record_request where
  "record_request_default = \<lparr>rq_name = [], rq_record_type = record_type_default, rq_values = []\<rparr>"

text \<open>The derived encoders leave empty members out.\<close>

definition nonempty_member :: "string \<Rightarrow> string \<Rightarrow> (string \<times> json) list" where
  "nonempty_member key s = (if s = [] then [] else [(key, JString s)])"

definition domain_response_json :: "domain_response \<Rightarrow> (string \<times> json) list" where
  "domain_response_json d = nonempty_member ''name'' (dp_name d) @ nonempty_member ''token'' (dp_token d)"

definition record_request_json :: "record_request \<Rightarrow> (string \<times> json) list" where
  "record_request_json r =
     nonempty_member ''name'' (rq_name r) @
     nonempty_member ''type'' (record_type_str (rq_record_type r)) @
     (if rq_values r = [] then [] else [(''values'', JArray (map JString (rq_values r)))])"

definition record_response_json :: "record_response \<Rightarrow> (string \<times> json) list" where
  "record_response_json r = record_request_json (rs_record r) @ nonempty_member ''fqdn'' (rs_fqdn r)"

definition domain_response_field :: "domain_response \<Rightarrow> string \<Rightarrow> json \<Rightarrow> (json_error, domain_response) result" where
  "domain_response_field out key v =
     (if eq_ignore_ascii_case key ''name'' then set_some (\<lambda>a. out\<lparr>dp_name := a\<rparr>) out (opt_string v)
      else if eq_ignore_ascii_case key ''token'' then set_some (\<lambda>a. out\<lparr>dp_token := a\<rparr>) out (opt_string v)
      else Ok out)"

definition domain_response_deserialize :: "(string \<times> json) list \<Rightarrow> (json_error, domain_response) result" where
  "domain_response_deserialize members = visit_map domain_response_field domain_response_default members"

definition record_field :: "record_response \<Rightarrow> string \<Rightarrow> json \<Rightarrow> (json_error, record_response) result" where
  "record_field s key v =
     (let record = rs_record s in
      if eq_ignore_ascii_case key ''name'' then
        set_some (\<lambda>a. s\<lparr>rs_record := record\<lparr>rq_name := a\<rparr>\<rparr>) s (opt_string v)
      else if eq_ignore_ascii_case key ''type'' then
        set_some (\<lambda>a. s\<lparr>rs_record := record\<lparr>rq_record_type := record_type_new a\<rparr>\<rparr>) s (opt_string v)
      else if eq_ignore_ascii_case key ''values'' then
        map_ok (\<lambda>vs. s\<lparr>rs_record := record\<lparr>rq_values := (case vs of Some vs \<Rightarrow> vs | None \<Rightarrow> [])\<rparr>\<rparr>) (opt_strings v)
      else if eq_ignore_ascii_case key ''fqdn'' then set_some (\<lambda>a. s\<lparr>rs_fqdn := a\<rparr>) s (opt_string v)
      else Ok s)"

definition deserialize_record :: "(string \<times> json) list \<Rightarrow> (json_error, record_response) result" where
  "deserialize_record members = visit_map record_field \<lparr>rs_record = record_request_default, rs_fqdn = []\<rparr> members"

definition record_request_deserialize :: "(string \<times> json) list \<Rightarrow> (json_error, record_request) result" where
  "record_request_deserialize members = map_ok rs_record (deserialize_record members)"

section \<open>Records of the API\<close>

record dns_record =
  dn_name :: string
  dn_type :: int
  dn_values :: "string list"

datatype pb_record_type = PbUnspecified | PbA | PbAaaa

fun pb_record_number :: "pb_record_type \<Rightarrow> int" where
  "pb_record_number PbUnspecified = 0"
| "pb_record_number PbA = 1"
| "pb_record_number PbAaaa = 2"

definition pb_record_try_from :: "int \<Rightarrow> pb_record_type option" where
  "pb_record_try_from n =
     (if n = 0 then Some PbUnspecified else if n = 1 then Some PbA else if n = 2 then Some PbAaaa else None)"

fun pb_record_str_name :: "pb_record_type \<Rightarrow> string" where
  "pb_record_str_name PbUnspecified = ''UNSPECIFIED''"
| "pb_record_str_name PbA = ''A''"
| "pb_record_str_name PbAaaa = ''AAAA''"

definition map_record_request :: "dns_record \<Rightarrow> record_request" where
  "map_record_request r =
     \<lparr>rq_name = dn_name r,
      rq_record_type = record_type_new
        (case pb_record_try_from (dn_type r) of
           Some value \<Rightarrow> pb_record_str_name value
         | None \<Rightarrow> int_to_string (dn_type r)),
      rq_values = dn_values r\<rparr>"

definition map_record_response :: "record_response \<Rightarrow> dns_record" where
  "map_record_response r =
     \<lparr>dn_name = rs_fqdn r,
      dn_type = pb_record_number
        (case rq_record_type (rs_record r) of TypeA \<Rightarrow> PbA | TypeAaaa \<Rightarrow> PbAaaa | TypeOther _ \<Rightarrow> PbUnspecified),
      dn_values = rq_values (rs_record r)\<rparr>"

section \<open>The stored domain\<close>

record stored_domain =
  sd_endpoint :: string
  sd_name :: string
  sd_token :: string

definition encode_stored_domain :: "stored_domain \<Rightarrow> string" where
  "encode_stored_domain domain =
     (let encoded = [CHR ''{'', quote] @ ''Endpoint'' @ [quote, CHR '':''];
          encoded = push_go_json_string encoded (sd_endpoint domain);
          encoded = encoded @ [CHR '','', quote] @ ''Name'' @ [quote, CHR '':''];
          encoded = push_go_json_string encoded (sd_name domain);
          encoded = encoded @ [CHR '','', quote] @ ''Token'' @ [quote, CHR '':''];
          encoded = push_go_json_string encoded (sd_token domain)
      in encoded @ ''}'')"

definition stored_domain_empty :: stored_domain where
  "stored_domain_empty = \<lparr>sd_endpoint = [], sd_name = [], sd_token = []\<rparr>"

definition stored_domain_field :: "stored_domain \<Rightarrow> string \<Rightarrow> json \<Rightarrow> (json_error, stored_domain) result" where
  "stored_domain_field domain key v =
     (if eq_ignore_ascii_case key ''Endpoint'' then set_some (\<lambda>a. domain\<lparr>sd_endpoint := a\<rparr>) domain (opt_string v)
      else if eq_ignore_ascii_case key ''Name'' then set_some (\<lambda>a. domain\<lparr>sd_name := a\<rparr>) domain (opt_string v)
      else if eq_ignore_ascii_case key ''Token'' then set_some (\<lambda>a. domain\<lparr>sd_token := a\<rparr>) domain (opt_string v)
      else Ok domain)"

definition stored_domain_deserialize :: "json \<Rightarrow> (json_error, stored_domain) result" where
  "stored_domain_deserialize v =
     (case v of
        JObject members \<Rightarrow> visit_map stored_domain_field stored_domain_empty members
      | JNull \<Rightarrow> Ok stored_domain_empty
      | _ \<Rightarrow> Err InvalidType)"

section \<open>Messages survive their JSON form\<close>

lemma folded_names [simp]:
  "eq_ignore_ascii_case ''name'' ''name''" "eq_ignore_ascii_case ''token'' ''token''" "eq_ignore_ascii_case ''type'' ''type''"
  "eq_ignore_ascii_case ''values'' ''values''" "eq_ignore_ascii_case ''fqdn'' ''fqdn''"
  "\<not> eq_ignore_ascii_case ''token'' ''name''" "\<not> eq_ignore_ascii_case ''type'' ''name''"
  "\<not> eq_ignore_ascii_case ''values'' ''name''" "\<not> eq_ignore_ascii_case ''values'' ''type''"
  "\<not> eq_ignore_ascii_case ''fqdn'' ''name''" "\<not> eq_ignore_ascii_case ''fqdn'' ''type''" "\<not> eq_ignore_ascii_case ''fqdn'' ''values''"
  "eq_ignore_ascii_case ''Endpoint'' ''Endpoint''" "eq_ignore_ascii_case ''Name'' ''Name''" "eq_ignore_ascii_case ''Token'' ''Token''"
  "\<not> eq_ignore_ascii_case ''Name'' ''Endpoint''" "\<not> eq_ignore_ascii_case ''Token'' ''Endpoint''" "\<not> eq_ignore_ascii_case ''Token'' ''Name''"
  by (simp_all add: eq_ignore_ascii_case_def) code_simp+

lemma opt_string_simps [simp]: "opt_string (JString s) = Ok (Some s)" "opt_string JNull = Ok None"
  by (simp_all add: opt_string_def)

lemma set_some_simps [simp]: "set_some f s (Ok (Some a)) = Ok (f a)" "set_some f s (Ok None) = Ok s"
  by (simp_all add: set_some_def)

lemma visit_map_append: "visit_map f s (a @ b) = rbind (visit_map f s a) (\<lambda>s. visit_map f s b)"
  by (induction f s a rule: visit_map.induct) (simp_all add: rbind_def split: sum.splits)

lemma opt_strings_array [simp]: "opt_strings (JArray (map JString vs)) = Ok (Some vs)"
proof -
  have "collect_ok (map json_string (map JString vs)) = Ok vs" by (simp add: collect_ok_Ok json_string_def comp_def)
  then show ?thesis by (simp add: opt_strings_def)
qed

text \<open>The types that a text denotes: every value but a known name spelled as another one.\<close>

definition proper_type :: "record_type \<Rightarrow> bool" where
  "proper_type t \<longleftrightarrow> record_type_new (record_type_str t) = t"

lemma proper_record_type_new: "proper_type (record_type_new s)"
  by (simp add: proper_type_def record_type_new_def)

lemma record_response_roundtrip:
  assumes "proper_type (rq_record_type (rs_record r))"
  shows "deserialize_record (record_response_json r) = Ok r"
proof -
  have "rq_record_type (rs_record r) = TypeOther []" if "record_type_str (rq_record_type (rs_record r)) = []"
    using that by (cases "rq_record_type (rs_record r)") simp_all
  then show ?thesis
    using assms unfolding proper_type_def
    by (cases r; cases "rs_record r")
      (simp add: deserialize_record_def record_response_json_def record_request_json_def nonempty_member_def
        visit_map_append record_field_def record_request_default_def record_type_default_def)
qed

lemma domain_response_roundtrip: "domain_response_deserialize (domain_response_json d) = Ok d"
  by (cases d) (simp add: domain_response_deserialize_def domain_response_json_def nonempty_member_def
      visit_map_append domain_response_field_def domain_response_default_def)

section \<open>The stored domain survives its text\<close>

text \<open>
  The text of an object whose members are strings, as JSON defines it. The number bounds the members
  and the characters of each string.
\<close>

definition read_string :: "nat \<Rightarrow> string \<Rightarrow> (string \<times> string) option" where
  "read_string n s = (if s \<noteq> [] \<and> hd s = quote then read_quoted json_step n (tl s) else None)"

definition expect_char :: "char \<Rightarrow> string \<Rightarrow> string option" where
  "expect_char c s = (if s \<noteq> [] \<and> hd s = c then Some (tl s) else None)"

fun read_members :: "nat \<Rightarrow> nat \<Rightarrow> string \<Rightarrow> ((string \<times> json) list \<times> string) option" where
  "read_members n 0 s = None"
| "read_members n (Suc m) s =
     Option.bind (read_string n s) (\<lambda>(key, s).
     Option.bind (expect_char CHR '':'' s) (\<lambda>s.
     Option.bind (read_string n s) (\<lambda>(v, s).
     if s \<noteq> [] \<and> hd s = CHR '','' then
       map_option (\<lambda>(members, s). ((key, JString v) # members, s)) (read_members n m (tl s))
     else map_option (\<lambda>s. ([(key, JString v)], s)) (expect_char CHR ''}'' s))))"

definition read_object :: "nat \<Rightarrow> string \<Rightarrow> json option" where
  "read_object n s =
     Option.bind (expect_char CHR ''{'' s) (\<lambda>s.
     Option.bind (read_members n n s) (\<lambda>(members, s). if s = [] then Some (JObject members) else None))"

lemma read_string_pushed:
  assumes "is_utf8 v" "length v < n"
  shows "read_string n (quote # concat (map go_json_char (utf8_chars v)) @ quote # rest) = Some (v, rest)"
  using json_text.read_text [OF assms] by (simp add: read_string_def)

lemma read_string_key:
  assumes "list_all (\<lambda>c. byte_of c < 128) key" "list_all (\<lambda>c. go_json_char [c] = [c]) key" "length key < n"
  shows "read_string n (quote # key @ quote # rest) = Some (key, rest)"
proof -
  have "concat (map go_json_char (utf8_chars key)) = key"
    using assms(2) unfolding utf8_chars_ascii [OF assms(1)] by (induction key) simp_all
  then show ?thesis using read_string_pushed [OF is_utf8_ascii [OF assms(1)] assms(3)] by simp
qed

definition domain_members :: "stored_domain \<Rightarrow> (string \<times> json) list" where
  "domain_members d = [(''Endpoint'', JString (sd_endpoint d)), (''Name'', JString (sd_name d)), (''Token'', JString (sd_token d))]"

definition domain_utf8 :: "stored_domain \<Rightarrow> bool" where
  "domain_utf8 d \<longleftrightarrow> is_utf8 (sd_endpoint d) \<and> is_utf8 (sd_name d) \<and> is_utf8 (sd_token d)"

text \<open>A member as the encoder writes it.\<close>

definition member_text :: "string \<Rightarrow> string \<Rightarrow> string" where
  "member_text key v = quote # key @ quote # CHR '':'' # quote # concat (map go_json_char (utf8_chars v)) @ [quote]"

definition plain_key :: "string \<Rightarrow> bool" where
  "plain_key key \<longleftrightarrow> list_all (\<lambda>c. byte_of c < 128) key \<and> list_all (\<lambda>c. go_json_char [c] = [c]) key"

lemma plain_keys: "plain_key ''Endpoint''" "plain_key ''Name''" "plain_key ''Token''"
  by (simp_all add: plain_key_def go_json_char_def code_point_def byte_at_def line_separator_def paragraph_separator_def)

lemma read_member:
  assumes "plain_key key" "length key < n" "is_utf8 v" "length v < n"
  shows "read_members n (Suc m) (member_text key v @ CHR '','' # rest) =
      map_option (\<lambda>(members, s). ((key, JString v) # members, s)) (read_members n m rest)"
    "read_members n (Suc m) (member_text key v @ CHR ''}'' # rest) = Some ([(key, JString v)], rest)"
  using read_string_key [of key n] read_string_pushed [OF assms(3,4)] assms(1,2)
  by (simp_all add: member_text_def plain_key_def expect_char_def)

lemma encode_members:
  "encode_stored_domain d =
     CHR ''{'' # member_text ''Endpoint'' (sd_endpoint d) @ CHR '','' # member_text ''Name'' (sd_name d) @
     CHR '','' # member_text ''Token'' (sd_token d) @ CHR ''}'' # []"
  by (simp add: encode_stored_domain_def push_go_json_string_def member_text_def Let_def)

lemma read_encoded_domain:
  assumes "domain_utf8 d" "length (sd_endpoint d) < n" "length (sd_name d) < n" "length (sd_token d) < n" "8 < n"
  shows "read_object n (encode_stored_domain d) = Some (JObject (domain_members d))"
proof -
  define m where "m = n - 3"
  have n: "n = Suc (Suc (Suc m))" using assms(5) by (simp add: m_def)
  have len: "length ''Endpoint'' < n" "length ''Name'' < n" "length ''Token'' < n" using assms(5) by simp_all
  have utf8: "is_utf8 (sd_endpoint d)" "is_utf8 (sd_name d)" "is_utf8 (sd_token d)"
    using assms(1) by (simp_all add: domain_utf8_def)
  note last = read_member(2) [OF plain_keys(3) len(3) utf8(3) assms(4), of m "[]"]
  note middle = read_member(1) [OF plain_keys(2) len(2) utf8(2) assms(3), of "Suc m"]
  note first = read_member(1) [OF plain_keys(1) len(1) utf8(1) assms(2), of "Suc (Suc m)"]
  have "read_members n n (tl (encode_stored_domain d)) = Some (domain_members d, [])"
    unfolding encode_members list.sel
    by (subst (2) n) (simp only: first middle last option.map prod.case domain_members_def)
  then show ?thesis by (simp add: read_object_def encode_members expect_char_def)
qed

lemma deserialize_domain_members: "stored_domain_deserialize (JObject (domain_members d)) = Ok d"
  by (cases d) (simp add: stored_domain_deserialize_def domain_members_def stored_domain_field_def stored_domain_empty_def)

text \<open>
  (C31) The reserved domain survives the store: the JSON text that the cluster writes for a domain is
  a JSON object, and reading that object gives back the endpoint, the name and the token, with every
  special character of theirs. The messages of the DNS service survive their JSON form as well, with
  empty members left out.
\<close>

theorem stored_domain_roundtrip:
  assumes "domain_utf8 d" "proper_type (rq_record_type (rs_record r))"
  shows "\<exists>n. Option.bind (read_object n (encode_stored_domain d)) (\<lambda>v. ok_opt (stored_domain_deserialize v)) = Some d \<and>
    deserialize_record (record_response_json r) = Ok r \<and>
    domain_response_deserialize (domain_response_json p) = Ok p"
proof -
  define n where "n = 9 + length (sd_endpoint d) + length (sd_name d) + length (sd_token d)"
  have "read_object n (encode_stored_domain d) = Some (JObject (domain_members d))"
    by (rule read_encoded_domain [OF assms(1)]) (simp_all add: n_def)
  then show ?thesis
    using deserialize_domain_members record_response_roundtrip [OF assms(2)] domain_response_roundtrip
    by (intro exI [of _ n]) simp
qed

theorem stored_domain_roundtrip_witness:
  "\<exists>n. Option.bind (read_object n (encode_stored_domain \<lparr>sd_endpoint = ''<x>'', sd_name = [CHR 0x0A], sd_token = []\<rparr>))
      (\<lambda>v. ok_opt (stored_domain_deserialize v)) = Some \<lparr>sd_endpoint = ''<x>'', sd_name = [CHR 0x0A], sd_token = []\<rparr> \<and>
    deserialize_record (record_response_json
      \<lparr>rs_record = \<lparr>rq_name = ''a'', rq_record_type = TypeA, rq_values = [''v'']\<rparr>, rs_fqdn = []\<rparr>) =
      Ok \<lparr>rs_record = \<lparr>rq_name = ''a'', rq_record_type = TypeA, rq_values = [''v'']\<rparr>, rs_fqdn = []\<rparr>"
proof -
  have "domain_utf8 \<lparr>sd_endpoint = ''<x>'', sd_name = [CHR 0x0A], sd_token = []\<rparr>"
    by (simp add: domain_utf8_def is_utf8_ascii)
  then show ?thesis
    using stored_domain_roundtrip [of "\<lparr>sd_endpoint = ''<x>'', sd_name = [CHR 0x0A], sd_token = []\<rparr>"
      "\<lparr>rs_record = \<lparr>rq_name = ''a'', rq_record_type = TypeA, rq_values = [''v'']\<rparr>, rs_fqdn = []\<rparr>"
      domain_response_default]
    by (auto simp: proper_type_def record_type_new_def)
qed

end
