(* ===== verification/Cluster.thy ===== *)
theory Cluster
  imports Store Ipam Machine_Name Dns_Domain Network Rfc3339
begin

text \<open>
  The cluster service (\<open>ployz-internal-machine-cluster/src/service.rs\<close>): initialisation, the addition
  and removal of machines with the allocation of their subnets, the listing of members and the
  reserved domain. Every handler works on the store through \<open>store_access\<close> and returns the store it
  leaves, also when it fails. Randomness, the DNS service and the membership states are arguments.
\<close>

section \<open>Statuses and prefixes\<close>

definition already_exists :: "string \<Rightarrow> status" where
  "already_exists message = \<lparr>st_code = CodeAlreadyExists, st_message = message\<rparr>"

definition not_found :: "string \<Rightarrow> status" where
  "not_found message = \<lparr>st_code = CodeNotFound, st_message = message\<rparr>"

definition status_unknown :: "string \<Rightarrow> status" where
  "status_unknown message = \<lparr>st_code = CodeUnknown, st_message = message\<rparr>"

definition prefix_from_proto :: "pb_ip_prefix \<Rightarrow> (address_error fault, ip_prefix) result" where
  "prefix_from_proto prefix =
     rbind (to_prefix prefix) (\<lambda>(address, bits).
     expect ''protobuf helper validated prefix length'' (ok_opt (ip_prefix_make address bits)))"

definition prefix_to_proto :: "ip_prefix \<Rightarrow> pb_ip_prefix" where
  "prefix_to_proto prefix = ip_prefix_new (pfx_address prefix) (pfx_bits prefix)"

definition addresses_equal :: "ip_addr \<Rightarrow> address \<Rightarrow> bool" where
  "addresses_equal address management \<longleftrightarrow> addr_zone management = [] \<and> address = addr_ip management"

section \<open>The service\<close>

definition NETWORK_KEY :: string where "NETWORK_KEY = ''network''"
definition CREATED_AT_KEY :: string where "CREATED_AT_KEY = ''created_at''"
definition UNCLOUD_DNS_KEY :: string where "UNCLOUD_DNS_KEY = ''uncloud_dns''"

text \<open>The latches are one-way signals.\<close>

record 's cluster =
  cl_store :: 's
  cl_machine_id :: string
  cl_initialised :: bool
  cl_ready :: bool

definition signal_initialised :: "'s cluster \<Rightarrow> 's cluster" where
  "signal_initialised c = c\<lparr>cl_initialised := True\<rparr>"

definition signal_ready :: "'s cluster \<Rightarrow> 's cluster" where
  "signal_ready c = c\<lparr>cl_ready := True\<rparr>"

definition update_machine_id :: "string \<Rightarrow> 's cluster \<Rightarrow> 's cluster" where
  "update_machine_id machine_id c = c\<lparr>cl_machine_id := machine_id\<rparr>"

definition on_store :: "('s, 'e, 'a) action \<Rightarrow> ('s cluster, 'e, 'a) action" where
  "on_store m c = (case m (cl_store c) of (r, s) \<Rightarrow> (r, c\<lparr>cl_store := s\<rparr>))"

datatype cluster_init_error = AlreadyInitialised | InitStore string store_error

definition cluster_init :: "'s store_access \<Rightarrow> int \<Rightarrow> ip_prefix \<Rightarrow> ('s cluster, cluster_init_error, unit) action" where
  "cluster_init sa now network c =
     (if cl_initialised c then (Err AlreadyInitialised, c)
      else
        on_store (and_then (with_err (InitStore ''put network to store'') (sa_put_string sa NETWORK_KEY (ip_prefix_display network))) (\<lambda>_.
          with_err (InitStore ''put created_at to store'') (sa_put_string sa CREATED_AT_KEY (rfc3339_utc now)))) c)"

definition check_ready :: "('s cluster, status fault, unit) action" where
  "check_ready c =
     (if cl_ready c then Ok () else Err (Fail (unavailable ''machine is not ready to serve cluster requests'')), c)"

definition cluster_network :: "'s store_access \<Rightarrow> ('s, status fault, ip_prefix) action" where
  "cluster_network sa =
     and_then (with_err (\<lambda>error. Fail (internal (''get network from store: '' @ store_error_display error))) (sa_get_string sa NETWORK_KEY))
       (\<lambda>network. pure (map_err (\<lambda>error. Fail (internal (''parse network prefix: '' @ ip_prefix_error_display error)))
          (ip_prefix_from_str network)))"

section \<open>Adding a machine\<close>

record add_machine_request =
  ar_name :: string
  ar_network :: "network_config option"
  ar_public_ip :: "pb_ip option"

text \<open>The bytes of the random source, and what the generator of machine names returned.\<close>

record cluster_env =
  ce_fill :: "nat \<Rightarrow> (string, 8 word list) result"
  ce_random_name :: "(secret_error, string) result"

definition request_network :: "add_machine_request \<Rightarrow> (status fault, network_config) result" where
  "request_network request =
     rbind (ok_or (Fail (invalid_argument ''network not set'')) (ar_network request)) (\<lambda>network.
     rbind (network_config_validate network) (\<lambda>_.
     if nc_endpoints network = [] then Err (Fail (invalid_argument ''endpoints not set''))
     else
       rbind (case ar_public_ip request of
                None \<Rightarrow> Ok ()
              | Some public_ip \<Rightarrow>
                  map_ok (\<lambda>_. ()) (map_err (\<lambda>error. Fail (invalid_argument (''invalid public IP: '' @ address_error_display error)))
                    (to_addr public_ip))) (\<lambda>_.
       Ok network)))"

definition same_management :: "address option \<Rightarrow> network_config \<Rightarrow> bool" where
  "same_management requested stored_network \<longleftrightarrow>
     requested \<noteq> None \<and> Option.bind (nc_management_ip stored_network) (\<lambda>address. ok_opt (to_addr address)) = requested"

fun scan_machines ::
  "string \<Rightarrow> address option \<Rightarrow> 8 word list \<Rightarrow> machine_info list \<Rightarrow> (status fault, ip_prefix list) result" where
  "scan_machines name requested public_key [] = Ok []"
| "scan_machines name requested public_key (machine # machines) =
     (if name \<noteq> [] \<and> mi_name machine = name then
        Err (Fail (already_exists (''machine with name '' @ go_quote name @ '' already exists'')))
      else
        rbind (expect ''stored machine network not set'' (mi_network machine)) (\<lambda>stored_network.
        if same_management requested stored_network then
          Err (Fail (already_exists (''machine with management IP '' @ [CHR 0x22] @ show_ip (addr_ip (the requested)) @ [CHR 0x22]
            @ '' already exists under the name '' @ go_quote (mi_name machine))))
        else if nc_public_key stored_network = public_key then
          Err (Fail (already_exists (''machine with public key '' @ go_quote (to_hex_string (secret_from (nc_public_key stored_network)))
            @ '' already exists under the name '' @ go_quote (mi_name machine))))
        else
          rbind (expect ''stored machine subnet not set'' (nc_subnet stored_network)) (\<lambda>subnet.
          rbind (expect ''stored machine subnet is valid'' (ok_opt (prefix_from_proto subnet))) (\<lambda>prefix.
          rbind (scan_machines name requested public_key machines) (\<lambda>allocated.
          Ok (prefix # allocated))))))"

definition machine_identity :: "cluster_env \<Rightarrow> string \<Rightarrow> (status fault, string \<times> string) result" where
  "machine_identity env name =
     rbind (map_err (\<lambda>error. Fail (internal (''generate machine ID: '' @ secret_error_display error))) (new_machine_id (ce_fill env)))
       (\<lambda>machine_id.
     rbind (if name = [] then
              map_err (\<lambda>error. Fail (internal (''generate machine name: '' @ machine_name_error_display error))) (ce_random_name env)
            else Ok name) (\<lambda>name.
     Ok (machine_id, name)))"

definition management_address :: "network_config \<Rightarrow> (status fault, pb_ip) result" where
  "management_address network =
     (case nc_management_ip network of
        Some address \<Rightarrow> Ok address
      | None \<Rightarrow>
          map_ok (\<lambda>address. ip_new (address_from_ip (V6 address)))
            (map_err (\<lambda>error. Fail (internal (''derive management IP: '' @ network_error_display error)))
              (management_ip (secret_from (nc_public_key network)))))"

definition allocate_machine_subnet :: "ip_prefix \<Rightarrow> ip_prefix list \<Rightarrow> (status fault, ip_prefix) result" where
  "allocate_machine_subnet network allocated =
     rbind (map_err (\<lambda>error. Fail (internal (''create IPAM manager: '' @ ip_prefix_error_display error))) (with_allocated network allocated))
       (\<lambda>ipam.
     map_ok fst (map_err (\<lambda>error. Fail (internal (''allocate subnet for machine: '' @ ip_prefix_error_display error)))
       (allocate_subnet_len ipam DEFAULT_SUBNET_BITS)))"

definition new_machine :: "string \<Rightarrow> string \<Rightarrow> network_config \<Rightarrow> pb_ip \<Rightarrow> ip_prefix \<Rightarrow> pb_ip option \<Rightarrow> machine_info" where
  "new_machine machine_id name network management subnet public_ip =
     machine_info_default
       \<lparr>mi_id := machine_id, mi_name := name,
        mi_network := Some \<lparr>nc_subnet = Some (prefix_to_proto subnet), nc_management_ip = Some management,
          nc_endpoints = nc_endpoints network, nc_public_key = nc_public_key network\<rparr>,
        mi_public_ip := public_ip\<rparr>"

definition requested_management :: "network_config \<Rightarrow> address option" where
  "requested_management network = Option.bind (nc_management_ip network) (\<lambda>address. ok_opt (to_addr address))"

text \<open>The machine that a request adds, from the listing of the machines and the network of the cluster.\<close>

definition plan_machine :: "'s store_access \<Rightarrow> cluster_env \<Rightarrow> add_machine_request \<Rightarrow> ('s, status fault, machine_info) action" where
  "plan_machine sa env request =
     and_then (pure (request_network request)) (\<lambda>network.
     and_then (with_err (fault_map (\<lambda>error. internal (''list machines: '' @ store_error_display error))) (sa_list_machines sa)) (\<lambda>machines.
     and_then (pure (scan_machines (ar_name request) (requested_management network) (nc_public_key network) machines)) (\<lambda>allocated.
     and_then (pure (machine_identity env (ar_name request))) (\<lambda>(machine_id, name).
     and_then (pure (management_address network)) (\<lambda>management.
     and_then (cluster_network sa) (\<lambda>cluster_network.
     and_then (pure (allocate_machine_subnet cluster_network allocated)) (\<lambda>subnet.
     pure (Ok (new_machine machine_id name network management subnet (ar_public_ip request))))))))))"

definition add_machine_without_ready_check ::
  "'s store_access \<Rightarrow> cluster_env \<Rightarrow> add_machine_request \<Rightarrow> ('s, status fault, machine_info) action" where
  "add_machine_without_ready_check sa env request =
     and_then (plan_machine sa env request) (\<lambda>machine.
     and_then (with_err (\<lambda>error. Fail (internal (''create machine: '' @ store_error_display error))) (sa_create_machine sa machine)) (\<lambda>_.
     pure (Ok machine)))"

definition add_machine :: "'s store_access \<Rightarrow> cluster_env \<Rightarrow> add_machine_request \<Rightarrow> ('s cluster, status fault, machine_info) action" where
  "add_machine sa env request = and_then check_ready (\<lambda>_. on_store (add_machine_without_ready_check sa env request))"


section \<open>Removing and listing machines\<close>

text \<open>A failure to delete the records of the containers is only logged.\<close>

definition remove_machine :: "'s store_access \<Rightarrow> string \<Rightarrow> ('s cluster, status fault, unit) action" where
  "remove_machine sa mid =
     and_then check_ready (\<lambda>_.
     if mid = [] then pure (Err (Fail (invalid_argument ''machine ID not set'')))
     else on_store (\<lambda>s.
       let s = snd (sa_delete_machine_containers sa mid s) in
       with_err (\<lambda>error. Fail (case error of
           MachineNotFound _ \<Rightarrow> not_found (''machine not found: '' @ mid)
         | _ \<Rightarrow> internal (''delete machine from store: '' @ store_error_display error)))
         (sa_delete_machine sa mid) s))"

datatype admin_state = AdminAlive | AdminSuspect | AdminDown

record cluster_membership_state =
  ms_address :: ip_addr
  ms_state :: admin_state

definition member_state :: "cluster_membership_state list \<Rightarrow> string \<Rightarrow> machine_info \<Rightarrow> address \<Rightarrow> membership_state" where
  "member_state states local_id machine management =
     (if mi_id machine = local_id then StateUp
      else case find (\<lambda>state. addresses_equal (ms_address state) management) states of
        None \<Rightarrow> StateDown
      | Some state \<Rightarrow> (case ms_state state of AdminAlive \<Rightarrow> StateUp | AdminSuspect \<Rightarrow> StateSuspect | AdminDown \<Rightarrow> StateDown))"

definition member_of_machine :: "cluster_membership_state list \<Rightarrow> string \<Rightarrow> machine_info \<Rightarrow> (status fault, pb_machine_member) result" where
  "member_of_machine states local_id machine =
     rbind (expect ''stored machine network not set'' (mi_network machine)) (\<lambda>network.
     rbind (expect ''stored machine management IP not set'' (nc_management_ip network)) (\<lambda>ip.
     rbind (expect ''stored machine management IP is valid'' (ok_opt (to_addr ip))) (\<lambda>management.
     Ok \<lparr>pm_machine = Some machine, pm_state = state_number (member_state states local_id machine management)\<rparr>)))"

definition list_machines_inner ::
  "'s store_access \<Rightarrow> (string, cluster_membership_state list) result \<Rightarrow> ('s cluster, status fault, pb_machine_member list) action" where
  "list_machines_inner sa membership_states =
     and_then check_ready (\<lambda>_.
     and_then (on_store (with_err (fault_map (\<lambda>error. internal (store_error_display error))) (sa_list_machines sa))) (\<lambda>machines.
     and_then (pure (map_err (\<lambda>error. Fail (internal (''get cluster membership states: '' @ error))) membership_states)) (\<lambda>states c.
     (collect_ok (map (member_of_machine states (cl_machine_id c)) machines), c))))"

section \<open>The reserved domain\<close>

text \<open>
  The DNS service answers from a task of its own: the outer failure is that of the task. The text of
  a failure to read the stored domain is an argument as well.
\<close>

record dns_access =
  dns_reserve_domain :: "string \<Rightarrow> (string, (string, string \<times> string) result) result"
  dns_create_records :: "string \<Rightarrow> string \<Rightarrow> string \<Rightarrow> record_request list \<Rightarrow> (string, (string, record_response list) result) result"
  dns_json_error :: "json_error \<Rightarrow> string"

definition read_stored_domain :: "codec_lib \<Rightarrow> dns_access \<Rightarrow> 's store_access \<Rightarrow> ('s, status fault, stored_domain) action" where
  "read_stored_domain lib dns sa =
     and_then (with_err (\<lambda>error. Fail (case error of
         KeyNotFound \<Rightarrow> not_found ''domain not found''
       | _ \<Rightarrow> internal (''get domain from store: '' @ store_error_display error))) (sa_get_bytes sa UNCLOUD_DNS_KEY)) (\<lambda>json.
     pure (map_err (\<lambda>error. Fail (internal (''unmarshal domain: '' @ error)))
       (rbind (lib_from_text lib (string_of_bytes json)) (\<lambda>v. map_err (dns_json_error dns) (stored_domain_deserialize v)))))"

definition no_domain_yet :: "codec_lib \<Rightarrow> dns_access \<Rightarrow> 's store_access \<Rightarrow> ('s, status fault, unit) action" where
  "no_domain_yet lib dns sa s =
     (case read_stored_domain lib dns sa s of
        (Ok _, t) \<Rightarrow> (Err (Fail (already_exists ''domain already reserved'')), t)
      | (Err (Fail status), t) \<Rightarrow> (if st_code status = CodeNotFound then Ok () else Err (Fail status), t)
      | (Err (Panic message), t) \<Rightarrow> (Err (Panic message), t))"

definition task_result :: "(string \<Rightarrow> status) \<Rightarrow> string \<Rightarrow> (string, (string, 'a) result) result \<Rightarrow> (status fault, 'a) result" where
  "task_result status_of task r =
     rbind (map_err (\<lambda>error. Fail (status_of (task @ '' task failed: '' @ error))) r) (map_err (\<lambda>error. Fail (status_of error)))"

definition reserve_domain_inner ::
  "codec_lib \<Rightarrow> dns_access \<Rightarrow> 's store_access \<Rightarrow> string \<Rightarrow> ('s cluster, status fault, string) action" where
  "reserve_domain_inner lib dns sa endpoint =
     and_then check_ready (\<lambda>_.
     if endpoint = [] then pure (Err (Fail (invalid_argument ''API endpoint not set'')))
     else on_store (
       and_then (no_domain_yet lib dns sa) (\<lambda>_.
       and_then (pure (task_result internal ''DNS reservation'' (dns_reserve_domain dns endpoint))) (\<lambda>(name, token).
       and_then (with_err (\<lambda>error. Fail (internal (''store reserved domain: '' @ store_error_display error)))
         (sa_put_bytes sa UNCLOUD_DNS_KEY
           (bytes_of_string (encode_stored_domain \<lparr>sd_endpoint = endpoint, sd_name = name, sd_token = token\<rparr>)))) (\<lambda>_.
       pure (Ok name))))))"

definition get_domain_inner :: "codec_lib \<Rightarrow> dns_access \<Rightarrow> 's store_access \<Rightarrow> ('s cluster, status fault, string) action" where
  "get_domain_inner lib dns sa =
     and_then check_ready (\<lambda>_. and_then (on_store (read_stored_domain lib dns sa)) (\<lambda>domain. pure (Ok (sd_name domain))))"

definition release_domain_inner :: "codec_lib \<Rightarrow> dns_access \<Rightarrow> 's store_access \<Rightarrow> ('s cluster, status fault, string) action" where
  "release_domain_inner lib dns sa =
     and_then check_ready (\<lambda>_. on_store (
     and_then (read_stored_domain lib dns sa) (\<lambda>domain.
     and_then (with_err (\<lambda>error. Fail (internal (''delete domain from store: '' @ store_error_display error)))
       (sa_delete sa UNCLOUD_DNS_KEY)) (\<lambda>_.
     pure (Ok (sd_name domain))))))"

definition create_domain_records_inner ::
  "codec_lib \<Rightarrow> dns_access \<Rightarrow> 's store_access \<Rightarrow> dns_record list \<Rightarrow> ('s cluster, status fault, dns_record list) action" where
  "create_domain_records_inner lib dns sa records =
     and_then check_ready (\<lambda>_.
     and_then (on_store (read_stored_domain lib dns sa)) (\<lambda>domain.
     and_then (pure (task_result status_unknown ''DNS records''
       (dns_create_records dns (sd_endpoint domain) (sd_name domain) (sd_token domain) (map map_record_request records)))) (\<lambda>responses.
     pure (Ok (map map_record_response responses)))))"

end
