(* ===== verification/Cluster_Run.thy ===== *)
theory Cluster_Run
  imports Cluster
begin

text \<open>
  Runs of the cluster service: what the machines in the store satisfy after any sequence of requests,
  what a request leaves behind when it fails, and where the checks of the code do not suffice.
\<close>

section \<open>Machines that can live together\<close>

definition machine_key :: "machine_info \<Rightarrow> 8 word list option" where
  "machine_key m = map_option nc_public_key (mi_network m)"

definition machine_subnet :: "machine_info \<Rightarrow> ip_prefix option" where
  "machine_subnet m = Option.bind (mi_network m) (\<lambda>c. Option.bind (nc_subnet c) (\<lambda>p. ok_opt (prefix_from_proto p)))"

definition machine_management :: "machine_info \<Rightarrow> address option" where
  "machine_management m = Option.bind (mi_network m) (\<lambda>c. Option.bind (nc_management_ip c) (\<lambda>ip. ok_opt (to_addr ip)))"

text \<open>A machine as the service stores it: a valid network with a subnet of the default length and a management address.\<close>

definition machine_ok :: "machine_info \<Rightarrow> bool" where
  "machine_ok m \<longleftrightarrow> network_valid m = Ok True \<and> machine_management m \<noteq> None \<and>
     (case machine_subnet m of None \<Rightarrow> False | Some p \<Rightarrow> prefix_ok p \<and> pfx_bits p = DEFAULT_SUBNET_BITS)"

text \<open>Two machines have different keys and no address in common.\<close>

definition separate :: "machine_info \<Rightarrow> machine_info \<Rightarrow> bool" where
  "separate m n \<longleftrightarrow> machine_key m \<noteq> machine_key n \<and>
     (case (machine_subnet m, machine_subnet n) of (Some p, Some q) \<Rightarrow> \<not> overlaps p q | _ \<Rightarrow> False)"

definition machines_ok :: "machine_info list \<Rightarrow> bool" where
  "machines_ok ms \<longleftrightarrow> list_all machine_ok ms \<and> distinct (map mi_id ms) \<and>
     (\<forall>m\<in>set ms. \<forall>n\<in>set ms. m \<noteq> n \<longrightarrow> separate m n)"

lemma overlaps_sym: "prefix_ok p \<Longrightarrow> prefix_ok q \<Longrightarrow> overlaps p q \<longleftrightarrow> overlaps q p"
  by (auto simp: overlaps_common_address)

lemma separate_sym: "machine_ok m \<Longrightarrow> machine_ok n \<Longrightarrow> separate m n \<longleftrightarrow> separate n m"
  using overlaps_sym by (auto simp: separate_def machine_ok_def split: option.splits)

lemma machines_ok_filter: "machines_ok ms \<Longrightarrow> machines_ok (filter P ms)"
  by (auto simp: machines_ok_def list_all_iff distinct_map_filter)

lemma machines_ok_add:
  assumes "machines_ok ms" "machine_ok m" "mi_id m \<notin> mi_id ` set ms" "\<forall>n\<in>set ms. separate n m"
  shows "machines_ok (ms @ [m])"
  using assms separate_sym by (auto simp: machines_ok_def list_all_iff)

lemma prefix_proto_roundtrip: "prefix_ok p \<Longrightarrow> prefix_from_proto (prefix_to_proto p) = Ok p"
proof -
  assume ok: "prefix_ok p"
  then have "pfx_bits p \<le> (if is_ipv4 (pfx_address p) then 32 else 128)" "pfx_bits p \<le> 255"
    by (cases "pfx_address p"; simp add: prefix_ok_def bit_len_def is_ipv4_def)+
  then have "to_prefix (prefix_to_proto p) = Ok (pfx_address p, pfx_bits p)"
    by (simp add: prefix_to_proto_def to_prefix_new)
  with ok show ?thesis by (simp add: prefix_from_proto_def ip_prefix_make_def prefix_ok_def)
qed

section \<open>The checks of an addition\<close>

lemma prefix_from_proto_ok: "prefix_from_proto q = Ok p \<Longrightarrow> prefix_ok p"
  by (auto simp: prefix_from_proto_def rbind_eq_Ok ip_prefix_make_def prefix_ok_def split: if_splits)

lemma scan_machines_Ok:
  assumes "scan_machines name requested public_key ms = Ok ps"
  shows "map machine_subnet ms = map Some ps \<and> list_all prefix_ok ps \<and>
    (\<forall>m\<in>set ms. machine_key m \<noteq> Some public_key \<and> (name \<noteq> [] \<longrightarrow> mi_name m \<noteq> name) \<and>
      (requested \<noteq> None \<longrightarrow> machine_management m \<noteq> requested))"
  using assms
proof (induction ms arbitrary: ps)
  case (Cons m ms)
  from Cons.prems obtain c subnet p qs where c: "mi_network m = Some c" "nc_subnet c = Some subnet"
      "prefix_from_proto subnet = Ok p" "\<not> (name \<noteq> [] \<and> mi_name m = name)" "\<not> same_management requested c"
      "nc_public_key c \<noteq> public_key" "scan_machines name requested public_key ms = Ok qs" "ps = p # qs"
    by (auto simp: rbind_eq_Ok split: if_splits)
  with Cons.IH [of qs] prefix_from_proto_ok [of subnet p] show ?case
    by (auto simp: machine_subnet_def machine_key_def machine_management_def same_management_def)
qed simp

lemma scan_machines_no_panic: "list_all machine_ok ms \<Longrightarrow> \<not> panics (scan_machines name requested public_key ms)"
proof (induction ms)
  case (Cons m ms)
  then obtain p where "machine_subnet m = Some p" by (auto simp: machine_ok_def split: option.splits)
  then obtain c subnet where "mi_network m = Some c" "nc_subnet c = Some subnet" "prefix_from_proto subnet = Ok p"
    by (auto simp: machine_subnet_def bind_eq_Some_conv)
  with Cons show ?case by auto
qed simp

lemma allocate_machine_subnet_Ok:
  assumes "allocate_machine_subnet network ps = Ok p" "prefix_ok network" "list_all prefix_ok ps"
  shows "prefix_ok p \<and> pfx_bits p = DEFAULT_SUBNET_BITS \<and> (\<forall>q\<in>set ps. \<not> overlaps q p) \<and> (\<forall>a. contains p a \<longrightarrow> contains (masked network) a)"
proof -
  obtain s s' where s: "with_allocated network ps = Ok s" "allocate_subnet_len s DEFAULT_SUBNET_BITS = Ok (p, s')"
    using assms(1) by (auto simp: allocate_machine_subnet_def rbind_eq_Ok map_ok_eq_Ok map_err_eq_Ok)
  note w = with_allocated_ok [OF s(1) assms(2,3)]
  note f = allocate_subnet_len_Ok [OF s(2) w(1)]
  have "contains (ipam_network s) a" if "contains p a" for a
    using contains_subset [OF _ f(2) _ f(1) that] f(3,4) w(1) by (simp add: ipam_ok_def)
  then show ?thesis using f w by (auto simp: list_ex_iff)
qed


section \<open>Handlers and the store\<close>

text \<open>What is untouched by everything but the creation and the deletion of a machine.\<close>

definition holds :: "('s \<Rightarrow> string \<Rightarrow> string option) \<Rightarrow> ('s \<Rightarrow> machine_info list) \<Rightarrow> ('s \<Rightarrow> bool) \<Rightarrow> (string \<Rightarrow> string option) \<Rightarrow> machine_info list \<Rightarrow> 's \<Rightarrow> bool" where
  "holds cells machines typed C M s \<longleftrightarrow> cells s = C \<and> machines s = M \<and> typed s"

context cluster_store
begin

abbreviation unchanged :: "(string \<Rightarrow> string option) \<Rightarrow> machine_info list \<Rightarrow> 's \<Rightarrow> bool" where
  "unchanged \<equiv> holds cells machines typed"

lemma list_keeps [keeps_intros]: "keeps (unchanged C M) (sa_list_machines sa)"
  by (rule keepsI) (auto simp: holds_def dest: list_machines)

lemma get_string_keeps [keeps_intros]: "keeps (unchanged C M) (sa_get_string sa key)"
  by (rule keepsI) (auto simp: holds_def dest: get_string)

lemma get_bytes_keeps [keeps_intros]: "keeps (unchanged C M) (sa_get_bytes sa key)"
  by (rule keepsI) (auto simp: holds_def dest: get_bytes)

lemma cluster_network_keeps [keeps_intros]: "keeps (unchanged C M) (cluster_network sa)"
  unfolding cluster_network_def by (intro keeps_intros)

lemma plan_keeps [keeps_intros]: "keeps (unchanged C M) (plan_machine sa env request)"
  unfolding plan_machine_def by (intro keeps_intros) (auto intro!: keeps_intros)

lemma plan_state: "plan_machine sa env request s = (r, t) \<Longrightarrow> typed s \<Longrightarrow> cells t = cells s \<and> machines t = machines s \<and> typed t"
  using keepsD [OF plan_keeps, of "cells s" "machines s" s env request r t] by (simp add: holds_def)

lemma cluster_network_Ok: "cluster_network sa s = (Ok p, t) \<Longrightarrow> prefix_ok p \<and> (\<exists>v. cells s NETWORK_KEY = Some v \<and> ip_prefix_from_str v = Ok p)"
  using get_string [of NETWORK_KEY s] ip_prefix_from_str_ok
  by (fastforce simp: cluster_network_def action_Ok map_err_eq_Ok split: option.splits)

text \<open>
  The machine that is planned. It is well formed, and apart from every machine of the listing; with a
  complete listing, from every machine of the store.
\<close>

lemma plan_parts:
  assumes "plan_machine sa env request s = (Ok m, t)" "typed s"
  obtains network ms ps mid name management p prefix u where
    "request_network request = Ok network" "sa_list_machines sa s = (Ok ms, u)"
    "scan_machines (ar_name request) (requested_management network) (nc_public_key network) ms = Ok ps"
    "machine_identity env (ar_name request) = Ok (mid, name)" "management_address network = Ok management"
    "cluster_network sa u = (Ok prefix, t)" "allocate_machine_subnet prefix ps = Ok p"
    "m = new_machine mid name network management p (ar_public_ip request)"
  using assms(1) by (auto simp: plan_machine_def action_Ok split: prod.splits)

end


section \<open>What an addition stores\<close>

context cluster_store
begin

lemma planned_machine:
  assumes "plan_machine sa env request s = (Ok m, t)" "typed s"
  shows "machine_ok m"
proof -
  obtain network ms ps mid name management p prefix u where
    network: "request_network request = Ok network"
    and listed: "sa_list_machines sa s = (Ok ms, u)"
    and scan: "scan_machines (ar_name request) (requested_management network) (nc_public_key network) ms = Ok ps"
    and identity: "machine_identity env (ar_name request) = Ok (mid, name)"
    and management: "management_address network = Ok management"
    and prefix: "cluster_network sa u = (Ok prefix, t)" "allocate_machine_subnet prefix ps = Ok p"
    and m: "m = new_machine mid name network management p (ar_public_ip request)"
    by (rule plan_parts [OF assms(1,2)])
  have p: "prefix_ok p" "pfx_bits p = DEFAULT_SUBNET_BITS"
    using allocate_machine_subnet_Ok [OF prefix(2)] cluster_network_Ok [OF prefix(1)] scan_machines_Ok [OF scan] by blast+
  have valid: "network_config_validate network = Ok ()" using network by (auto simp: request_network_def rbind_eq_Ok split: if_splits)
  then have "is_ok (to_addr management)"
    using management to_addr_ip_new
    by (auto simp: management_address_def network_config_validate_Ok map_ok_eq_Ok map_err_eq_Ok split: option.splits)
  then obtain a where "to_addr management = Ok a" by (auto simp: is_ok_iff)
  moreover have "is_ok (to_prefix (prefix_to_proto p))"
    using prefix_proto_roundtrip [OF p(1)] by (auto simp: prefix_from_proto_def rbind_eq_Ok is_ok_iff)
  ultimately have "network_config_validate \<lparr>nc_subnet = Some (prefix_to_proto p), nc_management_ip = Some management,
      nc_endpoints = nc_endpoints network, nc_public_key = nc_public_key network\<rparr> = Ok ()"
    using valid by (simp add: network_config_validate_Ok)
  then have "network_valid m = Ok True" by (simp add: network_valid_def m new_machine_def)
  with p \<open>to_addr management = Ok a\<close> show ?thesis
    by (simp add: machine_ok_def machine_management_def machine_subnet_def m new_machine_def prefix_proto_roundtrip)
qed

lemma planned_separate:
  assumes "plan_machine sa env request s = (Ok m, t)" "typed s" "complete s" "list_all machine_ok (machines s)"
  shows "\<forall>n\<in>set (machines s). separate n m"
proof -
  obtain network ms ps mid name management p prefix u where
    network: "request_network request = Ok network"
    and listed: "sa_list_machines sa s = (Ok ms, u)"
    and scan: "scan_machines (ar_name request) (requested_management network) (nc_public_key network) ms = Ok ps"
    and identity: "machine_identity env (ar_name request) = Ok (mid, name)"
    and management: "management_address network = Ok management"
    and prefix: "cluster_network sa u = (Ok prefix, t)" "allocate_machine_subnet prefix ps = Ok p"
    and m: "m = new_machine mid name network management p (ar_public_ip request)"
    by (rule plan_parts [OF assms(1,2)])
  have "mset ms = mset (machines s)" using list_machines_typed [OF listed assms(2)] assms(3) by simp
  then have ms: "set (machines s) = set ms" by (metis set_mset_mset)
  note facts = scan_machines_Ok [OF scan]
  have p: "prefix_ok p" "\<forall>q\<in>set ps. \<not> overlaps q p"
    using allocate_machine_subnet_Ok [OF prefix(2)] cluster_network_Ok [OF prefix(1)] facts by blast+
  then have subnet: "machine_subnet m = Some p" by (simp add: machine_subnet_def m new_machine_def prefix_proto_roundtrip)
  show ?thesis
  proof
    fix n assume "n \<in> set (machines s)"
    then have n: "n \<in> set ms" using ms by simp
    have "machine_subnet n \<in> Some ` set ps" using facts n by (metis image_eqI image_set)
    then obtain q where "machine_subnet n = Some q" "q \<in> set ps" by blast
    with p subnet n facts show "separate n m" by (auto simp: separate_def machine_key_def m new_machine_def)
  qed
qed

text \<open>An addition either leaves the machines alone or appends the machine it planned.\<close>

lemma add_machine_shape:
  assumes "add_machine_without_ready_check sa env request s = (r, t)" "typed s"
  shows "typed t \<and> cells t = cells s \<and>
    (machines t = machines s \<and> \<not> is_ok r \<or>
     (\<exists>m u. plan_machine sa env request s = (Ok m, u) \<and> machine_ok m \<and> mi_id m \<notin> mi_id ` set (machines s)
        \<and> machines t = machines s @ [m] \<and> (\<forall>a. r = Ok a \<longrightarrow> a = m)))"
proof (cases "plan_machine sa env request s")
  case (Pair q u)
  note u = plan_state [OF Pair assms(2)]
  show ?thesis
  proof (cases q)
    case (Inl e)
    then have "t = u \<and> r = Err e" using assms(1) Pair by (simp add: add_machine_without_ready_check_def and_then_def)
    then show ?thesis using u by simp
  next
    case (Inr m)
    obtain r' t' where c: "sa_create_machine sa m u = (r', t')" by force
    then have r': "sa_create_machine sa m u = (r', t)" "is_ok r = is_ok r'" "\<forall>a. r = Ok a \<longrightarrow> a = m"
      using assms(1) Pair Inr by (cases r'; auto simp: add_machine_without_ready_check_def and_then_def with_err_def)+
    have ok: "machine_ok m" using planned_machine Pair Inr assms(2) by blast
    then have "network_valid m = Ok True" by (simp add: machine_ok_def)
    with create_machine [OF r'(1)] u have "cells t = cells s" "typed t"
      "mi_id m \<notin> mi_id ` set (machines s) \<and> machines t = machines s @ [m] \<or> \<not> is_ok r' \<and> machines t = machines s"
      by simp_all
    then show ?thesis using r'(2,3) ok Pair Inr by auto
  qed
qed

text \<open>With a complete listing the machine fits the others.\<close>

lemma add_machine_state:
  assumes "add_machine_without_ready_check sa env request s = (r, t)" "typed s" "complete s" "machines_ok (machines s)"
  shows "typed t \<and> cells t = cells s \<and> machines_ok (machines t) \<and>
    (machines t = machines s \<and> \<not> is_ok r \<or> (\<exists>m. machines t = machines s @ [m] \<and> (\<forall>a. r = Ok a \<longrightarrow> a = m)))"
proof -
  have "machines_ok (machines s @ [m])"
    if "plan_machine sa env request s = (Ok m, u)" "machine_ok m" "mi_id m \<notin> mi_id ` set (machines s)" for m u
    using planned_separate [OF that(1) assms(2,3)] machines_ok_add [OF assms(4) that(2,3)] assms(4) by (simp add: machines_ok_def)
  then show ?thesis using add_machine_shape [OF assms(1,2)] assms(4) by fastforce
qed

end


section \<open>Runs of the service\<close>

text \<open>
  The service starts with no machines and answers requests one after the other. Between two requests
  the database may change in ways that do not show in its tables, as when statements begin to fail.
  The last argument is a condition on the states in which machines are added: that the listing arrives
  completely, or none, when every run of the service is meant.
\<close>

inductive cluster_run ::
  "'s store_access \<Rightarrow> ('s \<Rightarrow> string \<Rightarrow> string option) \<Rightarrow> ('s \<Rightarrow> machine_info list) \<Rightarrow> ('s \<Rightarrow> bool) \<Rightarrow> ('s \<Rightarrow> bool) \<Rightarrow> 's cluster \<Rightarrow> bool"
  for sa cells machines typed admits where
  start: "machines (cl_store c) = [] \<Longrightarrow> typed (cl_store c) \<Longrightarrow> cluster_run sa cells machines typed admits c"
| initialise: "cluster_run sa cells machines typed admits c \<Longrightarrow>
    cluster_run sa cells machines typed admits (snd (cluster_init sa now network c))"
| initialised: "cluster_run sa cells machines typed admits c \<Longrightarrow> cluster_run sa cells machines typed admits (signal_initialised c)"
| ready: "cluster_run sa cells machines typed admits c \<Longrightarrow> cluster_run sa cells machines typed admits (signal_ready c)"
| rename: "cluster_run sa cells machines typed admits c \<Longrightarrow> cluster_run sa cells machines typed admits (update_machine_id mid c)"
| add: "cluster_run sa cells machines typed admits c \<Longrightarrow> admits (cl_store c) \<Longrightarrow>
    cluster_run sa cells machines typed admits (snd (add_machine sa env request c))"
| add_unready: "cluster_run sa cells machines typed admits c \<Longrightarrow> admits (cl_store c) \<Longrightarrow>
    cluster_run sa cells machines typed admits (snd (on_store (add_machine_without_ready_check sa env request) c))"
| remove: "cluster_run sa cells machines typed admits c \<Longrightarrow> cluster_run sa cells machines typed admits (snd (remove_machine sa mid c))"
| listing: "cluster_run sa cells machines typed admits c \<Longrightarrow> cluster_run sa cells machines typed admits (snd (list_machines_inner sa states c))"
| reserve: "cluster_run sa cells machines typed admits c \<Longrightarrow>
    cluster_run sa cells machines typed admits (snd (reserve_domain_inner lib dns sa endpoint c))"
| get: "cluster_run sa cells machines typed admits c \<Longrightarrow> cluster_run sa cells machines typed admits (snd (get_domain_inner lib dns sa c))"
| release: "cluster_run sa cells machines typed admits c \<Longrightarrow>
    cluster_run sa cells machines typed admits (snd (release_domain_inner lib dns sa c))"
| records: "cluster_run sa cells machines typed admits c \<Longrightarrow>
    cluster_run sa cells machines typed admits (snd (create_domain_records_inner lib dns sa rs c))"
| elsewhere: "cluster_run sa cells machines typed admits c \<Longrightarrow> cells s = cells (cl_store c) \<Longrightarrow> machines s = machines (cl_store c) \<Longrightarrow>
    typed s = typed (cl_store c) \<Longrightarrow> cluster_run sa cells machines typed admits (c\<lparr>cl_store := s\<rparr>)"

lemma keeps_on_store [keeps_intros]: "keeps P m \<Longrightarrow> keeps (\<lambda>c. P (cl_store c)) (on_store m)"
  by (rule keepsI) (auto simp: on_store_def dest: keepsD split: prod.splits)

lemma keeps_check_ready [keeps_intros]: "keeps P check_ready"
  by (simp add: keeps_def check_ready_def)

definition well_stored :: "(machine_info list \<Rightarrow> bool) \<Rightarrow> ('s \<Rightarrow> bool) \<Rightarrow> ('s \<Rightarrow> machine_info list) \<Rightarrow> 's \<Rightarrow> bool" where
  "well_stored Q typed machines s \<longleftrightarrow> typed s \<and> Q (machines s)"

context cluster_store
begin

abbreviation store_ok :: "(machine_info list \<Rightarrow> bool) \<Rightarrow> 's \<Rightarrow> bool" where
  "store_ok Q \<equiv> well_stored Q typed machines"

lemma keeps_store_ok: "(\<And>C M. keeps (unchanged C M) m) \<Longrightarrow> keeps (store_ok Q) m"
  by (fastforce simp: keeps_def holds_def well_stored_def)

lemma write_keeps [keeps_intros]:
  "keeps (store_ok Q) (sa_put_string sa key v)" "keeps (store_ok Q) (sa_put_bytes sa key bytes)" "keeps (store_ok Q) (sa_delete sa key)"
  "keeps (store_ok Q) (sa_delete_machine_containers sa mid)"
  by (rule keepsI; auto simp: well_stored_def dest: put_string put_bytes delete delete_machine_containers)+

lemma delete_machine_keeps: "(\<And>ms P. Q ms \<Longrightarrow> Q (filter P ms)) \<Longrightarrow> keeps (store_ok Q) (sa_delete_machine sa mid)"
proof (rule keepsI)
  fix s r t
  assume closed: "\<And>ms P. Q ms \<Longrightarrow> Q (filter P ms)" and "store_ok Q s" "sa_delete_machine sa mid s = (r, t)"
  then show "store_ok Q t" using delete_machine [of mid s r t] closed by (auto simp: well_stored_def)
qed

lemma read_keeps [keeps_intros]:
  "keeps (store_ok Q) (sa_list_machines sa)" "keeps (store_ok Q) (sa_get_string sa key)" "keeps (store_ok Q) (sa_get_bytes sa key)"
  by (intro keeps_store_ok keeps_intros)+

lemma stored_domain_keeps [keeps_intros]: "keeps (store_ok Q) (read_stored_domain lib dns sa)"
  unfolding read_stored_domain_def by (intro keeps_intros)

lemma no_domain_yet_keeps [keeps_intros]: "keeps (store_ok Q) (no_domain_yet lib dns sa)"
  using stored_domain_keeps [of Q lib dns]
  by (fastforce simp: keeps_def no_domain_yet_def split: prod.splits sum.splits fault.splits)

lemma init_keeps: "keeps (\<lambda>c. store_ok Q (cl_store c)) (cluster_init sa now network)"
proof -
  have "keeps (store_ok Q) (and_then (with_err (InitStore ''put network to store'') (sa_put_string sa NETWORK_KEY (ip_prefix_display network)))
      (\<lambda>_. with_err (InitStore ''put created_at to store'') (sa_put_string sa CREATED_AT_KEY (rfc3339_utc now))))"
    by (intro keeps_intros)
  from keeps_on_store [OF this] show ?thesis by (simp add: keeps_def cluster_init_def)
qed

lemma remove_keeps:
  assumes "\<And>ms P. Q ms \<Longrightarrow> Q (filter P ms)"
  shows "keeps (\<lambda>c. store_ok Q (cl_store c)) (remove_machine sa mid)"
proof -
  have "keeps (store_ok Q) (\<lambda>s. let s = snd (sa_delete_machine_containers sa mid s) in with_err g (sa_delete_machine sa mid) s)" for g :: "store_error \<Rightarrow> status fault"
    using write_keeps(4) [of Q mid] keeps_with_err [OF delete_machine_keeps [of Q mid], of g] assms unfolding keeps_def Let_def by blast
  from keeps_on_store [OF this] show ?thesis
    unfolding remove_machine_def by (intro keeps_and_then keeps_check_ready) (simp add: keeps_pure)
qed

lemma listing_keeps: "keeps (\<lambda>c. store_ok Q (cl_store c)) (list_machines_inner sa states)"
  unfolding list_machines_inner_def by (intro keeps_intros) (simp add: keeps_def)

lemma domain_keeps:
  "keeps (\<lambda>c. store_ok Q (cl_store c)) (reserve_domain_inner lib dns sa endpoint)"
  "keeps (\<lambda>c. store_ok Q (cl_store c)) (get_domain_inner lib dns sa)"
  "keeps (\<lambda>c. store_ok Q (cl_store c)) (release_domain_inner lib dns sa)"
  "keeps (\<lambda>c. store_ok Q (cl_store c)) (create_domain_records_inner lib dns sa records)"
  unfolding reserve_domain_inner_def get_domain_inner_def release_domain_inner_def create_domain_records_inner_def
  by (auto intro!: keeps_intros)

lemma run_well_stored:
  assumes "cluster_run sa cells machines typed admits c" "Q []" "\<And>ms P. Q ms \<Longrightarrow> Q (filter P ms)"
    and added: "\<And>s env request r t. store_ok Q s \<Longrightarrow> admits s \<Longrightarrow> add_machine_without_ready_check sa env request s = (r, t) \<Longrightarrow> store_ok Q t"
  shows "store_ok Q (cl_store c)"
proof -
  have add_keeps: "store_ok Q (cl_store (snd (on_store (add_machine_without_ready_check sa env request) c)))"
    if "store_ok Q (cl_store c)" "admits (cl_store c)" for c :: "'s cluster" and env request
    using added [OF that, of env request] by (auto simp: on_store_def split: prod.splits)
  show ?thesis using assms(1)
  proof (induction rule: cluster_run.induct)
    case (start c)
    then show ?case using assms(2) by (simp add: well_stored_def)
  next
    case (initialise c now network)
    then show ?case using init_keeps unfolding keeps_def by blast
  next
    case (add c env request)
    then show ?case using add_keeps [of c env request] by (simp add: add_machine_def and_then_def check_ready_def)
  next
    case (add_unready c env request)
    then show ?case by (blast intro: add_keeps)
  next
    case (remove c mid)
    then show ?case using remove_keeps [of Q mid] assms(3) unfolding keeps_def by blast
  next
    case (listing c states)
    then show ?case using listing_keeps unfolding keeps_def by blast
  next
    case (reserve c lib dns endpoint)
    then show ?case using domain_keeps(1) unfolding keeps_def by blast
  next
    case (get c lib dns)
    then show ?case using domain_keeps(2) unfolding keeps_def by blast
  next
    case (release c lib dns)
    then show ?case using domain_keeps(3) unfolding keeps_def by blast
  next
    case (records c lib dns rs)
    then show ?case using domain_keeps(4) unfolding keeps_def by blast
  next
    case (elsewhere c s)
    then show ?case by (simp add: well_stored_def)
  qed (simp_all add: signal_initialised_def signal_ready_def update_machine_id_def)
qed

lemma run_store_ok: "cluster_run sa cells machines typed complete c \<Longrightarrow> store_ok machines_ok (cl_store c)"
  using machines_ok_filter add_machine_state
  by (elim run_well_stored) (auto simp: machines_ok_def well_stored_def list_all_iff)

text \<open>Without a condition on the listings the machines are still well formed.\<close>

lemma run_machines_formed: "cluster_run sa cells machines typed admits c \<Longrightarrow> store_ok (list_all machine_ok) (cl_store c)"
proof (elim run_well_stored)
  fix s env request r t
  assume "store_ok (list_all machine_ok) s" "add_machine_without_ready_check sa env request s = (r, t)"
  then show "store_ok (list_all machine_ok) t" using add_machine_shape [of env request s r t] by (auto simp: well_stored_def)
qed (auto simp: list_all_iff)

end


section \<open>Panics\<close>

lemma member_of_machine_ok: "machine_ok m \<Longrightarrow> is_ok (member_of_machine states local_id m)"
  by (cases "mi_network m") (auto simp: machine_ok_def machine_management_def member_of_machine_def bind_eq_Some_conv is_ok_iff)

lemma machine_members_ok: "list_all machine_ok ms \<Longrightarrow> is_ok (collect_ok (map (member_of_machine states local_id) ms))"
proof (induction ms)
  case (Cons m ms)
  then have "is_ok (member_of_machine states local_id m)" "is_ok (collect_ok (map (member_of_machine states local_id) ms))"
    by (simp_all add: member_of_machine_ok)
  then show ?case by (auto simp: is_ok_iff)
qed simp

lemma no_panic_sources:
  "\<not> panics (machine_identity env name)" "\<not> panics (management_address network)" "\<not> panics (allocate_machine_subnet prefix ps)"
  by (auto simp: machine_identity_def management_address_def allocate_machine_subnet_def panics_def map_ok_def map_err_def
      split: option.splits sum.splits)

lemma panics_fault_map [simp]: "panics (map_err (fault_map h) r) \<longleftrightarrow> panics r"
  by (auto simp: map_err_def panics_def fault_map_def split: sum.splits fault.splits)

lemma panics_and_then: "panics (fst (and_then m f s)) \<longleftrightarrow> panics (fst (m s)) \<or> (\<exists>a t. m s = (Ok a, t) \<and> panics (fst (f a t)))"
  by (cases "m s"; cases "fst (m s)") (auto simp: and_then_def panics_Err)

lemma panics_with_err: "panics (fst (with_err (\<lambda>e. Fail (g e)) m s)) \<longleftrightarrow> False"
  "panics (fst (with_err (fault_map h) m' s)) \<longleftrightarrow> panics (fst (m' s))"
  by (cases "m s"; cases "m' s"; auto simp: with_err_def map_err_def panics_def fault_map_def split: sum.splits fault.splits)+

context cluster_store
begin

lemma list_no_panic: "typed s \<Longrightarrow> \<not> panics (fst (sa_list_machines sa s))"
  using list_machines_typed [of s] by (cases "sa_list_machines sa s") auto

lemma listed_ok: "store_ok (list_all machine_ok) s \<Longrightarrow> sa_list_machines sa s = (Ok ms, t) \<Longrightarrow> list_all machine_ok ms"
  using list_machines_typed [of s "Ok ms" t] mset_subset_eqD [of "mset ms" "mset (machines s)"]
  by (auto simp: well_stored_def list_all_iff)

lemma cluster_network_no_panic: "\<not> panics (fst (cluster_network sa s))"
  by (auto simp: cluster_network_def panics_and_then panics_with_err)

lemma plan_no_panic:
  assumes "store_ok (list_all machine_ok) s" "\<not> panics (request_network request)"
  shows "\<not> panics (fst (plan_machine sa env request s))"
proof -
  have "\<not> panics (fst (sa_list_machines sa s))" using list_no_panic assms(1) by (simp add: well_stored_def)
  moreover have "\<not> panics (scan_machines name requested public_key ms)"
    if "with_err g (sa_list_machines sa) s = (Ok ms, t)" for g :: "store_error fault \<Rightarrow> status fault" and name requested public_key ms t
    using that listed_ok [OF assms(1)] scan_machines_no_panic by (simp add: with_err_Ok)
  ultimately show ?thesis
    using assms(2) no_panic_sources cluster_network_no_panic
    by (auto simp: plan_machine_def panics_and_then panics_with_err split: prod.splits)
qed

lemma add_no_panic:
  assumes "store_ok (list_all machine_ok) (cl_store c)" "\<not> panics (request_network request)"
  shows "\<not> panics (fst (add_machine sa env request c))"
proof -
  have "\<not> panics (fst (add_machine_without_ready_check sa env request (cl_store c)))"
    using plan_no_panic [OF assms] by (auto simp: add_machine_without_ready_check_def panics_and_then panics_with_err)
  then show ?thesis
    by (auto simp: add_machine_def panics_and_then check_ready_def on_store_def split: prod.splits)
qed

lemma listing_no_panic:
  assumes "store_ok (list_all machine_ok) (cl_store c)"
  shows "\<not> panics (fst (list_machines_inner sa states c))"
proof -
  have "\<not> panics (collect_ok (map (member_of_machine st mid) ms))" if "sa_list_machines sa (cl_store c) = (Ok ms, t)" for st mid ms t
    using machine_members_ok [OF listed_ok [OF assms that], of st mid] by (auto simp: is_ok_iff)
  moreover have "\<not> panics (fst (sa_list_machines sa (cl_store c)))" using list_no_panic assms by (simp add: well_stored_def)
  ultimately show ?thesis
    by (auto simp: list_machines_inner_def panics_and_then panics_with_err check_ready_def on_store_def with_err_def is_ok_iff
        map_err_eq_Ok split: prod.splits)
qed

end

end
