(* ===== verification/Cluster_Safety.thy ===== *)
theory Cluster_Safety
  imports Cluster_Run
begin

text \<open>
  The properties of the cluster service: the machines in the store never share a subnet or a key as
  long as the listings arrive completely, the stored rows never make a handler panic, and two additions
  that see the same listing hand out the same subnet.
\<close>

section \<open>A sample cluster\<close>

definition sample_store :: "memory store_access" where
  "sample_store = store_access_of plain_lib (memory_backend plain_lib)"

abbreviation sample_machines :: "memory \<Rightarrow> machine_info list" where
  "sample_machines m \<equiv> stored_machines plain_lib (mem_tables m)"

abbreviation sample_cells :: "memory \<Rightarrow> string \<Rightarrow> string option" where
  "sample_cells m \<equiv> tb_cluster (mem_tables m)"

abbreviation sample_typed :: "memory \<Rightarrow> bool" where
  "sample_typed m \<equiv> typed_rows plain_lib (mem_tables m)"

abbreviation sample_complete :: "memory \<Rightarrow> bool" where
  "sample_complete \<equiv> listing_complete (memory_backend plain_lib)"

lemma sample_cluster_store:
  "cluster_store sample_store sample_cells sample_machines sample_typed sample_complete (lib_b64_encode plain_lib)"
  unfolding sample_store_def by (rule memory.store.cluster_store_axioms)

definition sample_network :: "8 word \<Rightarrow> network_config" where
  "sample_network k = \<lparr>nc_subnet = None, nc_management_ip = None,
     nc_endpoints = [\<lparr>pb_port_ip = Some \<lparr>pb_ip_bytes = [1, 2, 3, 4]\<rparr>, pb_port_port = 51820\<rparr>], nc_public_key = replicate 32 k\<rparr>"

definition sample_request :: "string \<Rightarrow> 8 word \<Rightarrow> add_machine_request" where
  "sample_request name k = \<lparr>ar_name = name, ar_network = Some (sample_network k), ar_public_ip = None\<rparr>"

definition sample_env :: "8 word \<Rightarrow> cluster_env" where
  "sample_env k = \<lparr>ce_fill = (\<lambda>n. Ok (replicate n k)), ce_random_name = Ok ''machine-abcd''\<rparr>"

definition sample_memory :: "(string \<times> string) list \<Rightarrow> nat option \<Rightarrow> memory" where
  "sample_memory rows stream =
     \<lparr>mem_tables = \<lparr>tb_cluster = [NETWORK_KEY \<mapsto> ''10.210.0.0/16''], tb_machines = rows\<rparr>, mem_failing = [], mem_stream = stream\<rparr>"

text \<open>Machines with a key of one repeated byte, whose identifier comes from the same random bytes.\<close>

definition sample_machine :: "8 word \<Rightarrow> string \<Rightarrow> ip_prefix \<Rightarrow> machine_info" where
  "sample_machine k name p =
     new_machine (hex_encode (replicate 16 k)) name (sample_network k) \<lparr>pb_ip_bytes = [0xFD, 0xCC] @ replicate 14 k\<rparr> p None"

definition sample_row :: "machine_info \<Rightarrow> string \<times> string" where
  "sample_row m = (mi_id m, projr (encode_machine plain_lib m))"

definition subnet_0 :: ip_prefix where "subnet_0 = \<lparr>pfx_address = V4 0x0AD20000, pfx_bits = 24\<rparr>"
definition subnet_1 :: ip_prefix where "subnet_1 = \<lparr>pfx_address = V4 0x0AD20100, pfx_bits = 24\<rparr>"

lemma sample_row_ok:
  "network_valid m = Ok True \<Longrightarrow> row_ok plain_lib (sample_row m) \<and> row_machine plain_lib (sample_row m) = m"
  using memory.encoded_row [of m] by (auto simp: sample_row_def)

lemma sample_memory_machines:
  assumes "list_all (\<lambda>m. network_valid m = Ok True) ms"
  shows "sample_typed (sample_memory (map sample_row ms) stream)" "sample_machines (sample_memory (map sample_row ms) stream) = ms"
  using assms sample_row_ok by (induction ms) (auto simp: sample_memory_def typed_rows_def stored_machines_def)

lemma sample_machines_valid:
  "network_valid (sample_machine 1 ''one'' subnet_0) = Ok True" "network_valid (sample_machine 2 ''two'' subnet_1) = Ok True"
  "network_valid (sample_machine 3 ''three'' subnet_1) = Ok True"
  by code_simp+

lemma sample_requests:
  "request_network (sample_request ''one'' 1) = Ok (sample_network 1)"
  "request_network (sample_request ''two'' 2) = Ok (sample_network 2)"
  "request_network (sample_request ''three'' 3) = Ok (sample_network 3)"
  "management_address (sample_network 1) = Ok \<lparr>pb_ip_bytes = [0xFD, 0xCC] @ replicate 14 1\<rparr>"
  "management_address (sample_network 2) = Ok \<lparr>pb_ip_bytes = [0xFD, 0xCC] @ replicate 14 2\<rparr>"
  "management_address (sample_network 3) = Ok \<lparr>pb_ip_bytes = [0xFD, 0xCC] @ replicate 14 3\<rparr>"
  "machine_identity (sample_env 1) ''one'' = Ok (hex_encode (replicate 16 1), ''one'')"
  "machine_identity (sample_env 2) ''two'' = Ok (hex_encode (replicate 16 2), ''two'')"
  "machine_identity (sample_env 3) ''three'' = Ok (hex_encode (replicate 16 3), ''three'')"
  by code_simp+

lemma sample_scans:
  "scan_machines ''two'' None (replicate 32 2) [sample_machine 1 ''one'' subnet_0] = Ok [subnet_0]"
  "scan_machines ''three'' None (replicate 32 3) [sample_machine 1 ''one'' subnet_0] = Ok [subnet_0]"
  by code_simp+

lemma sample_prefixes:
  "ip_prefix_from_str ''10.210.0.0/16'' = Ok DEFAULT_NETWORK"
  "allocate_machine_subnet DEFAULT_NETWORK [] = Ok subnet_0"
  "allocate_machine_subnet DEFAULT_NETWORK [subnet_0] = Ok subnet_1"
  by code_simp+

lemma plan_machine_eval:
  assumes "request_network request = Ok network" "sa_list_machines sa s = (Ok ms, u)"
    and "scan_machines (ar_name request) (requested_management network) (nc_public_key network) ms = Ok ps"
    and "machine_identity env (ar_name request) = Ok (mid, name)" "management_address network = Ok management"
    and "cluster_network sa u = (Ok prefix, t)" "allocate_machine_subnet prefix ps = Ok p"
  shows "plan_machine sa env request s = (Ok (new_machine mid name network management p (ar_public_ip request)), t)"
  using assms by (simp add: plan_machine_def and_then_def with_err_def)

text \<open>An addition on the tables in memory, from the listing \<open>listed\<close>: the plan, and the creation.\<close>

lemma sample_plan:
  assumes ms: "list_all (\<lambda>m. network_valid m = Ok True) ms" "stream \<noteq> Some 0"
      "(case stream of None \<Rightarrow> ms | Some n \<Rightarrow> take n ms) = listed"
    and request: "request_network (sample_request name k) = Ok (sample_network k)"
      "management_address (sample_network k) = Ok \<lparr>pb_ip_bytes = [0xFD, 0xCC] @ replicate 14 k\<rparr>"
      "machine_identity (sample_env k) name = Ok (hex_encode (replicate 16 k), name)"
      "scan_machines name None (replicate 32 k) listed = Ok ps" "allocate_machine_subnet DEFAULT_NETWORK ps = Ok p"
  shows "plan_machine sample_store (sample_env k) (sample_request name k) (sample_memory (map sample_row ms) stream) =
    (Ok (sample_machine k name p), sample_memory (map sample_row ms) stream)"
proof -
  let ?s = "sample_memory (map sample_row ms) stream"
  have s: "mem_failing ?s = []" "mem_stream ?s \<noteq> Some 0" "sample_cells ?s NETWORK_KEY = Some ''10.210.0.0/16''"
    using ms(2) by (simp_all add: sample_memory_def)
  note typed = sample_memory_machines [OF ms(1), of stream]
  have "sa_list_machines sample_store ?s = (Ok listed, ?s)"
    using memory_list_machines [OF s(1) typed(1)] ms(3) unfolding typed(2)
    by (simp add: sample_store_def store_access_of_def sample_memory_def [of _ stream])
  moreover have "cluster_network sample_store ?s = (Ok DEFAULT_NETWORK, ?s)"
    using memory_get_string [OF s]
    by (simp add: cluster_network_def sample_store_def store_access_of_def and_then_def with_err_def sample_prefixes(1))
  moreover have "scan_machines (ar_name (sample_request name k)) (requested_management (sample_network k))
      (nc_public_key (sample_network k)) listed = Ok ps"
    using request(4) by (simp add: sample_request_def sample_network_def requested_management_def)
  moreover have "machine_identity (sample_env k) (ar_name (sample_request name k)) = Ok (hex_encode (replicate 16 k), name)"
    using request(3) by (simp add: sample_request_def)
  ultimately show ?thesis
    using plan_machine_eval request(1,2,5) by (force simp: sample_machine_def sample_request_def)
qed

lemma sample_create:
  assumes "mi_id m \<notin> mi_id ` set ms"
  shows "sa_create_machine sample_store m (sample_memory (map sample_row ms) stream) = (Ok (), sample_memory (map sample_row (ms @ [m])) stream)"
proof -
  have "mi_id m \<notin> fst ` set (tb_machines (mem_tables (sample_memory (map sample_row ms) stream)))"
    using assms by (force simp: sample_memory_def sample_row_def)
  moreover have "mem_failing (sample_memory (map sample_row ms) stream) = []" by (simp add: sample_memory_def)
  ultimately show ?thesis
    using memory_create_machine by (simp add: sample_store_def store_access_of_def) (simp add: sample_memory_def sample_row_def)
qed

abbreviation machine_one :: machine_info where "machine_one \<equiv> sample_machine 1 ''one'' subnet_0"
abbreviation machine_two :: machine_info where "machine_two \<equiv> sample_machine 2 ''two'' subnet_1"
abbreviation machine_three :: machine_info where "machine_three \<equiv> sample_machine 3 ''three'' subnet_1"

lemma sample_ids: "mi_id machine_one \<noteq> mi_id machine_two" "mi_id machine_one \<noteq> mi_id machine_three" "mi_id machine_two \<noteq> mi_id machine_three"
  by code_simp+

lemmas sample_facts = sample_requests sample_scans sample_prefixes sample_machines_valid

lemma sample_plans:
  "plan_machine sample_store (sample_env 1) (sample_request ''one'' 1) (sample_memory (map sample_row []) None) =
     (Ok machine_one, sample_memory (map sample_row []) None)"
  "plan_machine sample_store (sample_env 2) (sample_request ''two'' 2) (sample_memory (map sample_row [machine_one]) None) =
     (Ok machine_two, sample_memory (map sample_row [machine_one]) None)"
  "plan_machine sample_store (sample_env 3) (sample_request ''three'' 3) (sample_memory (map sample_row [machine_one]) None) =
     (Ok machine_three, sample_memory (map sample_row [machine_one]) None)"
  "plan_machine sample_store (sample_env 3) (sample_request ''three'' 3) (sample_memory (map sample_row [machine_one, machine_two]) (Some 1)) =
     (Ok machine_three, sample_memory (map sample_row [machine_one, machine_two]) (Some 1))"
  by (rule sample_plan [where listed = "[]" and ps = "[]"]; simp add: sample_facts)
    (rule sample_plan [where listed = "[machine_one]" and ps = "[subnet_0]"]; simp add: sample_facts del: scan_machines.simps)+

lemma sample_additions:
  "add_machine_without_ready_check sample_store (sample_env 1) (sample_request ''one'' 1) (sample_memory (map sample_row []) None) =
     (Ok machine_one, sample_memory (map sample_row [machine_one]) None)"
  "add_machine_without_ready_check sample_store (sample_env 2) (sample_request ''two'' 2) (sample_memory (map sample_row [machine_one]) None) =
     (Ok machine_two, sample_memory (map sample_row [machine_one, machine_two]) None)"
  "add_machine_without_ready_check sample_store (sample_env 3) (sample_request ''three'' 3)
     (sample_memory (map sample_row [machine_one, machine_two]) (Some 1)) =
     (Ok machine_three, sample_memory (map sample_row [machine_one, machine_two, machine_three]) (Some 1))"
  unfolding add_machine_without_ready_check_def and_then_def with_err_def sample_plans
  using sample_ids sample_create [of machine_one "[]"] sample_create [of machine_two "[machine_one]"]
    sample_create [of machine_three "[machine_one, machine_two]"]
  by (simp_all del: list.map)

definition sample_cluster :: "memory \<Rightarrow> memory cluster" where
  "sample_cluster m = \<lparr>cl_store = m, cl_machine_id = [], cl_initialised = False, cl_ready = False\<rparr>"

lemma sample_run_admits:
  assumes admits: "\<And>rows. admits (sample_memory rows None)"
  shows "cluster_run sample_store sample_cells sample_machines sample_typed admits
     (sample_cluster (sample_memory (map sample_row [machine_one, machine_two]) None))"
proof -
  let ?run = "cluster_run sample_store sample_cells sample_machines sample_typed admits"
  have "?run (sample_cluster (sample_memory (map sample_row []) None))"
    by (rule cluster_run.start) (simp_all add: sample_cluster_def sample_memory_def stored_machines_def typed_rows_def)
  from cluster_run.add_unready [OF this, of "sample_env 1" "sample_request ''one'' 1"]
  have "?run (sample_cluster (sample_memory (map sample_row [machine_one]) None))"
    using admits by (simp add: on_store_def sample_cluster_def sample_additions(1) [simplified])
  from cluster_run.add_unready [OF this, of "sample_env 2" "sample_request ''two'' 2"]
  show ?thesis using admits by (simp add: on_store_def sample_cluster_def sample_additions(2) [simplified])
qed

lemma sample_run:
  "cluster_run sample_store sample_cells sample_machines sample_typed sample_complete
     (sample_cluster (sample_memory (map sample_row [machine_one, machine_two]) None))"
  by (rule sample_run_admits) (simp add: listing_complete_def memory_backend_def memory_query_def sample_memory_def Let_def)

text \<open>A run in which the third machine is added while the listing breaks off after the first row.\<close>

lemma sample_broken_run:
  "cluster_run sample_store sample_cells sample_machines sample_typed (\<lambda>_. True)
     (sample_cluster (sample_memory (map sample_row [machine_one, machine_two, machine_three]) (Some 1)))"
proof -
  let ?run = "cluster_run sample_store sample_cells sample_machines sample_typed (\<lambda>_. True)"
  let ?s = "sample_memory (map sample_row [machine_one, machine_two])"
  have "?run ((sample_cluster (?s None))\<lparr>cl_store := ?s (Some 1)\<rparr>)"
    by (rule cluster_run.elsewhere [OF sample_run_admits]) (simp_all add: sample_cluster_def sample_memory_def)
  then have "?run (sample_cluster (?s (Some 1)))" by (simp add: sample_cluster_def)
  from cluster_run.add_unready [OF this, of "sample_env 3" "sample_request ''three'' 3"] show ?thesis
    by (simp add: on_store_def sample_cluster_def sample_additions(3) [simplified])
qed

section \<open>Properties\<close>

text \<open>
  (C1) Whatever requests the cluster has answered, with whatever failures of the database, the stored
  machines have different identifiers and different keys, each has a subnet of the default length, and
  no address lies in the subnets of two of them, as long as each addition saw a complete listing.
\<close>

theorem cluster_machines_separate:
  assumes "cluster_store sa cells machines typed complete of_bytes"
    and "cluster_run sa cells machines typed complete c"
    and "{m, n} \<subseteq> set (machines (cl_store c))" "m \<noteq> n"
  shows "mi_id m \<noteq> mi_id n \<and> machine_key m \<noteq> machine_key n \<and>
    (\<exists>p q. machine_subnet m = Some p \<and> machine_subnet n = Some q \<and>
      pfx_bits p = DEFAULT_SUBNET_BITS \<and> pfx_bits q = DEFAULT_SUBNET_BITS \<and> (\<nexists>a. contains p a \<and> contains q a))"
proof -
  have ok: "machines_ok (machines (cl_store c))"
    using cluster_store.run_store_ok [OF assms(1,2)] by (simp add: well_stored_def)
  then have "separate m n" "machine_ok m" "machine_ok n" "mi_id m \<noteq> mi_id n"
    using assms(3,4) by (auto simp: machines_ok_def list_all_iff distinct_map dest: inj_onD)
  then show ?thesis using overlaps_common_address
    by (auto simp: separate_def machine_ok_def split: option.splits)
qed

text \<open>Two machines added one after the other.\<close>

theorem cluster_machines_separate_witness:
  "machine_key machine_one \<noteq> machine_key machine_two \<and>
   (\<exists>p q. machine_subnet machine_one = Some p \<and> machine_subnet machine_two = Some q \<and> (\<nexists>a. contains p a \<and> contains q a))"
proof -
  let ?c = "sample_cluster (sample_memory (map sample_row [machine_one, machine_two]) None)"
  have "sample_machines (cl_store ?c) = [machine_one, machine_two]"
    using sample_memory_machines(2) [of "[machine_one, machine_two]" None] sample_machines_valid by (simp add: sample_cluster_def)
  then have "{machine_one, machine_two} \<subseteq> set (sample_machines (cl_store ?c))" by simp
  moreover have "machine_one \<noteq> machine_two" using sample_ids by metis
  ultimately show ?thesis using cluster_machines_separate [OF sample_cluster_store sample_run] by blast
qed

text \<open>
  (C2) The rows of the store stay well typed: after any run, also one whose listings broke off, each
  row of the machines table holds the machine of its identifier with a valid network. No handler panics
  on what it reads back: neither the listing of the members nor an addition whose request is itself free
  of panics.
\<close>

theorem cluster_never_panics:
  assumes "database lib be tabs"
    and "cluster_run (store_access_of lib be) (\<lambda>s. tb_cluster (tabs s)) (\<lambda>s. stored_machines lib (tabs s))
      (\<lambda>s. typed_rows lib (tabs s)) (\<lambda>_. True) c"
    and "\<not> panics (request_network request)"
  shows "typed_rows lib (tabs (cl_store c)) \<and> \<not> panics (fst (list_machines_inner (store_access_of lib be) states c)) \<and>
    \<not> panics (fst (add_machine (store_access_of lib be) env request c))"
proof -
  have store: "cluster_store (store_access_of lib be) (\<lambda>s. tb_cluster (tabs s)) (\<lambda>s. stored_machines lib (tabs s))
      (\<lambda>s. typed_rows lib (tabs s)) (listing_complete be) (lib_b64_encode lib)"
    using assms(1) by (rule database.store_laws)
  note ok = cluster_store.run_machines_formed [OF store assms(2)]
  then show ?thesis
    using cluster_store.listing_no_panic [OF store ok] cluster_store.add_no_panic [OF store ok assms(3)] by (simp add: well_stored_def)
qed

theorem cluster_never_panics_witness:
  "\<not> panics (fst (list_machines_inner sample_store (Ok [])
     (sample_cluster (sample_memory (map sample_row [machine_one, machine_two, machine_three]) (Some 1)))))"
proof -
  have "\<not> panics (request_network (sample_request ''three'' 3))" by (simp add: sample_requests)
  with cluster_never_panics [OF memory.database_axioms sample_broken_run [unfolded sample_store_def]] show ?thesis
    by (simp add: sample_store_def)
qed

text \<open>Two plans made from the same listing and the same network have the same subnet.\<close>

lemma same_listing_same_subnet:
  assumes laws: "cluster_store sa cells machines typed complete of_bytes"
    and plans: "plan_machine sa env request s = (Ok m, t)" "plan_machine sa env' request' s' = (Ok m', t')"
    and "typed s" "typed s'" "cells s' = cells s" "fst (sa_list_machines sa s') = fst (sa_list_machines sa s)"
  shows "machine_subnet m = machine_subnet m' \<and> machine_subnet m \<noteq> None"
proof -
  obtain network ms ps mid name management p prefix u where a:
    "request_network request = Ok network" "sa_list_machines sa s = (Ok ms, u)"
    "scan_machines (ar_name request) (requested_management network) (nc_public_key network) ms = Ok ps"
    "machine_identity env (ar_name request) = Ok (mid, name)" "management_address network = Ok management"
    "cluster_network sa u = (Ok prefix, t)" "allocate_machine_subnet prefix ps = Ok p"
    "m = new_machine mid name network management p (ar_public_ip request)"
    by (rule cluster_store.plan_parts [OF laws plans(1) assms(4)])
  obtain network' ms' ps' mid' name' management' p' prefix' u' where b:
    "request_network request' = Ok network'" "sa_list_machines sa s' = (Ok ms', u')"
    "scan_machines (ar_name request') (requested_management network') (nc_public_key network') ms' = Ok ps'"
    "machine_identity env' (ar_name request') = Ok (mid', name')" "management_address network' = Ok management'"
    "cluster_network sa u' = (Ok prefix', t')" "allocate_machine_subnet prefix' ps' = Ok p'"
    "m' = new_machine mid' name' network' management' p' (ar_public_ip request')"
    by (rule cluster_store.plan_parts [OF laws plans(2) assms(5)])
  have "ms' = ms" using a(2) b(2) assms(7) by simp
  then have "map Some ps = map Some ps'" using scan_machines_Ok [OF a(3)] scan_machines_Ok [OF b(3)] by simp
  then have ps: "ps' = ps" by (metis list.inj_map_strong option.inject)
  have "cells u = cells u'"
    using cluster_store.list_machines [OF laws a(2)] cluster_store.list_machines [OF laws b(2)] assms(6) by simp
  then have prefix: "prefix' = prefix"
    using cluster_store.cluster_network_Ok [OF laws a(6)] cluster_store.cluster_network_Ok [OF laws b(6)] by auto
  have "prefix_ok p"
    using allocate_machine_subnet_Ok [OF a(7)] cluster_store.cluster_network_Ok [OF laws a(6)] scan_machines_Ok [OF a(3)] by blast
  then show ?thesis using a(7,8) b(7,8) ps prefix by (simp add: machine_subnet_def new_machine_def prefix_proto_roundtrip)
qed

text \<open>
  (C4) The subnet of a new machine rests on the listing alone. When a listing misses the machine that
  was just added, because the stream of rows broke and the store dropped the error that ended it, the
  next machine is stored with the same subnet.
\<close>

theorem stale_listing_reuses_subnet:
  assumes "cluster_store sa cells machines typed complete of_bytes" "typed s" "typed s'"
    and "add_machine_without_ready_check sa env request s = (Ok m, t)"
    and "machines s' = machines t" "cells s' = cells t" "fst (sa_list_machines sa s') = fst (sa_list_machines sa s)"
    and "add_machine_without_ready_check sa env' request' s' = (Ok m', t')"
  shows "{m, m'} \<subseteq> set (machines t') \<and> mi_id m \<noteq> mi_id m' \<and> machine_subnet m = machine_subnet m' \<and> machine_subnet m \<noteq> None"
proof -
  obtain u where u: "plan_machine sa env request s = (Ok m, u)" "sa_create_machine sa m u = (Ok (), t)"
    using assms(4) by (auto simp: add_machine_without_ready_check_def action_Ok)
  obtain u' where u': "plan_machine sa env' request' s' = (Ok m', u')" "sa_create_machine sa m' u' = (Ok (), t')"
    using assms(8) by (auto simp: add_machine_without_ready_check_def action_Ok)
  have valid: "network_valid m = Ok True" "network_valid m' = Ok True"
    using cluster_store.planned_machine [OF assms(1) u(1) assms(2)] cluster_store.planned_machine [OF assms(1) u'(1) assms(3)]
    by (simp_all add: machine_ok_def)
  note states = cluster_store.plan_state [OF assms(1) u(1) assms(2)] cluster_store.plan_state [OF assms(1) u'(1) assms(3)]
  have t: "cells t = cells s" "machines t = machines s @ [m]"
    using cluster_store.create_machine [OF assms(1) u(2) _ valid(1)] states(1) by auto
  have t': "mi_id m' \<notin> mi_id ` set (machines s')" "machines t' = machines s' @ [m']"
    using cluster_store.create_machine [OF assms(1) u'(2) _ valid(2)] states(2) by auto
  have "machine_subnet m = machine_subnet m' \<and> machine_subnet m \<noteq> None"
    using assms(6,7) t(1) by (intro same_listing_same_subnet [OF assms(1) u(1) u'(1) assms(2,3)]) simp_all
  then show ?thesis using t t' assms(5) by auto
qed

text \<open>The third machine is added while the listing breaks off after the first row.\<close>

theorem stale_listing_reuses_subnet_witness:
  "\<exists>t'. add_machine_without_ready_check sample_store (sample_env 3) (sample_request ''three'' 3)
     (sample_memory (map sample_row [machine_one, machine_two]) (Some 1)) = (Ok machine_three, t') \<and>
   {machine_two, machine_three} \<subseteq> set (sample_machines t') \<and> machine_subnet machine_two = machine_subnet machine_three"
proof -
  let ?s = "sample_memory (map sample_row [machine_one]) None"
  let ?s' = "\<lambda>stream. sample_memory (map sample_row [machine_one, machine_two]) stream"
  note one = sample_memory_machines [of "[machine_one]"] and two = sample_memory_machines [of "[machine_one, machine_two]"]
  have valid: "list_all (\<lambda>m. network_valid m = Ok True) [machine_one]" "list_all (\<lambda>m. network_valid m = Ok True) [machine_one, machine_two]"
    using sample_machines_valid by simp_all
  have "fst (sa_list_machines sample_store (?s' (Some 1))) = fst (sa_list_machines sample_store ?s)"
    using memory_list_machines [OF _ one(1) [OF valid(1)], of None] memory_list_machines [OF _ two(1) [OF valid(2)], of "Some 1"]
      one(2) [OF valid(1)] two(2) [OF valid(2)]
    by (simp add: sample_store_def store_access_of_def sample_memory_def)
  moreover have "sample_machines (?s' (Some 1)) = sample_machines (?s' None)" "sample_cells (?s' (Some 1)) = sample_cells (?s' None)"
    by (simp_all add: sample_memory_def)
  ultimately show ?thesis
    using stale_listing_reuses_subnet [OF sample_cluster_store one(1) [OF valid(1)] two(1) [OF valid(2)]
        sample_additions(2) _ _ _ sample_additions(3)] sample_additions(3)
    by blast
qed

text \<open>
  (C5) The listing and the creation of a machine are two statements with nothing to hold the cluster
  still between them. Two additions that both list before either creates store two machines with the
  same subnet, although every listing is complete.
\<close>

theorem concurrent_additions_share_subnet:
  assumes "cluster_store sa cells machines typed complete of_bytes" "typed s"
    and "plan_machine sa env request s = (Ok m, t)" "plan_machine sa env' request' t = (Ok m', t')"
    and "fst (sa_list_machines sa t) = fst (sa_list_machines sa s)"
    and "sa_create_machine sa m t' = (Ok (), u)" "sa_create_machine sa m' u = (Ok (), u')"
  shows "{m, m'} \<subseteq> set (machines u') \<and> mi_id m \<noteq> mi_id m' \<and> machine_subnet m = machine_subnet m' \<and> machine_subnet m \<noteq> None"
proof -
  note t = cluster_store.plan_state [OF assms(1) assms(3) assms(2)]
  note t' = cluster_store.plan_state [OF assms(1) assms(4) conjunct2 [OF conjunct2 [OF t]]]
  have valid: "network_valid m = Ok True" "network_valid m' = Ok True"
    using cluster_store.planned_machine [OF assms(1,3,2)] cluster_store.planned_machine [OF assms(1,4)] t by (simp_all add: machine_ok_def)
  have u: "typed u" "machines u = machines t' @ [m]"
    using cluster_store.create_machine [OF assms(1) assms(6) _ valid(1)] t' by auto
  have u': "mi_id m' \<notin> mi_id ` set (machines u)" "machines u' = machines u @ [m']"
    using cluster_store.create_machine [OF assms(1) assms(7) u(1) valid(2)] by auto
  have "machine_subnet m = machine_subnet m' \<and> machine_subnet m \<noteq> None"
    using t assms(5) by (intro same_listing_same_subnet [OF assms(1,3,4,2)]) simp_all
  then show ?thesis using u u' by auto
qed

theorem concurrent_additions_share_subnet_witness:
  "{machine_two, machine_three} \<subseteq> set (sample_machines (sample_memory (map sample_row [machine_one, machine_two, machine_three]) None)) \<and>
   machine_subnet machine_two = machine_subnet machine_three"
proof -
  have "sample_typed (sample_memory (map sample_row [machine_one]) None)"
    using sample_memory_machines(1) [of "[machine_one]"] sample_machines_valid by simp
  moreover have "sa_create_machine sample_store machine_two (sample_memory (map sample_row [machine_one]) None) =
      (Ok (), sample_memory (map sample_row [machine_one, machine_two]) None)"
    using sample_create [of machine_two "[machine_one]"] sample_ids by (simp del: list.map)
  moreover have "sa_create_machine sample_store machine_three (sample_memory (map sample_row [machine_one, machine_two]) None) =
      (Ok (), sample_memory (map sample_row [machine_one, machine_two, machine_three]) None)"
    using sample_create [of machine_three "[machine_one, machine_two]"] sample_ids by (simp del: list.map)
  ultimately show ?thesis
    using concurrent_additions_share_subnet [OF sample_cluster_store _ sample_plans(2,3) refl] by blast
qed

end
