(* ===== verification/Cluster_Domain.thy ===== *)
theory Cluster_Domain
  imports Cluster_Safety
begin

text \<open>
  The reserved domain of the cluster. Its handlers implement a variable that holds a domain or
  nothing: each answer and each new value is the one of the variable, except that a failure of the
  database is reported as an internal error, after which the operation has been carried out or not.
\<close>

section \<open>The variable\<close>

definition spec_reserve :: "dns_access \<Rightarrow> string \<Rightarrow> stored_domain option \<Rightarrow> (status fault, string) result \<times> stored_domain option" where
  "spec_reserve dns endpoint d =
     (case d of
        Some _ \<Rightarrow> (Err (Fail (already_exists ''domain already reserved'')), d)
      | None \<Rightarrow>
          (case task_result internal ''DNS reservation'' (dns_reserve_domain dns endpoint) of
             Err e \<Rightarrow> (Err e, None)
           | Ok (name, token) \<Rightarrow> (Ok name, Some \<lparr>sd_endpoint = endpoint, sd_name = name, sd_token = token\<rparr>)))"

definition spec_get :: "stored_domain option \<Rightarrow> (status fault, string) result \<times> stored_domain option" where
  "spec_get d = (case d of None \<Rightarrow> Err (Fail (not_found ''domain not found'')) | Some domain \<Rightarrow> Ok (sd_name domain), d)"

definition spec_release :: "stored_domain option \<Rightarrow> (status fault, string) result \<times> stored_domain option" where
  "spec_release d = (fst (spec_get d), None)"

text \<open>The cell of the table for a value of the variable, whose text the JSON library reads.\<close>

definition represents :: "codec_lib \<Rightarrow> (8 word list \<Rightarrow> string) \<Rightarrow> string option \<Rightarrow> stored_domain option \<Rightarrow> bool" where
  "represents lib of_bytes cell d \<longleftrightarrow>
     cell = map_option (\<lambda>domain. of_bytes (bytes_of_string (encode_stored_domain domain))) d \<and>
     (case d of None \<Rightarrow> True | Some domain \<Rightarrow> lib_from_text lib (encode_stored_domain domain) = Ok (JObject (domain_members domain)))"

definition store_failed :: "(status fault, 'a) result \<Rightarrow> bool" where
  "store_failed r \<longleftrightarrow> (\<exists>message. r = Err (Fail (internal message)))"

definition implements ::
  "(string option \<Rightarrow> stored_domain option \<Rightarrow> bool) \<Rightarrow> string option \<Rightarrow> (status fault, 'a) result \<Rightarrow>
   stored_domain option \<Rightarrow> (status fault, 'a) result \<times> stored_domain option \<Rightarrow> bool" where
  "implements rep cell r d spec \<longleftrightarrow>
     (\<exists>d'. rep cell d' \<and> ((r, d') = spec \<or> store_failed r \<and> d' \<in> {d, snd spec}))"

lemma internal_codes [simp]: "st_code (internal m) = CodeInternal" "st_code (not_found m) = CodeNotFound"
  by (simp_all add: internal_def not_found_def)

lemma store_failed_simps [simp]: "store_failed (Err (Fail (internal m)))" "\<not> store_failed (Ok a)" "\<not> store_failed (Err (Fail (not_found m)))"
  by (simp_all add: store_failed_def not_found_def internal_def)

lemma implements_spec: "r = fst spec \<Longrightarrow> rep cell (snd spec) \<Longrightarrow> implements rep cell r d spec"
  by (cases spec) (auto simp: implements_def)

lemma implements_failed: "store_failed r \<Longrightarrow> rep cell d \<or> rep cell (snd spec) \<Longrightarrow> implements rep cell r d spec"
  by (auto simp: implements_def)

lemma represents_None [simp]: "represents lib of_bytes None d \<longleftrightarrow> d = None"
  by (cases d) (simp_all add: represents_def)

section \<open>The handlers\<close>

context cluster_store
begin

lemma stored_domain_answer:
  assumes "read_stored_domain lib dns sa s = (r, t)" "represents lib of_bytes (cells s UNCLOUD_DNS_KEY) d"
  shows "cells t = cells s"
    "(case d of None \<Rightarrow> r = Err (Fail (not_found ''domain not found'')) | Some domain \<Rightarrow> r = Ok domain) \<or> store_failed r"
proof -
  obtain r' where g: "sa_get_bytes sa UNCLOUD_DNS_KEY s = (r', t)"
    using assms(1) by (auto simp: read_stored_domain_def and_then_def with_err_def split: prod.splits sum.splits)
  note law = get_bytes [OF g]
  show "cells t = cells s" using law by simp
  show "(case d of None \<Rightarrow> r = Err (Fail (not_found ''domain not found'')) | Some domain \<Rightarrow> r = Ok domain) \<or> store_failed r"
  proof (cases d)
    case None
    then have "r' = Err KeyNotFound \<or> (\<exists>ctx e. r' = Err (Operation ctx e))" using law assms(2) by (simp add: represents_def)
    then show ?thesis using assms(1) g None
      by (auto simp: read_stored_domain_def and_then_def with_err_def store_failed_def)
  next
    case (Some domain)
    then have "r' = Ok (bytes_of_string (encode_stored_domain domain)) \<or> (\<exists>ctx e. r' = Err (Operation ctx e))"
      and "lib_from_text lib (encode_stored_domain domain) = Ok (JObject (domain_members domain))"
      using law assms(2) by (simp_all add: represents_def)
    then show ?thesis using assms(1) g Some deserialize_domain_members [of domain]
      by (auto simp: read_stored_domain_def and_then_def with_err_def store_failed_def)
  qed
qed

lemma get_implements:
  assumes "get_domain_inner lib dns sa c = (r, c')" "cl_ready c" "represents lib of_bytes (cells (cl_store c) UNCLOUD_DNS_KEY) d"
  shows "implements (represents lib of_bytes) (cells (cl_store c') UNCLOUD_DNS_KEY) r d (spec_get d)"
proof -
  obtain q t where q: "read_stored_domain lib dns sa (cl_store c) = (q, t)" by force
  note f = stored_domain_answer [OF q assms(3)]
  have "cl_store c' = t" "r = map_ok sd_name q"
    using assms(1,2) q by (cases q; auto simp: get_domain_inner_def check_ready_def and_then_def on_store_def)+
  moreover have "store_failed r" if "store_failed q" using that \<open>r = map_ok sd_name q\<close> by (auto simp: store_failed_def)
  ultimately show ?thesis using f assms(3)
    by (cases d; elim disjE) (auto simp: spec_get_def intro: implements_spec implements_failed)
qed

lemma release_implements:
  assumes "release_domain_inner lib dns sa c = (r, c')" "cl_ready c" "represents lib of_bytes (cells (cl_store c) UNCLOUD_DNS_KEY) d"
  shows "implements (represents lib of_bytes) (cells (cl_store c') UNCLOUD_DNS_KEY) r d (spec_release d)"
proof -
  obtain q t where q: "read_stored_domain lib dns sa (cl_store c) = (q, t)" by force
  note f = stored_domain_answer [OF q assms(3)]
  show ?thesis
  proof (cases q)
    case (Inl e)
    then have "cl_store c' = t" "r = Err e"
      using assms(1,2) q by (auto simp: release_domain_inner_def check_ready_def and_then_def on_store_def)
    moreover have "implements (represents lib of_bytes) (cells (cl_store c) UNCLOUD_DNS_KEY) (Err e) d (spec_release d)" if "store_failed q"
      using that Inl assms(3) by (intro implements_failed) (simp_all add: store_failed_def)
    ultimately show ?thesis using f assms(3) Inl
      by (cases "store_failed q") (auto simp: spec_get_def spec_release_def intro!: implements_spec split: option.splits)
  next
    case (Inr domain)
    then have d: "d = Some domain" using f(2) by (auto simp: store_failed_def split: option.splits)
    obtain w u where w: "sa_delete sa UNCLOUD_DNS_KEY t = (w, u)" by force
    have "cl_store c' = u" "r = rbind (map_err (\<lambda>error. Fail (internal (''delete domain from store: '' @ store_error_display error))) w) (\<lambda>_. Ok (sd_name domain))"
      using assms(1,2) q Inr w
      by (cases w; auto simp: release_domain_inner_def check_ready_def and_then_def on_store_def with_err_def)+
    then show ?thesis using delete [OF w] f(1) assms(3) d
      by (cases w) (auto simp: spec_get_def spec_release_def intro: implements_spec implements_failed)
  qed
qed

lemma no_domain_answer:
  assumes "no_domain_yet lib dns sa s = (r, t)" "represents lib of_bytes (cells s UNCLOUD_DNS_KEY) d"
  shows "cells t = cells s"
    "(case d of None \<Rightarrow> r = Ok () | Some _ \<Rightarrow> r = Err (Fail (already_exists ''domain already reserved''))) \<or> store_failed r"
proof -
  obtain q u where q: "read_stored_domain lib dns sa s = (q, u)" by force
  note f = stored_domain_answer [OF q assms(2)]
  have u: "t = u" using assms(1) q by (auto simp: no_domain_yet_def split: sum.splits fault.splits)
  show "cells t = cells s" using f u by simp
  show "(case d of None \<Rightarrow> r = Ok () | Some _ \<Rightarrow> r = Err (Fail (already_exists ''domain already reserved''))) \<or> store_failed r"
    using f(2) assms(1) q by (cases d; elim disjE) (auto simp: no_domain_yet_def store_failed_def)
qed

lemma reserve_implements:
  assumes "reserve_domain_inner lib dns sa endpoint c = (r, c')" "cl_ready c" "endpoint \<noteq> []"
    and rep: "represents lib of_bytes (cells (cl_store c) UNCLOUD_DNS_KEY) d"
    and reads: "\<And>name token. dns_reserve_domain dns endpoint = Ok (Ok (name, token)) \<Longrightarrow>
      lib_from_text lib (encode_stored_domain \<lparr>sd_endpoint = endpoint, sd_name = name, sd_token = token\<rparr>) =
      Ok (JObject (domain_members \<lparr>sd_endpoint = endpoint, sd_name = name, sd_token = token\<rparr>))"
  shows "implements (represents lib of_bytes) (cells (cl_store c') UNCLOUD_DNS_KEY) r d (spec_reserve dns endpoint d)"
proof -
  obtain q t where q: "no_domain_yet lib dns sa (cl_store c) = (q, t)" by force
  note f = no_domain_answer [OF q rep]
  show ?thesis
  proof (cases q)
    case (Inl e)
    then have r: "cl_store c' = t" "r = Err e"
      using assms(1-3) q by (auto simp: reserve_domain_inner_def check_ready_def and_then_def on_store_def)
    show ?thesis
    proof (cases "store_failed q")
      case True
      then show ?thesis using r f rep Inl by (intro implements_failed) (simp_all add: store_failed_def)
    next
      case False
      then obtain domain where "d = Some domain" "e = Fail (already_exists ''domain already reserved'')"
        using f(2) Inl by (auto split: option.splits)
      then show ?thesis using r f rep by (intro implements_spec) (simp_all add: spec_reserve_def)
    qed
  next
    case (Inr x)
    then have d: "d = None" using f(2) by (auto split: option.splits)
    let ?task = "task_result internal ''DNS reservation'' (dns_reserve_domain dns endpoint)"
    show ?thesis
    proof (cases ?task)
      case (Inl e)
      then have "cl_store c' = t" "r = Err e"
        using assms(1-3) q Inr by (auto simp: reserve_domain_inner_def check_ready_def and_then_def on_store_def)
      then show ?thesis using f rep d Inl by (intro implements_spec) (simp_all add: spec_reserve_def)
    next
      case (Inr answer)
      obtain name token where answer: "answer = (name, token)" by force
      let ?domain = "\<lparr>sd_endpoint = endpoint, sd_name = name, sd_token = token\<rparr>"
      obtain w u where w: "sa_put_bytes sa UNCLOUD_DNS_KEY (bytes_of_string (encode_stored_domain ?domain)) t = (w, u)" by force
      have r: "cl_store c' = u" "is_ok w \<Longrightarrow> r = Ok name" "\<not> is_ok w \<Longrightarrow> store_failed r"
        using assms(1-3) q \<open>q = Inr x\<close> Inr answer w
        by (cases w; auto simp: reserve_domain_inner_def check_ready_def and_then_def on_store_def with_err_def)+
      have spec: "spec_reserve dns endpoint d = (Ok name, Some ?domain)" using d Inr answer by (simp add: spec_reserve_def)
      have new: "represents lib of_bytes (Some (of_bytes (bytes_of_string (encode_stored_domain ?domain)))) (Some ?domain)"
        using reads Inr answer by (simp add: represents_def task_result_def rbind_eq_Ok map_err_eq_Ok)
      show ?thesis unfolding spec
      proof (cases "is_ok w")
        case True
        then show "implements (represents lib of_bytes) (cells (cl_store c') UNCLOUD_DNS_KEY) r d (Ok name, Some ?domain)"
          using put_bytes [OF w] r new by (intro implements_spec) auto
      next
        case False
        then show "implements (represents lib of_bytes) (cells (cl_store c') UNCLOUD_DNS_KEY) r d (Ok name, Some ?domain)"
          using put_bytes [OF w] r f(1) rep new by (intro implements_failed) auto
      qed
    qed
  qed
qed

end

section \<open>Properties\<close>

text \<open>
  (C3) The reserved domain behaves as a variable. On a ready cluster whose store holds the value \<open>d\<close>, each
  of the reservation, the reading and the release of a domain answers and leaves the value that the
  variable does, or reports an internal error of the store with the value before or after the operation.
  A second reservation is refused, and what was reserved is read back with every field.
\<close>

theorem domain_refines_variable:
  assumes "cluster_store sa cells machines typed complete of_bytes" "cl_ready c" "endpoint \<noteq> []"
    and "represents lib of_bytes (cells (cl_store c) UNCLOUD_DNS_KEY) d"
    and "\<And>name token. dns_reserve_domain dns endpoint = Ok (Ok (name, token)) \<Longrightarrow>
      lib_from_text lib (encode_stored_domain \<lparr>sd_endpoint = endpoint, sd_name = name, sd_token = token\<rparr>) =
      Ok (JObject (domain_members \<lparr>sd_endpoint = endpoint, sd_name = name, sd_token = token\<rparr>))"
  shows "(case reserve_domain_inner lib dns sa endpoint c of (r, c') \<Rightarrow>
      implements (represents lib of_bytes) (cells (cl_store c') UNCLOUD_DNS_KEY) r d (spec_reserve dns endpoint d)) \<and>
    (case get_domain_inner lib dns sa c of (r, c') \<Rightarrow>
      implements (represents lib of_bytes) (cells (cl_store c') UNCLOUD_DNS_KEY) r d (spec_get d)) \<and>
    (case release_domain_inner lib dns sa c of (r, c') \<Rightarrow>
      implements (represents lib of_bytes) (cells (cl_store c') UNCLOUD_DNS_KEY) r d (spec_release d))"
  using cluster_store.reserve_implements [OF assms(1) _ assms(2,3,4,5)] cluster_store.get_implements [OF assms(1) _ assms(2,4)]
    cluster_store.release_implements [OF assms(1) _ assms(2,4)]
  by (auto split: prod.splits)

definition sample_dns :: dns_access where
  "sample_dns = \<lparr>dns_reserve_domain = (\<lambda>_. Ok (Ok (''a.example'', ''t<1>''))), dns_create_records = (\<lambda>_ _ _ _. Err []),
     dns_json_error = (\<lambda>_. [])\<rparr>"

theorem domain_refines_variable_witness:
  "case reserve_domain_inner plain_lib sample_dns sample_store ''https://dns'' (signal_ready (sample_cluster (sample_memory [] None))) of
     (r, c') \<Rightarrow> implements (represents plain_lib (lib_b64_encode plain_lib)) (sample_cells (cl_store c') UNCLOUD_DNS_KEY) r None
       (Ok ''a.example'', Some \<lparr>sd_endpoint = ''https://dns'', sd_name = ''a.example'', sd_token = ''t<1>''\<rparr>)"
proof -
  let ?domain = "\<lparr>sd_endpoint = ''https://dns'', sd_name = ''a.example'', sd_token = ''t<1>''\<rparr>"
  have reads: "lib_from_text plain_lib (encode_stored_domain ?domain) = Ok (JObject (domain_members ?domain))" by code_simp
  have "represents plain_lib (lib_b64_encode plain_lib) (sample_cells (sample_memory [] None) UNCLOUD_DNS_KEY) None"
    by (simp add: sample_memory_def UNCLOUD_DNS_KEY_def NETWORK_KEY_def)
  moreover have "spec_reserve sample_dns ''https://dns'' None = (Ok ''a.example'', Some ?domain)"
    by (simp add: spec_reserve_def sample_dns_def task_result_def)
  ultimately show ?thesis
    using domain_refines_variable [OF sample_cluster_store, of "signal_ready (sample_cluster (sample_memory [] None))" "''https://dns''"
        plain_lib None sample_dns] reads
    by (simp add: signal_ready_def sample_cluster_def sample_dns_def)
qed

end
