(* ===== verification/Proxy_Backend.thy ===== *)
theory Proxy_Backend
  imports Address "HOL-Library.Multiset"
begin

text \<open>
  The connection of the API proxy to one remote machine
  (\<open>ployz-internal-machine-api-proxy/src/backend.rs\<close>). Calls, the reconnecting task, dropped sockets and
  \<open>close\<close> share a \<open>ConnectionState\<close> behind a lock. Each critical section is one function here; the
  step relation interleaves them in any order, with the calls and tasks that are in flight as the rest
  of the state. A channel is known by the generation its socket was dialled for.
\<close>

section \<open>Critical sections\<close>

datatype connection_phase = PhaseIdle | InitialConnect | Backoff

record connection_state =
  cs_channel :: "64 word option"
  cs_phase :: connection_phase
  cs_reconnect_task :: bool
  cs_closed :: bool
  cs_generation :: "64 word"

definition connection_state_default :: connection_state where
  "connection_state_default =
     \<lparr>cs_channel = None, cs_phase = PhaseIdle, cs_reconnect_task = False, cs_closed = False, cs_generation = 0\<rparr>"

text \<open>The first section of \<open>channel\<close>: take the channel, give up, dial, or wait for a notification.\<close>

datatype channel_action =
  UseChannel "64 word" | Unavailable status | Dial "64 word" | AwaitChange

definition channel_section :: "string \<Rightarrow> connection_state \<Rightarrow> channel_action \<times> connection_state" where
  "channel_section target s =
     (case cs_channel s of
        Some channel \<Rightarrow> (UseChannel channel, s)
      | None \<Rightarrow>
          if cs_closed s then (Unavailable (unavailable ''backend is closed''), s)
          else (case cs_phase s of
             PhaseIdle \<Rightarrow>
               (let generation = cs_generation s + 1
                in (Dial generation, s\<lparr>cs_phase := InitialConnect, cs_generation := generation\<rparr>))
           | InitialConnect \<Rightarrow> (AwaitChange, s)
           | Backoff \<Rightarrow> (Unavailable (unavailable (''backend '' @ target @ '' is reconnecting'')), s)))"

text \<open>The channel of a local backend connects lazily: there is one as soon as the endpoint is valid.\<close>

definition local_channel ::
    "(status, 64 word) result \<Rightarrow> connection_state \<Rightarrow> (status, 64 word) result \<times> connection_state" where
  "local_channel endpoint s =
     (case cs_channel s of
        Some channel \<Rightarrow> (Ok channel, s)
      | None \<Rightarrow>
          if cs_closed s then (Err (unavailable ''backend is closed''), s)
          else (case endpoint of
             Err e \<Rightarrow> (Err e, s)
           | Ok channel \<Rightarrow> (Ok channel, s\<lparr>cs_channel := Some channel\<rparr>)))"

text \<open>The test of the connector before it opens a socket.\<close>

definition dial_allowed :: "64 word \<Rightarrow> connection_state \<Rightarrow> bool" where
  "dial_allowed generation s \<longleftrightarrow>
     cs_generation s = generation \<and> cs_channel s = None \<and> \<not> cs_closed s"

text \<open>
  The section of \<open>channel\<close> after a successful dial. The flag says that the channel is installed: then
  the guard is disarmed and the waiting calls are notified.
\<close>

definition dial_succeeded ::
    "64 word \<Rightarrow> connection_state \<Rightarrow> ((status, 64 word) result \<times> bool) \<times> connection_state" where
  "dial_succeeded generation s =
     (if cs_closed s then ((Err (unavailable ''backend is closed''), False), s)
      else if cs_generation s \<noteq> generation \<or> cs_phase s \<noteq> InitialConnect
      then ((Err (unavailable ''backend connection was superseded''), False), s)
      else ((Ok generation, True), s\<lparr>cs_phase := PhaseIdle, cs_channel := Some generation\<rparr>))"

text \<open>The section after a failed dial. The flag says that waiting calls are notified and a task is started.\<close>

definition dial_failed :: "64 word \<Rightarrow> connection_state \<Rightarrow> bool \<times> connection_state" where
  "dial_failed generation s =
     (if \<not> cs_closed s \<and> cs_generation s = generation \<and> cs_phase s = InitialConnect
      then (True, s\<lparr>cs_phase := Backoff\<rparr>)
      else (False, s))"

text \<open>The guard of a dial that was given up. The flag says that waiting calls are notified.\<close>

definition guard_drop :: "connection_state \<Rightarrow> bool \<times> connection_state" where
  "guard_drop s =
     (if cs_phase s = InitialConnect then (True, s\<lparr>cs_phase := PhaseIdle\<rparr>) else (False, s))"

text \<open>The task of \<open>start_reconnecting\<close>: its registration, the start of an attempt, and its end.\<close>

definition register_task :: "connection_state \<Rightarrow> bool \<times> connection_state" where
  "register_task s =
     (if cs_closed s then (False, s\<lparr>cs_phase := PhaseIdle\<rparr>)
      else if \<not> cs_reconnect_task s then (True, s\<lparr>cs_reconnect_task := True\<rparr>)
      else (False, s))"

definition attempt_begin :: "connection_state \<Rightarrow> 64 word option \<times> connection_state" where
  "attempt_begin s =
     (if cs_closed s then (None, s)
      else (let generation = cs_generation s + 1 in (Some generation, s\<lparr>cs_generation := generation\<rparr>)))"

definition attempt_succeeded :: "64 word \<Rightarrow> connection_state \<Rightarrow> bool \<times> connection_state" where
  "attempt_succeeded generation s =
     (if cs_closed s then (False, s\<lparr>cs_reconnect_task := False\<rparr>)
      else if cs_generation s = generation
      then (True, s\<lparr>cs_channel := Some generation, cs_phase := PhaseIdle, cs_reconnect_task := False\<rparr>)
      else (False, s))"

text \<open>
  The loss of a socket: whether the loss counts (then waiting calls are notified) and whether a task is
  to be started.
\<close>

definition tracked_drop :: "64 word \<Rightarrow> connection_state \<Rightarrow> (bool \<times> bool) \<times> connection_state" where
  "tracked_drop generation s =
     (if cs_closed s \<or> cs_generation s \<noteq> generation then ((False, False), s)
      else ((True, \<not> cs_reconnect_task s),
            s\<lparr>cs_generation := cs_generation s + 1, cs_phase := Backoff, cs_channel := None\<rparr>))"

definition inner_close :: "connection_state \<Rightarrow> connection_state" where
  "inner_close s = s\<lparr>cs_closed := True, cs_channel := None, cs_phase := PhaseIdle, cs_reconnect_task := False\<rparr>"

section \<open>Interleavings\<close>

text \<open>
  What is in flight around the shared state: calls that wait for a notification, calls that dial (with
  their armed guard; the flag says that the connector has opened a socket for them), open sockets, calls
  of \<open>start_reconnecting\<close> that have not yet registered their task, and registered tasks. Sockets are
  dropped on threads of the runtime, where a task can be spawned.
\<close>

datatype reconnecting = Sleeping | Attempting "64 word" bool

record backend_world =
  bw_state :: connection_state
  bw_waiting :: nat
  bw_dialling :: "(64 word \<times> bool) multiset"
  bw_sockets :: "64 word multiset"
  bw_starts :: nat
  bw_tasks :: "reconnecting multiset"

definition backend_init :: backend_world where
  "backend_init =
     \<lparr>bw_state = connection_state_default, bw_waiting = 0, bw_dialling = {#}, bw_sockets = {#}, bw_starts = 0, bw_tasks = {#}\<rparr>"

definition notified :: "bool \<Rightarrow> nat \<Rightarrow> nat" where
  "notified b n = (if b then 0 else n)"

inductive backend_step :: "string \<Rightarrow> backend_world \<Rightarrow> backend_world \<Rightarrow> bool" for target where
  called: "channel_section target (bw_state w) = (action, s) \<Longrightarrow>
    backend_step target w (w\<lparr>bw_state := s,
      bw_dialling := (case action of Dial g \<Rightarrow> add_mset (g, False) (bw_dialling w) | _ \<Rightarrow> bw_dialling w),
      bw_waiting := bw_waiting w + of_bool (action = AwaitChange)\<rparr>)"
| dial_opens: "(g, opened) \<in># bw_dialling w \<Longrightarrow> dial_allowed g (bw_state w) \<Longrightarrow>
    backend_step target w (w\<lparr>bw_sockets := add_mset g (bw_sockets w),
      bw_dialling := add_mset (g, True) (bw_dialling w - {#(g, opened)#})\<rparr>)"
| dial_ok: "(g, True) \<in># bw_dialling w \<Longrightarrow> dial_succeeded g (bw_state w) = ((r, installed), s) \<Longrightarrow>
    backend_step target w (w\<lparr>bw_state := s, bw_waiting := notified installed (bw_waiting w),
      bw_dialling := (if installed then bw_dialling w - {#(g, True)#} else bw_dialling w)\<rparr>)"
| dial_err: "(g, opened) \<in># bw_dialling w \<Longrightarrow> dial_failed g (bw_state w) = (start, s) \<Longrightarrow>
    backend_step target w (w\<lparr>bw_state := s, bw_waiting := notified start (bw_waiting w),
      bw_dialling := bw_dialling w - {#(g, opened)#}, bw_starts := bw_starts w + of_bool start\<rparr>)"
| dial_given_up: "(g, opened) \<in># bw_dialling w \<Longrightarrow> guard_drop (bw_state w) = (reset, s) \<Longrightarrow>
    backend_step target w (w\<lparr>bw_state := s, bw_waiting := notified reset (bw_waiting w),
      bw_dialling := bw_dialling w - {#(g, opened)#}\<rparr>)"
| task_registers: "0 < bw_starts w \<Longrightarrow> register_task (bw_state w) = (runs, s) \<Longrightarrow>
    backend_step target w (w\<lparr>bw_state := s, bw_starts := bw_starts w - 1,
      bw_tasks := (if runs then add_mset Sleeping (bw_tasks w) else bw_tasks w)\<rparr>)"
| task_wakes: "Sleeping \<in># bw_tasks w \<Longrightarrow> attempt_begin (bw_state w) = (attempt, s) \<Longrightarrow>
    backend_step target w (w\<lparr>bw_state := s, bw_tasks :=
      (case attempt of None \<Rightarrow> bw_tasks w - {#Sleeping#} | Some g \<Rightarrow> add_mset (Attempting g False) (bw_tasks w - {#Sleeping#}))\<rparr>)"
| attempt_opens: "Attempting g opened \<in># bw_tasks w \<Longrightarrow> dial_allowed g (bw_state w) \<Longrightarrow>
    backend_step target w (w\<lparr>bw_sockets := add_mset g (bw_sockets w),
      bw_tasks := add_mset (Attempting g True) (bw_tasks w - {#Attempting g opened#})\<rparr>)"
| attempt_ok: "Attempting g True \<in># bw_tasks w \<Longrightarrow> attempt_succeeded g (bw_state w) = (installed, s) \<Longrightarrow>
    backend_step target w (w\<lparr>bw_state := s, bw_waiting := notified installed (bw_waiting w),
      bw_tasks := (if installed then bw_tasks w - {#Attempting g True#}
        else add_mset Sleeping (bw_tasks w - {#Attempting g True#}))\<rparr>)"
| attempt_err: "Attempting g opened \<in># bw_tasks w \<Longrightarrow>
    backend_step target w (w\<lparr>bw_tasks := add_mset Sleeping (bw_tasks w - {#Attempting g opened#})\<rparr>)"
| task_aborted: "cs_closed (bw_state w) \<Longrightarrow> task \<in># bw_tasks w \<Longrightarrow>
    backend_step target w (w\<lparr>bw_tasks := bw_tasks w - {#task#}\<rparr>)"
| socket_lost: "g \<in># bw_sockets w \<Longrightarrow> tracked_drop g (bw_state w) = ((counts, start), s) \<Longrightarrow>
    backend_step target w (w\<lparr>bw_state := s, bw_sockets := bw_sockets w - {#g#},
      bw_waiting := notified counts (bw_waiting w), bw_starts := bw_starts w + of_bool start\<rparr>)"
| backend_closed: "backend_step target w (w\<lparr>bw_state := inner_close (bw_state w), bw_waiting := 0\<rparr>)"

lemmas section_defs =
  channel_section_def dial_allowed_def dial_succeeded_def dial_failed_def guard_drop_def register_task_def
  attempt_begin_def attempt_succeeded_def tracked_drop_def inner_close_def notified_def Let_def

section \<open>Invariants\<close>

text \<open>A closed backend has no channel and no waiting call, and stays closed.\<close>

definition closed_down :: "backend_world \<Rightarrow> bool" where
  "closed_down w \<longleftrightarrow> cs_closed (bw_state w) \<and> cs_channel (bw_state w) = None \<and>
     cs_phase (bw_state w) = PhaseIdle \<and> bw_waiting w = 0"

lemma step_closed_down: "backend_step target w v \<Longrightarrow> closed_down w \<Longrightarrow> closed_down v"
  by (induction rule: backend_step.induct)
    (auto simp: closed_down_def section_defs split: option.splits if_splits)

lemma steps_closed_down: "(backend_step target)\<^sup>*\<^sup>* w v \<Longrightarrow> closed_down w \<Longrightarrow> closed_down v"
  by (induction rule: rtranclp_induct) (auto intro: step_closed_down)

text \<open>
  While it is open, the registered tasks are those of \<open>reconnect_task\<close>, and each phase has someone who
  will leave it: exactly one call dials in the phase of the first connection, nothing is in flight when
  the backend is idle without a channel, and in the phase of the back-off there is a task or one is about
  to be registered.
\<close>

definition phase_ok :: "backend_world \<Rightarrow> bool" where
  "phase_ok w \<longleftrightarrow>
     (case cs_phase (bw_state w) of
        InitialConnect \<Rightarrow> cs_channel (bw_state w) = None \<and> \<not> cs_reconnect_task (bw_state w) \<and> bw_starts w = 0 \<and>
          (\<exists>opened. bw_dialling w = {#(cs_generation (bw_state w), opened)#})
      | PhaseIdle \<Rightarrow> cs_channel (bw_state w) = None \<longrightarrow>
          \<not> cs_reconnect_task (bw_state w) \<and> bw_starts w = 0 \<and> bw_dialling w = {#}
      | Backoff \<Rightarrow> cs_channel (bw_state w) = None \<and> (cs_reconnect_task (bw_state w) \<or> 0 < bw_starts w))"

definition open_ok :: "backend_world \<Rightarrow> bool" where
  "open_ok w \<longleftrightarrow> \<not> cs_closed (bw_state w) \<and> size (bw_tasks w) = of_bool (cs_reconnect_task (bw_state w)) \<and>
     (0 < bw_waiting w \<longrightarrow> cs_phase (bw_state w) = InitialConnect) \<and> phase_ok w"

definition backend_ok :: "backend_world \<Rightarrow> bool" where
  "backend_ok w \<longleftrightarrow> closed_down w \<or> open_ok w"

lemma backend_ok_init: "backend_ok backend_init"
  by (simp add: backend_ok_def open_ok_def phase_ok_def backend_init_def connection_state_default_def)

lemma singleton_task: "size (bw_tasks w) = of_bool b \<Longrightarrow> task \<in># bw_tasks w \<Longrightarrow> b \<and> bw_tasks w = {#task#}"
  by (cases b) (auto simp: size_Suc_Diff1 dest!: multi_member_split)

lemmas world_defs = backend_ok_def closed_down_def open_ok_def phase_ok_def section_defs

lemma step_open_ok: "backend_step target w v \<Longrightarrow> open_ok w \<Longrightarrow> backend_ok v"
proof (induction rule: backend_step.induct)
  case (called w action s)
  then show ?case
    by (cases "cs_phase (bw_state w)")
      (auto simp: world_defs split: option.splits if_splits)
next
  case (dial_opens g opened w)
  then show ?case
    by (cases "cs_phase (bw_state w)") (auto simp: world_defs)
next
  case (dial_ok g w r installed s)
  then show ?case by (auto simp: world_defs split: if_splits connection_phase.splits)
next
  case (dial_err g opened w start s)
  then show ?case by (auto simp: world_defs split: if_splits connection_phase.splits)
next
  case (dial_given_up g opened w reset s)
  then show ?case by (auto simp: world_defs split: if_splits connection_phase.splits)
next
  case (task_registers w runs s)
  then show ?case by (auto simp: world_defs split: if_splits connection_phase.splits)
next
  case (task_wakes w attempt s)
  then show ?case using singleton_task [of w "cs_reconnect_task (bw_state w)" Sleeping]
    by (auto simp: world_defs split: if_splits connection_phase.splits)
next
  case (attempt_opens g opened w)
  then show ?case using singleton_task [of w "cs_reconnect_task (bw_state w)" "Attempting g opened"]
    by (auto simp: world_defs split: if_splits connection_phase.splits)
next
  case (attempt_ok g w installed s)
  then show ?case using singleton_task [of w "cs_reconnect_task (bw_state w)" "Attempting g True"]
    by (auto simp: world_defs split: if_splits connection_phase.splits)
next
  case (attempt_err g opened w)
  then show ?case using singleton_task [of w "cs_reconnect_task (bw_state w)" "Attempting g opened"]
    by (auto simp: world_defs split: if_splits connection_phase.splits)
next
  case (task_aborted w task)
  then show ?case by (simp add: open_ok_def)
next
  case (socket_lost g w counts start s)
  then show ?case by (auto simp: world_defs split: if_splits connection_phase.splits)
next
  case (backend_closed w)
  show ?case by (simp add: world_defs)
qed

lemma step_backend_ok: "backend_step target w v \<Longrightarrow> backend_ok w \<Longrightarrow> backend_ok v"
  unfolding backend_ok_def [of w] using step_open_ok step_closed_down backend_ok_def by blast

lemma reachable_ok: "(backend_step target)\<^sup>*\<^sup>* backend_init w \<Longrightarrow> backend_ok w"
  by (induction rule: rtranclp_induct) (auto intro: backend_ok_init step_backend_ok)

lemma reachable_open: "(backend_step target)\<^sup>*\<^sup>* backend_init w \<Longrightarrow> \<not> cs_closed (bw_state w) \<Longrightarrow> open_ok w"
  using reachable_ok by (auto simp: backend_ok_def closed_down_def)

text \<open>
  (C6) A call on an open backend is never left without a prospect. In every interleaving of calls, lost
  sockets and reconnecting tasks: a call that dials is the only one that does; a call waits only while
  exactly one other call dials, and is woken when that one ends; and a call is refused with the message
  that the backend is reconnecting only while a task is registered for it or is about to be.
\<close>

theorem backend_call_has_prospect:
  assumes "(backend_step target)\<^sup>*\<^sup>* backend_init w" "\<not> cs_closed (bw_state w)"
  shows "(case fst (channel_section target (bw_state w)) of
      UseChannel channel \<Rightarrow> cs_channel (bw_state w) = Some channel
    | Dial generation \<Rightarrow> bw_dialling w = {#} \<and> bw_tasks w = {#}
    | AwaitChange \<Rightarrow> size (bw_dialling w) = 1
    | Unavailable status \<Rightarrow> bw_tasks w \<noteq> {#} \<or> 0 < bw_starts w) \<and>
    (0 < bw_waiting w \<longrightarrow> size (bw_dialling w) = 1)"
  using reachable_open [OF assms]
  by (cases "cs_phase (bw_state w)")
    (auto simp: open_ok_def phase_ok_def channel_section_def Let_def split: option.splits)

theorem backend_call_has_prospect_witness:
  "case fst (channel_section [] (bw_state backend_init)) of
     Dial generation \<Rightarrow> bw_dialling backend_init = {#} \<and> bw_tasks backend_init = {#} | _ \<Rightarrow> False"
  using backend_call_has_prospect [of "[]" backend_init]
  by (simp add: backend_init_def connection_state_default_def channel_section_def Let_def)

text \<open>A channel with a live socket of the current generation can be reached from a state.\<close>

definition recovers :: "string \<Rightarrow> backend_world \<Rightarrow> bool" where
  "recovers target w \<longleftrightarrow>
     (\<exists>v g. (backend_step target)\<^sup>*\<^sup>* w v \<and> \<not> cs_closed (bw_state v) \<and> cs_channel (bw_state v) = Some g \<and>
        cs_generation (bw_state v) = g \<and> g \<in># bw_sockets v)"

lemma recovers_step: "backend_step target w v \<Longrightarrow> recovers target v \<Longrightarrow> recovers target w"
  unfolding recovers_def by (meson converse_rtranclp_into_rtranclp)

lemma recovers_now:
  "\<not> cs_closed (bw_state w) \<Longrightarrow> cs_channel (bw_state w) = Some g \<Longrightarrow> cs_generation (bw_state w) = g \<Longrightarrow> g \<in># bw_sockets w \<Longrightarrow>
   recovers target w"
  unfolding recovers_def by blast

lemma sleeping_recovers:
  assumes "Sleeping \<in># bw_tasks w" "\<not> cs_closed (bw_state w)" "cs_channel (bw_state w) = None"
  shows "recovers target w"
proof -
  let ?g = "cs_generation (bw_state w) + 1"
  let ?s = "(bw_state w)\<lparr>cs_generation := ?g\<rparr>"
  let ?ts = "bw_tasks w - {#Sleeping#}"
  let ?w1 = "w\<lparr>bw_state := ?s, bw_tasks := add_mset (Attempting ?g False) ?ts\<rparr>"
  let ?w2 = "?w1\<lparr>bw_sockets := add_mset ?g (bw_sockets ?w1), bw_tasks := add_mset (Attempting ?g True) ?ts\<rparr>"
  let ?s3 = "?s\<lparr>cs_channel := Some ?g, cs_phase := PhaseIdle, cs_reconnect_task := False\<rparr>"
  let ?w3 = "?w2\<lparr>bw_state := ?s3, bw_waiting := 0, bw_tasks := ?ts\<rparr>"
  have 1: "backend_step target w ?w1"
    using task_wakes [of w "Some ?g" ?s target] assms by (simp add: attempt_begin_def Let_def)
  have 2: "backend_step target ?w1 ?w2"
    using attempt_opens [of ?g False ?w1 target] assms by (simp add: dial_allowed_def)
  have 3: "backend_step target ?w2 ?w3"
    using attempt_ok [of ?g ?w2 True ?s3 target] assms by (simp add: attempt_succeeded_def notified_def)
  have "recovers target ?w3" using assms(2) by (intro recovers_now [of _ ?g]) simp_all
  from recovers_step [OF 1 recovers_step [OF 2 recovers_step [OF 3 this]]] show ?thesis .
qed

lemma task_recovers:
  assumes "task \<in># bw_tasks w" "\<not> cs_closed (bw_state w)" "cs_channel (bw_state w) = None"
  shows "recovers target w"
proof (cases task)
  case Sleeping
  then show ?thesis using sleeping_recovers assms by blast
next
  case (Attempting g opened)
  then have "backend_step target w (w\<lparr>bw_tasks := add_mset Sleeping (bw_tasks w - {#task#})\<rparr>)"
    using attempt_err assms(1) by blast
  then show ?thesis using sleeping_recovers assms by (rule_tac recovers_step) auto
qed

lemma start_recovers:
  assumes "0 < bw_starts w" "\<not> cs_reconnect_task (bw_state w)" "\<not> cs_closed (bw_state w)" "cs_channel (bw_state w) = None"
  shows "recovers target w"
proof (rule recovers_step)
  let ?s = "(bw_state w)\<lparr>cs_reconnect_task := True\<rparr>"
  let ?v = "w\<lparr>bw_state := ?s, bw_starts := bw_starts w - 1, bw_tasks := add_mset Sleeping (bw_tasks w)\<rparr>"
  show "backend_step target w ?v"
    using task_registers [of w True ?s target] assms by (simp add: register_task_def)
  show "recovers target ?v" using assms by (intro sleeping_recovers) simp_all
qed

lemma dialling_recovers:
  assumes "(cs_generation (bw_state w), opened) \<in># bw_dialling w" "cs_phase (bw_state w) = InitialConnect"
    "\<not> cs_closed (bw_state w)" "cs_channel (bw_state w) = None"
  shows "recovers target w"
proof -
  let ?g = "cs_generation (bw_state w)"
  let ?ds = "bw_dialling w - {#(?g, opened)#}"
  let ?w1 = "w\<lparr>bw_sockets := add_mset ?g (bw_sockets w), bw_dialling := add_mset (?g, True) ?ds\<rparr>"
  let ?s = "(bw_state w)\<lparr>cs_phase := PhaseIdle, cs_channel := Some ?g\<rparr>"
  let ?w2 = "?w1\<lparr>bw_state := ?s, bw_waiting := 0, bw_dialling := ?ds\<rparr>"
  have 1: "backend_step target w ?w1"
    using dial_opens [of ?g opened w target] assms by (simp add: dial_allowed_def)
  have 2: "backend_step target ?w1 ?w2"
    using dial_ok [of ?g ?w1 "Ok ?g" True ?s target] assms by (simp add: dial_succeeded_def notified_def)
  have "recovers target ?w2" using assms(3) by (intro recovers_now [of _ ?g]) simp_all
  from recovers_step [OF 1 recovers_step [OF 2 this]] show ?thesis .
qed

lemma idle_recovers:
  assumes "cs_phase (bw_state w) = PhaseIdle" "\<not> cs_closed (bw_state w)" "cs_channel (bw_state w) = None"
  shows "recovers target w"
proof (rule recovers_step)
  let ?g = "cs_generation (bw_state w) + 1"
  let ?s = "(bw_state w)\<lparr>cs_phase := InitialConnect, cs_generation := ?g\<rparr>"
  let ?v = "w\<lparr>bw_state := ?s, bw_dialling := add_mset (?g, False) (bw_dialling w), bw_waiting := bw_waiting w\<rparr>"
  show "backend_step target w ?v"
    using called [of target w "Dial ?g" ?s] assms by (simp add: channel_section_def Let_def)
  show "recovers target ?v" using assms by (intro dialling_recovers [of _ False]) simp_all
qed

text \<open>
  (C9) An open backend without a channel is never stuck: from every such state some steps install a
  channel whose socket is open and of the current generation, so that its loss will be noticed. The
  phases of the first connection and of the back-off can always be left. A state with a channel in place
  is not covered: that channel may be dead for good, as shown below.
\<close>

theorem backend_recovers:
  assumes "(backend_step target)\<^sup>*\<^sup>* backend_init w" "\<not> cs_closed (bw_state w)" "cs_channel (bw_state w) = None"
  shows "\<exists>v g. (backend_step target)\<^sup>*\<^sup>* w v \<and> \<not> cs_closed (bw_state v) \<and> cs_channel (bw_state v) = Some g \<and>
    cs_generation (bw_state v) = g \<and> g \<in># bw_sockets v"
proof -
  have ok: "open_ok w" using assms(1,2) by (rule reachable_open)
  have "recovers target w"
  proof (cases "cs_phase (bw_state w)")
    case PhaseIdle
    then show ?thesis using assms(2,3) by (rule idle_recovers)
  next
    case InitialConnect
    then obtain opened where "(cs_generation (bw_state w), opened) \<in># bw_dialling w"
      using ok by (auto simp: open_ok_def phase_ok_def)
    then show ?thesis using InitialConnect assms(2,3) by (rule dialling_recovers)
  next
    case Backoff
    with ok consider task where "task \<in># bw_tasks w" | "\<not> cs_reconnect_task (bw_state w)" "0 < bw_starts w"
      by (cases "bw_tasks w") (auto simp: open_ok_def phase_ok_def)
    then show ?thesis using task_recovers start_recovers assms(2,3) by cases blast+
  qed
  then show ?thesis unfolding recovers_def .
qed

theorem backend_recovers_witness:
  "\<exists>v g. (backend_step [])\<^sup>*\<^sup>* backend_init v \<and> cs_channel (bw_state v) = Some g \<and> g \<in># bw_sockets v"
proof -
  have "\<not> cs_closed (bw_state backend_init)" "cs_channel (bw_state backend_init) = None"
    by (simp_all add: backend_init_def connection_state_default_def)
  from backend_recovers [OF rtranclp.rtrancl_refl this] show ?thesis by blast
qed

text \<open>
  (C8) Closing is final. Whatever is in flight when a backend is closed, dials, attempts of the task and
  lost sockets included, no channel is installed afterwards: every later call is refused as closed, at a
  local backend too, and no call keeps waiting.
\<close>

theorem closed_backend_stays_closed:
  assumes "(backend_step target)\<^sup>*\<^sup>* (w\<lparr>bw_state := inner_close (bw_state w), bw_waiting := 0\<rparr>) v"
  shows "fst (channel_section target (bw_state v)) = Unavailable (unavailable ''backend is closed'') \<and>
    fst (local_channel endpoint (bw_state v)) = Err (unavailable ''backend is closed'') \<and> bw_waiting v = 0"
proof -
  have "closed_down (w\<lparr>bw_state := inner_close (bw_state w), bw_waiting := 0\<rparr>)"
    by (simp add: closed_down_def inner_close_def)
  with assms have "closed_down v" by (rule steps_closed_down)
  then show ?thesis by (simp add: closed_down_def channel_section_def local_channel_def)
qed

theorem closed_backend_stays_closed_witness:
  "fst (local_channel (Ok 0) (inner_close connection_state_default)) = Err (unavailable ''backend is closed'')"
  using closed_backend_stays_closed [of "[]" backend_init
    "backend_init\<lparr>bw_state := inner_close (bw_state backend_init), bw_waiting := 0\<rparr>" "Ok 0"]
  by (simp add: backend_init_def)

section \<open>A second reconnecting task\<close>

text \<open>
  A channel whose socket is gone for good: no socket is open, nothing dials, and no attempt of a task has
  opened one. The channel in place keeps the connector from opening another.
\<close>

definition dead_channel :: "64 word \<Rightarrow> backend_world \<Rightarrow> bool" where
  "dead_channel g w \<longleftrightarrow> cs_channel (bw_state w) = Some g \<and> cs_phase (bw_state w) = PhaseIdle \<and>
     bw_sockets w = {#} \<and> bw_dialling w = {#} \<and> (\<forall>h. Attempting h True \<notin># bw_tasks w)"

lemma step_dead_channel: "backend_step target w v \<Longrightarrow> dead_channel g w \<Longrightarrow> cs_closed (bw_state v) \<or> dead_channel g v"
  by (induction rule: backend_step.induct)
    (auto simp: dead_channel_def section_defs dest: in_diffD split: option.splits if_splits)

lemma step_closed: "backend_step target w v \<Longrightarrow> cs_closed (bw_state w) \<Longrightarrow> cs_closed (bw_state v)"
  by (induction rule: backend_step.induct)
    (auto simp: section_defs split: option.splits connection_phase.splits if_splits)

lemma steps_dead_channel:
  "(backend_step target)\<^sup>*\<^sup>* w v \<Longrightarrow> dead_channel g w \<Longrightarrow> cs_closed (bw_state v) \<or> dead_channel g v"
  by (induction rule: rtranclp_induct) (auto dest: step_dead_channel step_closed)

definition open_world ::
    "64 word option \<Rightarrow> connection_phase \<Rightarrow> bool \<Rightarrow> 64 word \<Rightarrow> (64 word \<times> bool) multiset \<Rightarrow> 64 word multiset \<Rightarrow> nat \<Rightarrow>
     reconnecting multiset \<Rightarrow> backend_world" where
  "open_world channel phase task generation dialling sockets starts tasks =
     \<lparr>bw_state = \<lparr>cs_channel = channel, cs_phase = phase, cs_reconnect_task = task, cs_closed = False, cs_generation = generation\<rparr>,
      bw_waiting = 0, bw_dialling = dialling, bw_sockets = sockets, bw_starts = starts, bw_tasks = tasks\<rparr>"

lemmas trace_simps = open_world_def section_defs
lemmas trace_trans = rtranclp.rtrancl_into_rtrancl [where r = "backend_step target" for target]

lemma first_dial_fails:
  "(backend_step target)\<^sup>*\<^sup>* backend_init (open_world None Backoff False 2 {#} {#} 2 {#})"
proof -
  have "(backend_step target)\<^sup>*\<^sup>* backend_init backend_init" by simp
  also have "backend_step target \<dots> (open_world None InitialConnect False 1 {#(1, False)#} {#} 0 {#})"
    using called [of target backend_init] by (simp add: trace_simps backend_init_def connection_state_default_def)
  also (trace_trans) have "backend_step target \<dots> (open_world None InitialConnect False 1 {#(1, True)#} {#1#} 0 {#})"
    using dial_opens [of 1 False "open_world None InitialConnect False 1 {#(1, False)#} {#} 0 {#}" target]
    by (simp add: trace_simps)
  also (trace_trans) have "backend_step target \<dots> (open_world None Backoff False 1 {#} {#1#} 1 {#})"
    using dial_err [of 1 True "open_world None InitialConnect False 1 {#(1, True)#} {#1#} 0 {#}" True _ target]
    by (simp add: trace_simps)
  also (trace_trans) have "backend_step target \<dots> (open_world None Backoff False 2 {#} {#} 2 {#})"
    using socket_lost [of 1 "open_world None Backoff False 1 {#} {#1#} 1 {#}" True True _ target]
    by (simp add: trace_simps numeral_2_eq_2)
  finally (trace_trans) show ?thesis .
qed

lemma second_task_runs:
  "(backend_step target)\<^sup>*\<^sup>* (open_world None Backoff False 2 {#} {#} 2 {#})
     (open_world (Some 3) PhaseIdle True 4 {#} {#} 0 {#Attempting 4 False#})"
proof -
  have "(backend_step target)\<^sup>*\<^sup>* (open_world None Backoff False 2 {#} {#} 2 {#}) (open_world None Backoff False 2 {#} {#} 2 {#})"
    by simp
  also have "backend_step target \<dots> (open_world None Backoff True 2 {#} {#} 1 {#Sleeping#})"
    using task_registers [of "open_world None Backoff False 2 {#} {#} 2 {#}" True _ target] by (simp add: trace_simps)
  also (trace_trans) have "backend_step target \<dots> (open_world None Backoff True 3 {#} {#} 1 {#Attempting 3 False#})"
    using task_wakes [of "open_world None Backoff True 2 {#} {#} 1 {#Sleeping#}" "Some 3" _ target] by (simp add: trace_simps)
  also (trace_trans) have "backend_step target \<dots> (open_world None Backoff True 3 {#} {#3#} 1 {#Attempting 3 True#})"
    using attempt_opens [of 3 False "open_world None Backoff True 3 {#} {#} 1 {#Attempting 3 False#}" target]
    by (simp add: trace_simps)
  also (trace_trans) have "backend_step target \<dots> (open_world (Some 3) PhaseIdle False 3 {#} {#3#} 1 {#})"
    using attempt_ok [of 3 "open_world None Backoff True 3 {#} {#3#} 1 {#Attempting 3 True#}" True _ target]
    by (simp add: trace_simps)
  also (trace_trans) have "backend_step target \<dots> (open_world (Some 3) PhaseIdle True 3 {#} {#3#} 0 {#Sleeping#})"
    using task_registers [of "open_world (Some 3) PhaseIdle False 3 {#} {#3#} 1 {#}" True _ target] by (simp add: trace_simps)
  also (trace_trans) have "backend_step target \<dots> (open_world (Some 3) PhaseIdle True 4 {#} {#3#} 0 {#Attempting 4 False#})"
    using task_wakes [of "open_world (Some 3) PhaseIdle True 3 {#} {#3#} 0 {#Sleeping#}" "Some 4" _ target]
    by (simp add: trace_simps)
  also (trace_trans) have "backend_step target \<dots> (open_world (Some 3) PhaseIdle True 4 {#} {#} 0 {#Attempting 4 False#})"
    using socket_lost [of 3 "open_world (Some 3) PhaseIdle True 4 {#} {#3#} 0 {#Attempting 4 False#}" False False _ target]
    by (simp add: trace_simps)
  finally (trace_trans) show ?thesis .
qed

text \<open>
  (C7) A backend can lose its machine for good. When the first dial fails and its socket is dropped
  before the failed call has registered the reconnecting task, two tasks are on their way. The one
  registered later finds the first one's channel in place; it moves the generation on nevertheless, so
  the loss of that channel's socket is ignored, and the channel keeps the connector from dialling.
  Every later call is handed the dead channel, and no socket is opened until the backend is closed.
\<close>

theorem second_task_disconnects:
  "\<exists>w g. (backend_step target)\<^sup>*\<^sup>* backend_init w \<and> \<not> cs_closed (bw_state w) \<and>
     (\<forall>v. (backend_step target)\<^sup>*\<^sup>* w v \<and> \<not> cs_closed (bw_state v) \<longrightarrow>
        channel_section target (bw_state v) = (UseChannel g, bw_state v) \<and> bw_sockets v = {#})"
proof -
  let ?w = "open_world (Some 3) PhaseIdle True 4 {#} {#} 0 {#Attempting 4 False#}"
  have reached: "(backend_step target)\<^sup>*\<^sup>* backend_init ?w" using first_dial_fails second_task_runs by (rule rtranclp_trans)
  have dead: "dead_channel 3 ?w" by (simp add: dead_channel_def open_world_def)
  have "channel_section target (bw_state v) = (UseChannel 3, bw_state v) \<and> bw_sockets v = {#}"
    if "(backend_step target)\<^sup>*\<^sup>* ?w v" "\<not> cs_closed (bw_state v)" for v
    using steps_dead_channel [OF that(1) dead] that(2) by (simp add: dead_channel_def channel_section_def)
  moreover have "\<not> cs_closed (bw_state ?w)" by (simp add: open_world_def)
  ultimately show ?thesis using reached by blast
qed

theorem second_task_disconnects_witness:
  "\<exists>w g. (backend_step [])\<^sup>*\<^sup>* backend_init w \<and> \<not> cs_closed (bw_state w) \<and>
     channel_section [] (bw_state w) = (UseChannel g, bw_state w) \<and> bw_sockets w = {#}"
  using second_task_disconnects [of "[]"] by blast

end
