(* ===== verification/Proxy_Mapper.thy ===== *)
theory Proxy_Mapper
  imports Machine_Spec
begin

text \<open>
  Resolution of proxy targets (\<open>ployz-internal-machine-api-proxy/src/mapper.rs\<close>): the names and
  identifiers of a request become machines of the cluster with the addresses to dial. The listing of the
  store is an argument.
\<close>

section \<open>Targets\<close>

record remote_address =
  ra_ip :: "128 word"
  ra_zone :: "8 word list"

record machine_target =
  mt_id :: string
  mt_name :: string
  mt_address :: string
  mt_remote_address :: "remote_address option"
  mt_address_is_utf8 :: bool

datatype address_key = KeyRemote "128 word" "8 word list" | KeyText string

definition remote_address_of :: "string \<Rightarrow> string \<Rightarrow> remote_address option" where
  "remote_address_of ip zone =
     (if is_utf8 ip then map_option (\<lambda>w. \<lparr>ra_ip = w, ra_zone = bytes_of_string zone\<rparr>) (parse_ipv6 ip) else None)"

definition parse_remote_address :: "string \<Rightarrow> remote_address option" where
  "parse_remote_address address =
     (case split_once (CHR ''%'') address of
        Some (ip, zone) \<Rightarrow> if zone = [] then None else remote_address_of ip zone
      | None \<Rightarrow> remote_address_of address [])"

definition target_new :: "string \<Rightarrow> string \<Rightarrow> string \<Rightarrow> machine_target" where
  "target_new ident name address =
     \<lparr>mt_id = ident, mt_name = name, mt_address = address,
      mt_remote_address = parse_remote_address address, mt_address_is_utf8 = True\<rparr>"

definition from_management_address :: "string \<Rightarrow> string \<Rightarrow> 128 word \<Rightarrow> 8 word list \<Rightarrow> machine_target" where
  "from_management_address ident name ip zone =
     \<lparr>mt_id = ident, mt_name = name,
      mt_address =
        (if zone = [] then show_ipv6 ip else show_ipv6 ip @ ''%'' @ from_utf8_lossy (string_of_bytes zone)),
      mt_remote_address = Some \<lparr>ra_ip = ip, ra_zone = zone\<rparr>,
      mt_address_is_utf8 = is_utf8 (string_of_bytes zone)\<rparr>"

definition target_key :: "machine_target \<Rightarrow> address_key" where
  "target_key target =
     (case mt_remote_address target of
        None \<Rightarrow> KeyText (mt_address target)
      | Some remote \<Rightarrow> KeyRemote (ra_ip remote) (ra_zone remote))"

section \<open>Resolution\<close>

datatype map_machines_error = MachinesNotFound "string list" | MapStatus status | MapOther string

definition machines_not_found_display :: "string list \<Rightarrow> string" where
  "machines_not_found_display names =
     (case names of
        [name] \<Rightarrow> ''machine not found: '' @ name
      | _ \<Rightarrow> ''machines not found: '' @ join '', '' names)"

definition target_of_machine :: "machine_info \<Rightarrow> (map_machines_error fault, machine_target) result" where
  "target_of_machine machine =
     rbind (expect ''machine network not set'' (mi_network machine)) (\<lambda>network.
     rbind (expect ''machine management IP not set'' (nc_management_ip network)) (\<lambda>ip.
     rbind (map_err (\<lambda>error. Fail (MapOther
         (''invalid management IP for machine '' @ CHR 0x27 # mi_name machine @ CHR 0x27 # '' in store: '' @ address_error_display error)))
       (to_addr ip)) (\<lambda>address.
     Ok (case addr_ip address of
           V6 w \<Rightarrow> from_management_address (mi_id machine) (mi_name machine) w (addr_zone address)
         | V4 w \<Rightarrow> target_new (mi_id machine) (mi_name machine) (show_ip (V4 w))))))"

text \<open>The hash map from identifiers and names: a later entry replaces an earlier one.\<close>

definition lookup_table :: "machine_target list \<Rightarrow> string \<Rightarrow> machine_target option" where
  "lookup_table targets = foldl (\<lambda>m t. m(mt_id t \<mapsto> t, mt_name t \<mapsto> t)) Map.empty targets"

fun resolve_names ::
    "(string \<Rightarrow> machine_target option) \<Rightarrow> string list \<Rightarrow> string set \<Rightarrow> machine_target list \<times> string list" where
  "resolve_names table [] seen = ([], [])"
| "resolve_names table (n # ns) seen =
     (case table n of
        Some t \<Rightarrow>
          (let (targets, missing) = resolve_names table ns (insert (mt_id t) seen)
           in (if mt_id t \<in> seen then targets else t # targets, missing))
      | None \<Rightarrow> (let (targets, missing) = resolve_names table ns seen in (targets, n # missing)))"

definition map_machines ::
    "(string, machine_info list) result \<Rightarrow> string list \<Rightarrow> (map_machines_error fault, machine_target list) result" where
  "map_machines listing names_or_ids =
     (if names_or_ids = [] then Err (Fail (MapOther ''no machines specified''))
      else
        rbind (map_err (\<lambda>error. Fail (MapOther (''list machines: '' @ error))) listing) (\<lambda>machines.
        rbind (collect_ok (map target_of_machine machines)) (\<lambda>all_targets.
        if ''*'' \<in> set names_or_ids
        then if all_targets = [] then Err (Fail (MapOther ''no machines in cluster'')) else Ok all_targets
        else
          (let (targets, missing) = resolve_names (lookup_table all_targets) names_or_ids {}
           in if missing = [] then Ok targets else Err (Fail (MachinesNotFound missing))))))"

section \<open>What resolution finds\<close>

definition answers :: "string \<Rightarrow> machine_target \<Rightarrow> bool" where
  "answers n t \<longleftrightarrow> n = mt_id t \<or> n = mt_name t"

lemma lookup_table_snoc: "lookup_table (ts @ [t]) = (lookup_table ts)(mt_id t \<mapsto> t, mt_name t \<mapsto> t)"
  by (simp add: lookup_table_def)

lemma lookup_table_sound: "lookup_table ts n = Some t \<Longrightarrow> t \<in> set ts \<and> answers n t"
  by (induction ts rule: rev_induct)
    (auto simp: lookup_table_snoc answers_def split: if_splits, simp add: lookup_table_def)

lemma lookup_table_none: "lookup_table ts n = None \<longleftrightarrow> (\<forall>t\<in>set ts. \<not> answers n t)"
  by (induction ts rule: rev_induct) (auto simp: lookup_table_snoc answers_def, simp_all add: lookup_table_def)

lemma resolve_missing: "snd (resolve_names table ns seen) = filter (\<lambda>n. table n = None) ns"
  by (induction table ns seen rule: resolve_names.induct) (auto split: option.splits prod.splits)

lemma resolve_fresh: "t \<in> set (fst (resolve_names table ns seen)) \<Longrightarrow> mt_id t \<notin> seen"
  by (induction table ns seen rule: resolve_names.induct) (auto split: option.splits prod.splits if_splits)

lemma resolve_distinct: "distinct (map mt_id (fst (resolve_names table ns seen)))"
  by (induction table ns seen rule: resolve_names.induct)
    (auto split: option.splits prod.splits dest: resolve_fresh [rotated] simp: image_iff, (metis fst_conv insertI1 resolve_fresh)+)

lemma resolve_from: "t \<in> set (fst (resolve_names table ns seen)) \<Longrightarrow> \<exists>n\<in>set ns. table n = Some t"
  by (induction table ns seen rule: resolve_names.induct) (auto split: option.splits prod.splits if_splits)

lemma resolve_covers:
  "n \<in> set ns \<Longrightarrow> table n = Some t \<Longrightarrow> mt_id t \<in> seen \<union> mt_id ` set (fst (resolve_names table ns seen))"
  by (induction table ns seen rule: resolve_names.induct) (auto split: option.splits prod.splits if_splits)

lemma resolved_found:
  assumes run: "resolve_names (lookup_table targets) names {} = (found, [])" and "distinct (map mt_id targets)"
  shows "set found \<subseteq> set targets \<and> (\<forall>n\<in>set names. \<exists>t\<in>set found. answers n t) \<and> (\<forall>t\<in>set found. \<exists>n\<in>set names. answers n t)"
proof -
  let ?table = "lookup_table targets"
  have "\<exists>n\<in>set names. ?table n = Some t" if "t \<in> set found" for t
    using resolve_from [of t ?table names "{}"] run that by simp
  then have sub: "set found \<subseteq> set targets" and asked: "\<forall>t\<in>set found. \<exists>n\<in>set names. answers n t"
    using lookup_table_sound by blast+
  have "\<exists>t\<in>set found. answers n t" if n: "n \<in> set names" for n
  proof -
    have "filter (\<lambda>n. ?table n = None) names = []" using resolve_missing [of ?table names "{}"] run by simp
    then obtain t where t: "?table n = Some t" using n by (auto simp: filter_empty_conv)
    then obtain u where "u \<in> set found" "mt_id u = mt_id t"
      using resolve_covers [of n names ?table t "{}"] n run by auto
    then have "u = t" using sub lookup_table_sound [OF t] assms(2) by (metis distinct_map inj_onD subsetD)
    then show ?thesis using \<open>u \<in> set found\<close> lookup_table_sound [OF t] by blast
  qed
  then show ?thesis using sub asked by blast
qed

lemma map_machines_run:
  assumes "collect_ok (map target_of_machine machines) = Ok targets" "names \<noteq> []" "''*'' \<notin> set names"
    and "resolve_names (lookup_table targets) names {} = (found, missing)"
  shows "map_machines (Ok machines) names = (if missing = [] then Ok found else Err (Fail (MachinesNotFound missing)))"
  using assms by (simp add: map_machines_def)

text \<open>
  (C14) Names resolve to the machines that bear them. When the machines of the store have addresses and
  different identifiers, a request without the wildcard is answered with machines of the store, each
  once, so that every requested text is the identifier or the name of one of them and every machine
  answers to a requested text; or it is refused with exactly the texts that no machine answers to, in the
  order of the request.
\<close>

theorem map_machines_resolves:
  assumes "collect_ok (map target_of_machine machines) = Ok targets" "distinct (map mt_id targets)"
    and "names \<noteq> []" "''*'' \<notin> set names"
  shows "case map_machines (Ok machines) names of
      Ok found \<Rightarrow> set found \<subseteq> set targets \<and> distinct (map mt_id found) \<and>
        (\<forall>n\<in>set names. \<exists>t\<in>set found. answers n t) \<and> (\<forall>t\<in>set found. \<exists>n\<in>set names. answers n t)
    | Err (Fail (MachinesNotFound missing)) \<Rightarrow>
        missing \<noteq> [] \<and> missing = filter (\<lambda>n. \<forall>t\<in>set targets. \<not> answers n t) names
    | Err _ \<Rightarrow> False"
proof -
  obtain found missing where run: "resolve_names (lookup_table targets) names {} = (found, missing)" by force
  have "missing = filter (\<lambda>n. \<forall>t\<in>set targets. \<not> answers n t) names"
    using resolve_missing [of "lookup_table targets" names "{}"] run by (simp add: lookup_table_none)
  moreover have "distinct (map mt_id found)" using resolve_distinct [of "lookup_table targets" names "{}"] run by simp
  moreover have "missing = [] \<Longrightarrow> ?thesis"
    using resolved_found [of targets names found] map_machines_run [OF assms(1,3,4) run] run assms(2) calculation(2) by simp
  ultimately show ?thesis using map_machines_run [OF assms(1,3,4) run] by (cases "missing = []") simp_all
qed

definition named_machine :: "string \<Rightarrow> string \<Rightarrow> 128 word \<Rightarrow> machine_info" where
  "named_machine ident name ip =
     machine_info_default\<lparr>mi_id := ident, mi_name := name, mi_network := Some
       \<lparr>nc_subnet = None, nc_management_ip = Some (ip_new (address_scoped ip [])), nc_endpoints = [], nc_public_key = []\<rparr>\<rparr>"

lemma target_of_sample: "target_of_machine (named_machine ident name ip) = Ok (from_management_address ident name ip [])"
  by (simp add: target_of_machine_def named_machine_def machine_info_default_def to_addr_ip_new address_ok_def
      address_scoped_def expect_def)

theorem map_machines_resolves_witness:
  "map_machines (Ok [named_machine ''i1'' ''one'' 1, named_machine ''i2'' ''two'' 2]) [''three'', ''two''] =
     Err (Fail (MachinesNotFound [''three'']))"
proof -
  let ?targets = "[from_management_address ''i1'' ''one'' 1 [], from_management_address ''i2'' ''two'' 2 []]"
  have targets: "collect_ok (map target_of_machine [named_machine ''i1'' ''one'' 1, named_machine ''i2'' ''two'' 2]) = Ok ?targets"
    by (simp add: target_of_sample)
  have "distinct (map mt_id ?targets)" "[''three'', ''two''] \<noteq> []" "''*'' \<notin> set [''three'', ''two'']"
    by (simp_all add: from_management_address_def)
  note resolved = map_machines_resolves [OF targets this]
  have none: "\<not> answers ''three'' t" if "t \<in> set ?targets" for t
    using that by (auto simp: answers_def from_management_address_def)
  have two: "answers ''two'' (from_management_address ''i2'' ''two'' 2 [])"
    by (simp add: answers_def from_management_address_def)
  show ?thesis
  proof (cases "map_machines (Ok [named_machine ''i1'' ''one'' 1, named_machine ''i2'' ''two'' 2]) [''three'', ''two'']")
    case (Inl e)
    with resolved none two show ?thesis by (auto split: fault.splits map_machines_error.splits)
  next
    case (Inr found)
    with resolved obtain t where "t \<in> set ?targets" "answers ''three'' t" by auto
    with none show ?thesis by blast
  qed
qed

end
