(* ===== verification/Proxy_Payload.thy ===== *)
theory Proxy_Payload
  imports Proxy_Mapper
begin

text \<open>
  Broadcast responses of the API proxy (\<open>ployz-internal-machine-api-proxy/src/payload.rs\<close>): the proxy does
  not know the schema of a response, it appends the encoded metadata of the machine to the encoded message,
  and rewrites the envelope around a single message. The generated encoders of the protobuf messages are
  arguments; the variable-length integers are those of the source.
\<close>

section \<open>Variable-length integers\<close>

fun consume_from :: "nat \<Rightarrow> 64 word \<Rightarrow> 8 word list \<Rightarrow> (string, 64 word \<times> nat) result" where
  "consume_from index acc [] = Err ''unexpected EOF''"
| "consume_from index acc (b # bs) =
     (if index = 10 then Err ''unexpected EOF''
      else if index = 9 \<and> 1 < b then Err ''variable length integer overflow''
      else
        (let acc' = acc OR push_bit (index * 7) (ucast (b AND 0x7F))
         in if b < 0x80 then Ok (acc', index + 1) else consume_from (index + 1) acc' bs))"

definition consume_varint :: "8 word list \<Rightarrow> (string, 64 word \<times> nat) result" where
  "consume_varint bs = consume_from 0 0 bs"

function encode_varint :: "64 word \<Rightarrow> 8 word list" where
  "encode_varint v = (if 0x80 \<le> v then (ucast v OR 0x80) # encode_varint (drop_bit 7 v) else [ucast v])"
  by auto

termination
proof (relation "measure unat")
  fix v :: "64 word"
  assume "0x80 \<le> v"
  then have "128 \<le> unat v" by (simp add: word_le_nat_alt)
  then show "(drop_bit 7 v, v) \<in> measure unat" by (simp add: unat_drop_bit)
qed simp

declare encode_varint.simps [simp del]

section \<open>Messages\<close>

text \<open>\<open>google.rpc.Status\<close> and the metadata of a response.\<close>

record rpc_status =
  rp_code :: int
  rp_message :: string
  rp_details :: "(string \<times> 8 word list) list"

record pb_metadata =
  pm_machine_id :: string
  pm_machine_name :: string
  pm_machine_addr :: string
  pm_error :: string
  pm_status :: "rpc_status option"

definition machine_metadata ::
    "machine_target \<Rightarrow> string \<Rightarrow> rpc_status option \<Rightarrow> (string, pb_metadata) result" where
  "machine_metadata machine error status =
     (if \<not> mt_address_is_utf8 machine then Err ''string field contains invalid UTF-8''
      else Ok \<lparr>pm_machine_id = mt_id machine, pm_machine_name = mt_name machine,
        pm_machine_addr = mt_address machine, pm_error = error, pm_status = status\<rparr>)"

text \<open>
  What the generated code and the gRPC library contribute: the encoding of an empty message with metadata,
  the one of a response that holds one such message, the decoder of a status in the details of an error,
  and the name and number of a status code.
\<close>

record payload_lib =
  pl_empty :: "pb_metadata \<Rightarrow> 8 word list"
  pl_response :: "pb_metadata \<Rightarrow> 8 word list"
  pl_decode_status :: "8 word list \<Rightarrow> rpc_status option"
  pl_code_name :: "code \<Rightarrow> string"
  pl_code_number :: "code \<Rightarrow> int"

definition append_machine_info ::
    "payload_lib \<Rightarrow> machine_target \<Rightarrow> bool \<Rightarrow> 8 word list \<Rightarrow> (string, 8 word list) result" where
  "append_machine_info lib machine streaming response =
     rbind (map_ok (pl_empty lib) (machine_metadata machine [] None)) (\<lambda>payload.
     if streaming then Ok (response @ payload)
     else
       rbind (consume_varint response) (\<lambda>(tag, tag_len).
       rbind (consume_varint (drop tag_len response)) (\<lambda>(_, length_len).
       if tag \<noteq> 10 then Err (''unexpected message format: '' @ nat_to_string (unat tag))
       else if tag_len + length_len > length response
       then Err (''unexpected message size: '' @ nat_to_string (length response))
       else
         (let embedded = drop (tag_len + length_len) response
          in Ok (encode_varint 10 @ encode_varint (of_nat (length embedded + length payload)) @ embedded @ payload)))))"

text \<open>An error of a backend: a status with its details, or another error with its text.\<close>

record proxy_status = status +
  ps_details :: "8 word list"

datatype backend_error = StatusError proxy_status | OtherError string

definition google_status :: "payload_lib \<Rightarrow> proxy_status \<Rightarrow> rpc_status" where
  "google_status lib status =
     (case (if ps_details status \<noteq> [] then pl_decode_status lib (ps_details status) else None) of
        Some decoded \<Rightarrow> decoded
      | None \<Rightarrow> \<lparr>rp_code = pl_code_number lib (st_code status), rp_message = st_message status, rp_details = []\<rparr>)"

definition build_machine_error ::
    "payload_lib \<Rightarrow> machine_target \<Rightarrow> bool \<Rightarrow> backend_error \<Rightarrow> (string, 8 word list) result" where
  "build_machine_error lib machine streaming error =
     (let (text_of, status) =
        (case error of
           StatusError status \<Rightarrow>
             (''rpc error: code = '' @ pl_code_name lib (st_code status) @ '' desc = '' @ st_message status, google_status lib status)
         | OtherError message \<Rightarrow>
             (message, \<lparr>rp_code = pl_code_number lib CodeUnknown, rp_message = message, rp_details = []\<rparr>))
      in map_ok (if streaming then pl_empty lib else pl_response lib) (machine_metadata machine text_of (Some status)))"

section \<open>Reading back\<close>

lemma low_septet: "ucast ((ucast v OR 0x80 :: 8 word) AND 0x7F) = (take_bit 7 v :: 64 word)"
proof -
  have "bit (0x7F :: 8 word) n \<longleftrightarrow> n < 7" for n
    using bit_mask_iff [where 'a = "8 word", of 7 n] by (auto simp: mask_eq_exp_minus_1)
  moreover have "bit (0x80 :: 8 word) n \<longleftrightarrow> n = 7" for n
    using bit_exp_iff [where 'a = "8 word", of 7 n] by (auto dest: bit_imp_le_length)
  ultimately show ?thesis by (intro bit_word_eqI) (auto simp: bit_simps)
qed

lemma septets_join: "push_bit n (take_bit 7 v) OR push_bit (n + 7) (drop_bit 7 v) = push_bit n v" for v :: "64 word"
proof (rule bit_word_eqI)
  fix k
  have "7 + (k - (n + 7)) = k - n" if "n \<le> k" "7 \<le> k - n" using that by simp
  then show "bit (push_bit n (take_bit 7 v) OR push_bit (n + 7) (drop_bit 7 v)) k = bit (push_bit n v) k"
    by (cases "7 \<le> k - n") (auto simp: bit_simps)
qed

lemma high_bit_set: "\<not> (w OR 0x80 :: 8 word) < 0x80"
proof -
  have "(0x80 :: 8 word) \<le> w OR 0x80" using or_greater_eq [of "uint w" "uint (0x80 :: 8 word)"]
    by (simp add: word_le_def uint_or or.commute)
  then show ?thesis by simp
qed

lemma consume_encode:
  "unat v < 2 ^ (64 - 7 * i) \<Longrightarrow> i \<le> 9 \<Longrightarrow>
   consume_from i acc (encode_varint v @ rest) = Ok (acc OR push_bit (i * 7) v, i + length (encode_varint v))"
proof (induction v arbitrary: i acc rule: encode_varint.induct)
  case (1 v)
  show ?case
  proof (cases "0x80 \<le> v")
    case True
    then have "128 \<le> unat v" by (simp add: word_le_nat_alt)
    with "1.prems" have i: "i \<le> 8" by (cases "i = 9") auto
    have "64 - 7 * i = (64 - 7 * Suc i) + 7" using i by simp
    then have "(2 :: nat) ^ (64 - 7 * i) = 2 ^ (64 - 7 * Suc i) * 2 ^ 7" by (simp only: power_add)
    then have "unat (drop_bit 7 v) < 2 ^ (64 - 7 * Suc i)"
      using "1.prems"(1) by (simp add: unat_drop_bit less_mult_imp_div_less)
    note rest = "1.IH" [OF True this, of "acc OR push_bit (i * 7) (take_bit 7 v)"]
    have "push_bit (i * 7) (take_bit 7 v) OR push_bit (Suc i * 7) (drop_bit 7 v) = push_bit (i * 7) v"
      using septets_join [of "i * 7" v] by (simp add: add.commute)
    then show ?thesis
      using True i rest by (simp add: encode_varint.simps [of v] Let_def high_bit_set low_septet or.assoc)
  next
    case False
    then have small: "unat v < 128" by (simp add: word_le_nat_alt)
    have byte: "unat (ucast v :: 8 word) = unat v"
      using small by (simp add: unsigned_ucast_eq take_bit_eq_mod)
    have septet: "ucast ((ucast v :: 8 word) AND 0x7F) = v"
    proof (rule unat_eqD)
      have "(ucast v :: 8 word) AND 0x7F = take_bit 7 (ucast v)" by (simp add: take_bit_eq_mask mask_eq_exp_minus_1)
      then have "unat ((ucast v :: 8 word) AND 0x7F) = unat v" using small byte by (simp only: unat_take_bit) simp
      then show "unat (ucast ((ucast v :: 8 word) AND 0x7F) :: 64 word) = unat v"
        using small by (simp add: unsigned_ucast_eq take_bit_eq_mod)
    qed
    show ?thesis using False small "1.prems" byte septet
      by (auto simp: encode_varint.simps [of v] Let_def word_less_nat_alt)
  qed
qed

lemma consume_varint_encode: "consume_varint (encode_varint v @ rest) = Ok (v, length (encode_varint v))"
  using consume_encode [of v 0 0 rest] unat_less [of v] by (simp add: consume_varint_def)

lemma consume_from_bound: "consume_from i acc bs = Ok (v, n) \<Longrightarrow> i < n \<and> n \<le> i + length bs"
  by (induction i acc bs rule: consume_from.induct) (auto simp: Let_def split: if_splits)

lemma consume_varint_bound: "consume_varint bs = Ok (v, n) \<Longrightarrow> n \<le> length bs"
  using consume_from_bound [of 0 0 bs v n] by (simp add: consume_varint_def)

text \<open>A response that holds one message, as the protobuf encoding has it: field one, its length, its bytes.\<close>

definition unwrap_message :: "8 word list \<Rightarrow> 8 word list option" where
  "unwrap_message bs =
     (case consume_varint bs of
        Ok (tag, n) \<Rightarrow>
          (case consume_varint (drop n bs) of
             Ok (len, m) \<Rightarrow>
               if tag = 10 \<and> length (drop (n + m) bs) = unat len then Some (drop (n + m) bs) else None
           | Err _ \<Rightarrow> None)
      | Err _ \<Rightarrow> None)"

lemma unwrap_encoded:
  assumes "length body < 2 ^ 64"
  shows "unwrap_message (encode_varint 10 @ encode_varint (of_nat (length body)) @ body) = Some body"
proof -
  have "unat (of_nat (length body) :: 64 word) = length body" using assms by (simp add: unat_of_nat take_bit_nat_eq_self)
  then show ?thesis unfolding unwrap_message_def by (simp add: consume_varint_encode)
qed

text \<open>
  (C12) The metadata of a machine is appended inside the message. A streamed message is followed by the
  encoded metadata. A unary response that holds one message is rewritten to one that holds the same bytes
  followed by the encoded metadata, with the length of the envelope adjusted, however the lengths of the
  original were encoded.
\<close>

theorem machine_info_appended:
  assumes "unwrap_message response = Some body" "machine_metadata machine [] None = Ok metadata"
    and "length body + length (pl_empty lib metadata) < 2 ^ 64"
  shows "append_machine_info lib machine True message = Ok (message @ pl_empty lib metadata) \<and>
    (\<exists>out. append_machine_info lib machine False response = Ok out \<and>
       unwrap_message out = Some (body @ pl_empty lib metadata))"
proof -
  let ?payload = "pl_empty lib metadata"
  from assms(1) obtain n len m where
    "consume_varint response = Ok (10, n)" "consume_varint (drop n response) = Ok (len, m)" "drop (n + m) response = body"
    by (auto simp: unwrap_message_def split: sum.splits if_splits)
  moreover from this have "n + m \<le> length response"
    using consume_varint_bound [of response 10 n] consume_varint_bound [of "drop n response" len m] by simp
  ultimately have "append_machine_info lib machine False response =
      Ok (encode_varint 10 @ encode_varint (of_nat (length (body @ ?payload))) @ body @ ?payload)"
    using assms(2) by (simp add: append_machine_info_def Let_def not_less)
  moreover have "append_machine_info lib machine True message = Ok (message @ ?payload)"
    using assms(2) by (simp add: append_machine_info_def)
  moreover have "length (body @ ?payload) < 2 ^ 64" using assms(3) by (simp only: length_append)
  ultimately show ?thesis using unwrap_encoded [of "body @ ?payload"] by (simp only: simp_thms ex_simps) blast
qed

definition sample_target :: machine_target where
  "sample_target =
     \<lparr>mt_id = ''id-2'', mt_name = ''machine-b'', mt_address = ''fd00::2'', mt_remote_address = None, mt_address_is_utf8 = True\<rparr>"

definition sample_payload_lib :: payload_lib where
  "sample_payload_lib =
     \<lparr>pl_empty = (\<lambda>metadata. bytes_of_string (pm_machine_id metadata)), pl_response = (\<lambda>_. []),
      pl_decode_status = (\<lambda>_. None), pl_code_name = (\<lambda>_. []), pl_code_number = (\<lambda>_. 0)\<rparr>"

theorem machine_info_appended_witness:
  "\<exists>out. append_machine_info sample_payload_lib sample_target False [0x0A, 0x00] = Ok out \<and>
     unwrap_message out = Some (bytes_of_string ''id-2'')"
proof -
  have "unwrap_message [0x0A, 0x00] = Some []" by (simp add: unwrap_message_def consume_varint_def Let_def)
  moreover obtain metadata where "machine_metadata sample_target [] None = Ok metadata" "pm_machine_id metadata = ''id-2''"
    by (simp add: machine_metadata_def sample_target_def)
  ultimately show ?thesis
    using machine_info_appended [of "[0x0A, 0x00]" "[]" sample_target metadata sample_payload_lib]
    by (simp add: sample_payload_lib_def bytes_of_string_def)
qed

end
