(* ===== verification/Proxy_Route.thy ===== *)
theory Proxy_Route
  imports Proxy_Payload
begin

text \<open>
  Routing of the API proxy (\<open>Director\<close> in \<open>ployz-internal-machine-api-proxy/src/lib.rs\<close> and \<open>Backend\<close> in
  \<open>backend.rs\<close>): the metadata of a call selects the local machine, one machine or several, whose backends
  are cached by address. The metadata map of the gRPC library is an argument, with the law used of it as a
  locale. The connection behind a backend is the subject of \<open>Proxy_Backend\<close>.
\<close>

section \<open>Backends\<close>

datatype backend_kind = LocalBackend | RemoteBackend

record remote_socket =
  rs_ip :: "128 word"
  rs_zone :: "8 word list"
  rs_port :: "16 word"

record proxy_backend =
  bk_kind :: backend_kind
  bk_target :: string
  bk_remote :: "remote_socket option"
  bk_machine :: "machine_target option"

definition local_backend :: "string \<Rightarrow> proxy_backend" where
  "local_backend socket_path =
     \<lparr>bk_kind = LocalBackend, bk_target = ''unix://'' @ socket_path, bk_remote = None, bk_machine = None\<rparr>"

definition remote_target :: "machine_target \<Rightarrow> 16 word \<Rightarrow> (status, proxy_backend) result" where
  "remote_target target port =
     (case mt_remote_address target of
        None \<Rightarrow> Err (internal (''address must be a valid IPv6 address: '' @ mt_address target))
      | Some address \<Rightarrow>
          (let zone = (if ra_zone address = [] then [] else ''%'' @ from_utf8_lossy (string_of_bytes (ra_zone address)))
           in Ok \<lparr>bk_kind = RemoteBackend,
                bk_target = ''['' @ show_ipv6 (ra_ip address) @ zone @ '']:'' @ nat_to_string (unat port),
                bk_remote = Some \<lparr>rs_ip = ra_ip address, rs_zone = ra_zone address, rs_port = port\<rparr>,
                bk_machine = None\<rparr>))"

definition with_machine :: "proxy_backend \<Rightarrow> machine_target \<Rightarrow> proxy_backend" where
  "with_machine b machine = b\<lparr>bk_machine := Some machine\<rparr>"

definition append_info ::
    "payload_lib \<Rightarrow> proxy_backend \<Rightarrow> bool \<Rightarrow> 8 word list \<Rightarrow> (string, 8 word list) result" where
  "append_info lib b streaming response =
     (case bk_machine b of
        Some machine \<Rightarrow> append_machine_info lib machine streaming response
      | None \<Rightarrow> Ok response)"

definition build_error ::
    "payload_lib \<Rightarrow> proxy_backend \<Rightarrow> bool \<Rightarrow> backend_error \<Rightarrow> (string, 8 word list option) result" where
  "build_error lib b streaming error =
     (case bk_machine b of
        Some machine \<Rightarrow> map_ok Some (build_machine_error lib machine streaming error)
      | None \<Rightarrow> Ok None)"

text \<open>The address the connector dials; the index of an interface is looked up by the operating system.\<close>

definition socket_scope :: "(string \<Rightarrow> (string, 32 word) result) \<Rightarrow> remote_socket \<Rightarrow> (string, 32 word) result" where
  "socket_scope interface_index s =
     (let zone = string_of_bytes (rs_zone s)
      in if rs_zone s = [] then Ok 0
         else (case (if is_utf8 zone then parse_uint (2 ^ 32 - 1) zone else None) of
                 Some index \<Rightarrow> Ok (of_nat index)
               | None \<Rightarrow> interface_index zone))"

section \<open>Metadata\<close>

record 'm metadata_lib =
  ml_contains_key :: "'m \<Rightarrow> string \<Rightarrow> bool"
  ml_get_all :: "'m \<Rightarrow> string \<Rightarrow> string list"
  ml_remove :: "string \<Rightarrow> 'm \<Rightarrow> 'm"
  ml_insert :: "string \<Rightarrow> string \<Rightarrow> 'm \<Rightarrow> 'm"
  ml_to_str :: "string \<Rightarrow> string option"
  ml_ascii_value :: "string \<Rightarrow> string option"

definition metadata_values :: "'m metadata_lib \<Rightarrow> 'm \<Rightarrow> string \<Rightarrow> string list option" where
  "metadata_values lib metadata key =
     (if \<not> ml_contains_key lib metadata key then None
      else Some (map (\<lambda>v. case ml_to_str lib v of Some s \<Rightarrow> s | None \<Rightarrow> []) (ml_get_all lib metadata key)))"

definition outgoing_metadata :: "'m metadata_lib \<Rightarrow> proxy_backend \<Rightarrow> 'm \<Rightarrow> string option \<Rightarrow> 'm" where
  "outgoing_metadata lib b incoming authority =
     (if bk_kind b = RemoteBackend
      then ml_insert lib ''proxy-authority''
        (case Option.bind authority (ml_ascii_value lib) of Some v \<Rightarrow> v | None \<Rightarrow> ''unknown'')
        (ml_remove lib ''machines'' (ml_remove lib ''machine'' incoming))
      else incoming)"

section \<open>The director\<close>

record director =
  dr_local_backend :: proxy_backend
  dr_remote_port :: "16 word"
  dr_remote_backends :: "(address_key \<times> proxy_backend) list"
  dr_local_address :: "string option"

datatype proxy_mode = OneToOne | OneToMany

record proxy_route =
  ro_mode :: proxy_mode
  ro_backends :: "proxy_backend list"

definition director_new :: "string \<Rightarrow> 16 word \<Rightarrow> director" where
  "director_new local_socket_path remote_port =
     \<lparr>dr_local_backend = local_backend local_socket_path, dr_remote_port = remote_port,
      dr_remote_backends = [], dr_local_address = None\<rparr>"

definition update_local_address :: "string \<Rightarrow> director \<Rightarrow> director" where
  "update_local_address address d = d\<lparr>dr_local_address := Some address\<rparr>"

text \<open>The backends that are closed, and the director without them.\<close>

definition flush_remote_backends :: "director \<Rightarrow> proxy_backend list \<times> director" where
  "flush_remote_backends d = (map snd (dr_remote_backends d), d\<lparr>dr_remote_backends := []\<rparr>)"

definition director_close :: "director \<Rightarrow> proxy_backend list \<times> director" where
  "director_close d = (let (closed, d') = flush_remote_backends d in (dr_local_backend d # closed, d'))"

definition local_route :: "director \<Rightarrow> proxy_route" where
  "local_route d = \<lparr>ro_mode = OneToOne, ro_backends = [dr_local_backend d]\<rparr>"

definition backend_for :: "director \<Rightarrow> machine_target \<Rightarrow> (status, proxy_backend) result \<times> director" where
  "backend_for d target =
     (if dr_local_address d = Some (mt_address target) then (Ok (dr_local_backend d), d)
      else
        (case map_of (dr_remote_backends d) (target_key target) of
           Some b \<Rightarrow> (Ok b, d)
         | None \<Rightarrow>
             (case remote_target target (dr_remote_port d) of
                Err e \<Rightarrow> (Err e, d)
              | Ok b \<Rightarrow> (Ok b, d\<lparr>dr_remote_backends := (target_key target, b) # dr_remote_backends d\<rparr>))))"

fun backends_for :: "director \<Rightarrow> machine_target list \<Rightarrow> (status, proxy_backend list) result \<times> director" where
  "backends_for d [] = (Ok [], d)"
| "backends_for d (target # targets) =
     (case backend_for d target of
        (Err e, d') \<Rightarrow> (Err e, d')
      | (Ok b, d') \<Rightarrow>
          (case backends_for d' targets of
             (Err e, d'') \<Rightarrow> (Err e, d'')
           | (Ok bs, d'') \<Rightarrow> (Ok (with_machine b target # bs), d'')))"

definition map_resolution_error :: "map_machines_error \<Rightarrow> status" where
  "map_resolution_error error =
     (case error of
        MachinesNotFound names \<Rightarrow> invalid_argument (machines_not_found_display names)
      | MapStatus status \<Rightarrow> status
      | MapOther message \<Rightarrow> internal (''failed to resolve machines: '' @ message))"

definition route ::
    "'m metadata_lib \<Rightarrow> (string list \<Rightarrow> (map_machines_error fault, machine_target list) result) \<Rightarrow> director \<Rightarrow> 'm \<Rightarrow>
     (status fault, proxy_route) result \<times> director" where
  "route lib mapper d metadata =
     (if ml_contains_key lib metadata ''proxy-authority'' then (Ok (local_route d), d)
      else
        (case (metadata_values lib metadata ''machine'', metadata_values lib metadata ''machines'') of
           (None, None) \<Rightarrow> (Ok (local_route d), d)
         | (Some machine, machines) \<Rightarrow>
             if length machine \<noteq> 1
             then (Err (Fail (invalid_argument (''proxy metadata '' @ CHR 0x27 # ''machine'' @ CHR 0x27 # '' must have exactly one value''))), d)
             else if machines \<noteq> None
             then (Err (Fail (invalid_argument (''both '' @ CHR 0x27 # ''machine'' @ CHR 0x27 # '' and '' @
               CHR 0x27 # ''machines'' @ CHR 0x27 # '' proxy metadata are set''))), d)
             else
               (case map_err (fault_map map_resolution_error) (mapper machine) of
                  Err e \<Rightarrow> (Err e, d)
                | Ok [] \<Rightarrow> (Err (Panic ''mapper returned no targets''), d)
                | Ok (target # _) \<Rightarrow>
                    (case backend_for d target of
                       (Err e, d') \<Rightarrow> (Err (Fail e), d')
                     | (Ok b, d') \<Rightarrow> (Ok \<lparr>ro_mode = OneToOne, ro_backends = [b]\<rparr>, d')))
         | (None, Some machines) \<Rightarrow>
             if machines = [] then (Err (Fail (invalid_argument (''proxy metadata '' @ CHR 0x27 # ''machines'' @ CHR 0x27 # '' is empty''))), d)
             else
               (case map_err (fault_map map_resolution_error) (mapper machines) of
                  Err e \<Rightarrow> (Err e, d)
                | Ok targets \<Rightarrow>
                    (case backends_for d targets of
                       (Err e, d') \<Rightarrow> (Err (Fail e), d')
                     | (Ok bs, d') \<Rightarrow> (Ok \<lparr>ro_mode = OneToMany, ro_backends = bs\<rparr>, d')))))"

section \<open>Routes reach the machines asked for\<close>

definition remote_to :: "16 word \<Rightarrow> remote_address \<Rightarrow> proxy_backend \<Rightarrow> bool" where
  "remote_to port address b \<longleftrightarrow> bk_kind b = RemoteBackend \<and>
     bk_remote b = Some \<lparr>rs_ip = ra_ip address, rs_zone = ra_zone address, rs_port = port\<rparr>"

text \<open>Every cached backend dials the address of its key.\<close>

definition cache_ok :: "director \<Rightarrow> bool" where
  "cache_ok d \<longleftrightarrow> (\<forall>(key, b)\<in>set (dr_remote_backends d). \<exists>address.
     key = KeyRemote (ra_ip address) (ra_zone address) \<and> remote_to (dr_remote_port d) address b)"

text \<open>The backend for a target: the local one for the address of this machine, else one that dials the target.\<close>

definition leads_to :: "director \<Rightarrow> machine_target \<Rightarrow> proxy_backend \<Rightarrow> bool" where
  "leads_to d target b \<longleftrightarrow>
     (if dr_local_address d = Some (mt_address target) then b\<lparr>bk_machine := None\<rparr> = (dr_local_backend d)\<lparr>bk_machine := None\<rparr>
      else \<exists>address. mt_remote_address target = Some address \<and> remote_to (dr_remote_port d) address b)"

definition reachable_target :: "director \<Rightarrow> machine_target \<Rightarrow> bool" where
  "reachable_target d target \<longleftrightarrow> dr_local_address d = Some (mt_address target) \<or> mt_remote_address target \<noteq> None"

definition same_settings :: "director \<Rightarrow> director \<Rightarrow> bool" where
  "same_settings d d' \<longleftrightarrow> dr_local_backend d' = dr_local_backend d \<and> dr_remote_port d' = dr_remote_port d \<and>
     dr_local_address d' = dr_local_address d"

lemma remote_target_to: "remote_target target port = Ok b \<Longrightarrow>
    \<exists>address. mt_remote_address target = Some address \<and> remote_to port address b"
  by (auto simp: remote_target_def remote_to_def Let_def split: option.splits)

lemma remote_target_ok: "is_ok (remote_target target port) \<longleftrightarrow> mt_remote_address target \<noteq> None"
  by (simp add: remote_target_def is_ok_def Let_def split: option.splits)

lemma backend_for_leads:
  assumes "cache_ok d" "backend_for d target = (r, d')"
  shows "cache_ok d' \<and> same_settings d d' \<and> (is_ok r \<longleftrightarrow> reachable_target d target) \<and>
    (\<forall>b. r = Ok b \<longrightarrow> leads_to d target b)"
proof (cases "dr_local_address d = Some (mt_address target)")
  case True
  then show ?thesis using assms
    by (auto simp: backend_for_def same_settings_def reachable_target_def leads_to_def is_ok_def)
next
  case False
  show ?thesis
  proof (cases "map_of (dr_remote_backends d) (target_key target)")
    case (Some b)
    then obtain address where "target_key target = KeyRemote (ra_ip address) (ra_zone address)"
        "remote_to (dr_remote_port d) address b"
      using assms(1) by (fastforce simp: cache_ok_def dest: map_of_SomeD)
    then show ?thesis using False Some assms
      by (auto simp: backend_for_def same_settings_def reachable_target_def leads_to_def is_ok_def target_key_def remote_to_def
          split: option.splits)
  next
    case None
    show ?thesis
    proof (cases "remote_target target (dr_remote_port d)")
      case (Inl e)
      then show ?thesis using False None assms remote_target_ok [of target "dr_remote_port d"]
        by (auto simp: backend_for_def same_settings_def reachable_target_def is_ok_def)
    next
      case (Inr b)
      then obtain address where "mt_remote_address target = Some address" "remote_to (dr_remote_port d) address b"
        using remote_target_to by blast
      moreover have "r = Ok b" "d' = d\<lparr>dr_remote_backends := (target_key target, b) # dr_remote_backends d\<rparr>"
        using assms(2) False None Inr by (simp_all add: backend_for_def)
      ultimately show ?thesis using False assms(1)
        by (auto simp: same_settings_def reachable_target_def leads_to_def is_ok_def cache_ok_def target_key_def)
    qed
  qed
qed

lemma same_settings_simps:
  "same_settings d d' \<Longrightarrow> leads_to d' target b = leads_to d target b"
  "same_settings d d' \<Longrightarrow> reachable_target d' target = reachable_target d target"
  by (simp_all add: same_settings_def leads_to_def reachable_target_def)

lemma same_settings_trans: "same_settings d d' \<Longrightarrow> same_settings d' d'' \<Longrightarrow> same_settings d d''"
  by (simp add: same_settings_def)

lemma with_machine_leads: "leads_to d target (with_machine b machine) \<longleftrightarrow> leads_to d target b"
  by (simp add: leads_to_def with_machine_def remote_to_def)

lemma backends_for_lead:
  "cache_ok d \<Longrightarrow> backends_for d targets = (r, d') \<Longrightarrow>
   cache_ok d' \<and> same_settings d d' \<and> (is_ok r \<longleftrightarrow> list_all (reachable_target d) targets) \<and>
   (\<forall>bs. r = Ok bs \<longrightarrow> list_all2 (\<lambda>target b. leads_to d target b \<and> bk_machine b = Some target) targets bs)"
proof (induction d targets arbitrary: r d' rule: backends_for.induct)
  case (1 d)
  then show ?case by (auto simp: same_settings_def is_ok_def)
next
  case (2 d target targets)
  obtain r1 d1 where one: "backend_for d target = (r1, d1)" by force
  note step = backend_for_leads [OF "2.prems"(1) one]
  show ?case
  proof (cases r1)
    case (Inl e)
    then show ?thesis using step "2.prems" one by (auto simp: is_ok_def)
  next
    case (Inr b)
    obtain r2 d2 where rest: "backends_for d1 targets = (r2, d2)" by force
    have here: "cache_ok d1" "same_settings d d1" "reachable_target d target" "leads_to d target b"
      using step Inr by (simp_all add: is_ok_def)
    note tail = "2.IH" [OF one [symmetric] Inr here(1) rest, unfolded same_settings_simps [OF here(2)]]
    have all: "same_settings d d2" using here(2) tail same_settings_trans by blast
    show ?thesis
    proof (cases r2)
      case (Inl e)
      then have "r = Err e" "d' = d2" using "2.prems"(2) one rest \<open>r1 = Inr b\<close> by simp_all
      then show ?thesis using Inl tail all by (simp add: is_ok_def)
    next
      case (Inr bs)
      then have "r = Ok (with_machine b target # bs)" "d' = d2" using "2.prems"(2) one rest \<open>r1 = Inr b\<close> by simp_all
      then show ?thesis using Inr tail all here by (simp add: is_ok_def with_machine_leads) (simp add: with_machine_def)
    qed
  qed
qed

lemma list_all2_left: "list_all2 P xs ys \<Longrightarrow> x \<in> set xs \<Longrightarrow> \<exists>y\<in>set ys. P x y"
  by (induction rule: list_all2_induct) auto

lemma list_all2_right: "list_all2 P xs ys \<Longrightarrow> y \<in> set ys \<Longrightarrow> \<exists>x\<in>set xs. P x y"
  by (induction rule: list_all2_induct) auto

lemma broadcast_run:
  assumes "\<not> ml_contains_key lib metadata ''proxy-authority''" "metadata_values lib metadata ''machine'' = None"
    and "metadata_values lib metadata ''machines'' = Some names" "names \<noteq> []"
    and "route lib mapper d metadata = (Ok r, d')"
  obtains targets bs where "mapper names = Ok targets" "backends_for d targets = (Ok bs, d')" "r = \<lparr>ro_mode = OneToMany, ro_backends = bs\<rparr>"
  using assms
  by (cases "mapper names") (auto simp: route_def split: prod.splits sum.splits)

text \<open>
  (C10) A broadcast reaches exactly the machines that were named. When a call names machines of the store
  and is routed, each name has a backend in the route that leads to a machine bearing the name and carries
  it for the response, every backend of the route does so for some name, and every cached backend still
  dials the address it is cached under. A backend leads to a machine when it is the local one and the
  machine has the local address, or when it dials the address of the machine.
\<close>

theorem broadcast_reaches_named_machines:
  assumes "cache_ok d"
    and "\<not> ml_contains_key lib metadata ''proxy-authority''" "metadata_values lib metadata ''machine'' = None"
    and "metadata_values lib metadata ''machines'' = Some names" "names \<noteq> []" "''*'' \<notin> set names"
    and "collect_ok (map target_of_machine machines) = Ok targets" "distinct (map mt_id targets)"
    and "route lib (map_machines (Ok machines)) d metadata = (Ok r, d')"
  shows "cache_ok d' \<and> ro_mode r = OneToMany \<and>
    (\<forall>n\<in>set names. \<exists>b\<in>set (ro_backends r). \<exists>t\<in>set targets. answers n t \<and> bk_machine b = Some t \<and> leads_to d t b) \<and>
    (\<forall>b\<in>set (ro_backends r). \<exists>t\<in>set targets. bk_machine b = Some t \<and> leads_to d t b \<and> (\<exists>n\<in>set names. answers n t))"
proof -
  obtain found bs where found: "map_machines (Ok machines) names = Ok found"
    and bs: "backends_for d found = (Ok bs, d')" "r = \<lparr>ro_mode = OneToMany, ro_backends = bs\<rparr>"
    using broadcast_run [OF assms(2-5,9)] by blast
  obtain ts missing where run: "resolve_names (lookup_table targets) names {} = (ts, missing)" by force
  with map_machines_run [OF assms(7,5,6) run] found have run: "resolve_names (lookup_table targets) names {} = (found, [])"
    by (simp split: if_splits)
  note named = resolved_found [OF run assms(8)]
  have led: "cache_ok d'" "list_all2 (\<lambda>t b. leads_to d t b \<and> bk_machine b = Some t) found bs"
    using backends_for_lead [OF assms(1) bs(1)] by simp_all
  have "\<exists>b\<in>set bs. \<exists>t\<in>set targets. answers n t \<and> bk_machine b = Some t \<and> leads_to d t b" if "n \<in> set names" for n
  proof -
    from named that obtain t where t: "t \<in> set found" "t \<in> set targets" "answers n t" by blast
    then show ?thesis using list_all2_left [OF led(2) t(1)] by blast
  qed
  moreover have "\<exists>t\<in>set targets. bk_machine b = Some t \<and> leads_to d t b \<and> (\<exists>n\<in>set names. answers n t)"
    if b: "b \<in> set bs" for b
  proof -
    obtain t where t: "t \<in> set found" "leads_to d t b" "bk_machine b = Some t"
      using list_all2_right [OF led(2) b] by blast
    with named have "t \<in> set targets" "\<exists>n\<in>set names. answers n t" by blast+
    with t show ?thesis by blast
  qed
  ultimately show ?thesis using led(1) bs(2) by simp
qed

section \<open>Forwarded calls\<close>

text \<open>What the proxy relies on of the metadata map: a key that was inserted is contained.\<close>

locale metadata_map =
  fixes lib :: "'m metadata_lib"
  assumes contains_inserted: "ml_contains_key lib (ml_insert lib key v metadata) key"
begin

lemma forwarded_marked:
  "bk_kind b = RemoteBackend \<Longrightarrow> ml_contains_key lib (outgoing_metadata lib b incoming authority) ''proxy-authority''"
  by (simp add: outgoing_metadata_def contains_inserted)

lemma forwarded_local:
  "bk_kind b = RemoteBackend \<Longrightarrow>
   route lib mapper d (outgoing_metadata lib b incoming authority) = (Ok (local_route d), d)"
  by (simp add: route_def forwarded_marked)

end

text \<open>Metadata as a list of keys and values, with values of visible characters.\<close>

definition visible_value :: "string \<Rightarrow> string option" where
  "visible_value v = (if list_all (\<lambda>c. 32 \<le> byte_of c \<and> byte_of c < 127 \<or> byte_of c = 9) v then Some v else None)"

definition list_metadata_lib :: "(string \<times> string) list metadata_lib" where
  "list_metadata_lib =
     \<lparr>ml_contains_key = (\<lambda>m k. list_ex (\<lambda>(key, _). key = k) m),
      ml_get_all = (\<lambda>m k. map snd (filter (\<lambda>(key, _). key = k) m)),
      ml_remove = (\<lambda>k. filter (\<lambda>(key, _). key \<noteq> k)),
      ml_insert = (\<lambda>k v m. filter (\<lambda>(key, _). key \<noteq> k) m @ [(k, v)]),
      ml_to_str = visible_value, ml_ascii_value = visible_value\<rparr>"

interpretation list_metadata: metadata_map list_metadata_lib
  by unfold_locales (simp add: list_metadata_lib_def)

text \<open>
  (C11) A forwarded call goes no further. Whatever a call asked for, once a remote backend has forwarded it
  the director of the receiving machine routes it to its own machine, so calls cannot circle between
  machines; a local backend leaves the metadata as they are.
\<close>

theorem forwarded_call_is_local:
  assumes "metadata_map lib"
  shows "if bk_kind b = RemoteBackend
    then route lib mapper d (outgoing_metadata lib b incoming authority) = (Ok (local_route d), d)
    else outgoing_metadata lib b incoming authority = incoming"
  using metadata_map.forwarded_local [OF assms] by (simp add: outgoing_metadata_def)

theorem forwarded_call_is_local_witness:
  "route list_metadata_lib (\<lambda>_. Err (Panic [])) (director_new ''/run/api.sock'' 51000)
     (outgoing_metadata list_metadata_lib ((local_backend [])\<lparr>bk_kind := RemoteBackend\<rparr>) [(''machines'', ''*'')] None) =
   (Ok (local_route (director_new ''/run/api.sock'' 51000)), director_new ''/run/api.sock'' 51000)"
  using forwarded_call_is_local [OF list_metadata.metadata_map_axioms, of "(local_backend [])\<lparr>bk_kind := RemoteBackend\<rparr>"]
  by simp

text \<open>A broadcast to one of two machines.\<close>

definition sample_director :: director where
  "sample_director = director_new ''/run/api.sock'' 51000"

lemma sample_values:
  "metadata_values list_metadata_lib [(''machines'', ''two'')] ''machine'' = None"
  "metadata_values list_metadata_lib [(''machines'', ''two'')] ''machines'' = Some [''two'']"
  by (simp_all add: metadata_values_def list_metadata_lib_def visible_value_def)

lemma sample_resolved:
  "map_machines (Ok [named_machine ''i1'' ''one'' 1, named_machine ''i2'' ''two'' 2]) [''two''] =
     Ok [from_management_address ''i2'' ''two'' 2 []]"
  by (simp add: map_machines_def target_of_sample lookup_table_def from_management_address_def)

theorem broadcast_reaches_named_machines_witness:
  "case fst (route list_metadata_lib (map_machines (Ok [named_machine ''i1'' ''one'' 1, named_machine ''i2'' ''two'' 2]))
       sample_director [(''machines'', ''two'')]) of
     Ok r \<Rightarrow> ro_mode r = OneToMany \<and> (\<exists>b t. b \<in> set (ro_backends r) \<and> answers ''two'' t \<and> leads_to sample_director t b)
   | Err e \<Rightarrow> False"
proof -
  let ?machines = "[named_machine ''i1'' ''one'' 1, named_machine ''i2'' ''two'' 2]"
  let ?targets = "[from_management_address ''i1'' ''one'' 1 [], from_management_address ''i2'' ''two'' 2 []]"
  have given: "cache_ok sample_director" "\<not> ml_contains_key list_metadata_lib [(''machines'', ''two'')] ''proxy-authority''"
    "[''two''] \<noteq> []" "''*'' \<notin> set [''two'']" "collect_ok (map target_of_machine ?machines) = Ok ?targets" "distinct (map mt_id ?targets)"
    by (simp_all add: cache_ok_def sample_director_def director_new_def list_metadata_lib_def target_of_sample from_management_address_def)
  obtain r d' where run: "route list_metadata_lib (map_machines (Ok ?machines)) sample_director [(''machines'', ''two'')] = (Ok r, d')"
    using given(2)
    by (simp add: route_def sample_values sample_resolved sample_director_def director_new_def backend_for_def
        from_management_address_def remote_target_def Let_def)
  from broadcast_reaches_named_machines [OF given(1,2) sample_values given(3-6) run] show ?thesis
    using run by auto
qed

end
