(* ===== verification/Proxy_Timeout.thy ===== *)
theory Proxy_Timeout
  imports Utf8
begin

text \<open>
  The timeout of an incoming call (\<open>parse_grpc_timeout\<close> in \<open>ployz-internal-machine-api-proxy/src/lib.rs\<close>):
  up to eight digits and a unit, in nanoseconds, capped at what the protocol's Go implementation can hold.
\<close>

section \<open>Reading a timeout\<close>

text \<open>\<open>Debug\<close> of a text of visible characters.\<close>

definition debug_text :: "string \<Rightarrow> string" where
  "debug_text s =
     CHR 0x22 # concat (map (\<lambda>c. if c = CHR 0x22 \<or> c = CHR 0x5C then [CHR 0x5C, c]
       else if c = CHR 0x09 then CHR 0x5C # ''t'' else [c]) s) @ [CHR 0x22]"

definition timeout_unit :: "char \<Rightarrow> nat option" where
  "timeout_unit c =
     (if c = CHR ''H'' then Some (3600 * 10 ^ 9)
      else if c = CHR ''M'' then Some (60 * 10 ^ 9)
      else if c = CHR ''S'' then Some (10 ^ 9)
      else if c = CHR ''m'' then Some (10 ^ 6)
      else if c = CHR ''u'' then Some (10 ^ 3)
      else if c = CHR ''n'' then Some 1
      else None)"

text \<open>The largest \<open>Duration\<close> in nanoseconds, and the largest one of Go.\<close>

definition duration_max :: nat where "duration_max = (2 ^ 64 - 1) * 10 ^ 9 + 999999999"
definition grpc_go_max :: nat where "grpc_go_max = 2 ^ 63 - 1"

definition continuation_byte :: "char \<Rightarrow> bool" where
  "continuation_byte c \<longleftrightarrow> 128 \<le> byte_of c \<and> byte_of c < 192"

definition parse_grpc_timeout :: "string \<Rightarrow> (string fault, nat) result" where
  "parse_grpc_timeout v =
     (if length v < 2 then Err (Fail (''transport: timeout string is too short: '' @ debug_text v))
      else if length v > 9 then Err (Fail (''transport: timeout string is too long: '' @ debug_text v))
      else if continuation_byte (last v) then Err (Panic ''byte index is not a char boundary'')
      else
        (let digits = butlast v
         in case timeout_unit (last v) of
              None \<Rightarrow> Err (Fail (''transport: timeout unit is not recognized: '' @ debug_text v))
            | Some multiplier \<Rightarrow>
                if \<not> list_all is_ascii_digit digits
                then Err (Fail (''strconv.ParseUint: parsing '' @ debug_text digits @ '': invalid syntax''))
                else
                  rbind (expect ''at most eight decimal digits fit in u32'' (parse_uint (2 ^ 32 - 1) digits)) (\<lambda>amount.
                  (let duration = min (multiplier * amount) duration_max
                   in Ok (if duration > grpc_go_max then grpc_go_max else duration)))))"

section \<open>What is accepted\<close>

lemma dec_val_bound: "list_all is_ascii_digit ds \<Longrightarrow> dec_val ds < 10 ^ length ds"
proof (induction ds rule: rev_induct)
  case (snoc c ds)
  then show ?case using digit_val_less [of c] by simp
qed simp

lemma parse_short_digits:
  assumes "ds \<noteq> []" "length ds \<le> 8" "list_all is_ascii_digit ds"
  shows "parse_uint (2 ^ 32 - 1) ds = Some (dec_val ds)"
proof -
  have "dec_val ds < 10 ^ length ds" using assms(3) by (rule dec_val_bound)
  also have "(10 :: nat) ^ length ds \<le> 10 ^ 8" using assms(2) by (rule power_increasing) simp
  finally have "dec_val ds \<le> 2 ^ 32 - 1" by simp
  moreover have "hd ds \<noteq> CHR ''+''" using assms(1,3) by (cases ds) (auto simp: is_ascii_digit_def)
  ultimately show ?thesis using assms by (cases ds) (simp_all add: parse_uint_def)
qed

lemma timeout_unit_range: "timeout_unit c = Some u \<Longrightarrow> u \<le> 3600 * 10 ^ 9"
  by (auto simp: timeout_unit_def split: if_splits)

lemma timeout_units:
  "(c, u) \<in> set [(CHR ''H'', 3600 * 10 ^ 9 :: nat), (CHR ''M'', 60 * 10 ^ 9), (CHR ''S'', 10 ^ 9),
          (CHR ''m'', 10 ^ 6), (CHR ''u'', 10 ^ 3), (CHR ''n'', 1)] \<longleftrightarrow> timeout_unit c = Some u"
  by (auto simp: timeout_unit_def)

lemma timeout_read:
  assumes "list_all (\<lambda>c. byte_of c < 128) v"
  shows "case parse_grpc_timeout v of
      Ok d \<Rightarrow> (\<exists>ds c u. v = ds @ [c] \<and> ds \<noteq> [] \<and> length ds \<le> 8 \<and> list_all is_ascii_digit ds \<and>
        timeout_unit c = Some u \<and> d = min (dec_val ds * u) (2 ^ 63 - 1))
    | Err (Fail e) \<Rightarrow> \<not> (\<exists>ds c u. v = ds @ [c] \<and> ds \<noteq> [] \<and> length ds \<le> 8 \<and> list_all is_ascii_digit ds \<and> timeout_unit c = Some u)
    | Err (Panic m) \<Rightarrow> False"
proof (cases "2 \<le> length v \<and> length v \<le> 9")
  case False
  then show ?thesis by (auto simp: parse_grpc_timeout_def)
next
  case True
  then obtain ds c where v: "v = ds @ [c]" "ds \<noteq> []" "length ds \<le> 8" by (cases v rule: rev_cases) (auto simp: Suc_le_length_iff)
  have ascii: "\<not> continuation_byte c" using assms v by (simp add: continuation_byte_def)
  show ?thesis
  proof (cases "timeout_unit c")
    case None
    then show ?thesis using True v ascii by (auto simp: parse_grpc_timeout_def)
  next
    case (Some u)
    show ?thesis
    proof (cases "list_all is_ascii_digit ds")
      case False
      then show ?thesis using True v ascii Some by (auto simp: parse_grpc_timeout_def Let_def)
    next
      case digits: True
      have "dec_val ds < 10 ^ length ds" using digits by (rule dec_val_bound)
      also have "(10 :: nat) ^ length ds \<le> 10 ^ 8" using v(3) by (rule power_increasing) simp
      finally have "u * dec_val ds \<le> (3600 * 10 ^ 9) * 10 ^ 8"
        using timeout_unit_range [OF Some] by (intro mult_le_mono) simp_all
      then have "u * dec_val ds \<le> duration_max" by (simp add: duration_max_def)
      then have "parse_grpc_timeout v = Ok (min (dec_val ds * u) (2 ^ 63 - 1))"
        using True v ascii Some digits parse_short_digits [OF v(2,3) digits]
        by (simp add: parse_grpc_timeout_def Let_def expect_def grpc_go_max_def mult.commute min_def)
      then show ?thesis using v Some digits by auto
    qed
  qed
qed

text \<open>
  (C13) A timeout of visible characters is read exactly. It is accepted exactly when it is one to eight
  digits and a unit; its value is the number times the unit in nanoseconds, capped at the largest 64-bit
  signed number, with no overflow on the way. Everything else is an error, and reading never panics.
\<close>

theorem grpc_timeout_exact:
  assumes "list_all (\<lambda>c. byte_of c < 128) v"
  shows "case parse_grpc_timeout v of
      Ok d \<Rightarrow> (\<exists>ds c u. v = ds @ [c] \<and> ds \<noteq> [] \<and> length ds \<le> 8 \<and> list_all is_ascii_digit ds \<and>
        (c, u) \<in> set [(CHR ''H'', 3600 * 10 ^ 9 :: nat), (CHR ''M'', 60 * 10 ^ 9), (CHR ''S'', 10 ^ 9),
          (CHR ''m'', 10 ^ 6), (CHR ''u'', 10 ^ 3), (CHR ''n'', 1)] \<and> d = min (dec_val ds * u) (2 ^ 63 - 1))
    | Err (Fail e) \<Rightarrow> \<not> (\<exists>ds c u. v = ds @ [c] \<and> ds \<noteq> [] \<and> length ds \<le> 8 \<and> list_all is_ascii_digit ds \<and> (c, u) \<in> set [(CHR ''H'', 3600 * 10 ^ 9 :: nat), (CHR ''M'', 60 * 10 ^ 9), (CHR ''S'', 10 ^ 9),
          (CHR ''m'', 10 ^ 6), (CHR ''u'', 10 ^ 3), (CHR ''n'', 1)])
    | Err (Panic m) \<Rightarrow> False"
  using timeout_read [OF assms] unfolding timeout_units .

theorem grpc_timeout_exact_witness:
  "case parse_grpc_timeout ''99999999H'' of Ok d \<Rightarrow> d = 2 ^ 63 - 1 | Err e \<Rightarrow> False"
proof -
  have "parse_grpc_timeout ''99999999H'' \<noteq> Err e" for e
    using parse_short_digits [of "''99999999''"]
    by (simp add: parse_grpc_timeout_def continuation_byte_def timeout_unit_def is_ascii_digit_def expect_def Let_def)
  moreover have "dec_val ''99999999'' = 99999999" by (simp add: dec_val_def digit_val_def)
  ultimately show ?thesis using grpc_timeout_exact [of "''99999999H''"]
    by (cases "parse_grpc_timeout ''99999999H''") (auto simp: timeout_unit_def)
qed

end
