(* ===== verification/Shell_Quote.thy ===== *)
theory Shell_Quote
  imports Rust_Std
begin

text \<open>
  Quoting for a POSIX shell (\<open>ployz-internal-sshexec/src/shell.rs\<close>): commands for remote machines are
  built from arguments as one text that a shell splits again. The splitting of a shell is specified
  here: blanks separate words, single quotes keep everything up to the next single quote, and double
  quotes keep characters that are not special inside them.
\<close>

section \<open>Quoting\<close>

definition is_unquoted_byte :: "char \<Rightarrow> bool" where
  "is_unquoted_byte c \<longleftrightarrow> is_ascii_alphanumeric c \<or> c \<in> set ''_@%+=:,./-''"

definition single_quote :: char where "single_quote = CHR 0x27"
definition double_quote :: char where "double_quote = CHR 0x22"

text \<open>\<open>str::replace\<close> of a single character.\<close>

definition replace_char :: "char \<Rightarrow> string \<Rightarrow> string \<Rightarrow> string" where
  "replace_char c new s = concat (map (\<lambda>d. if d = c then new else [d]) s)"

definition shell_quote :: "string \<Rightarrow> string" where
  "shell_quote v =
     (if v = [] then [single_quote, single_quote]
      else if list_all is_unquoted_byte v then v
      else [single_quote]
        @ replace_char single_quote [single_quote, double_quote, single_quote, double_quote, single_quote] v @ [single_quote])"

definition quote_command :: "string list \<Rightarrow> string" where
  "quote_command arguments = join '' '' (map shell_quote arguments)"

section \<open>What a shell reads\<close>

text \<open>
  The words of a command line without expansions. A character with a meaning of its own to the shell
  outside quotes gives no words here, and so does an unterminated quote.
\<close>

datatype shell_state = Unquoted | InSingle | InDouble

definition blank :: "char \<Rightarrow> bool" where "blank c \<longleftrightarrow> c = CHR '' '' \<or> c = CHR 0x09 \<or> c = CHR 0x0A"

definition special :: "char \<Rightarrow> bool" where
  "special c \<longleftrightarrow> c \<in> set ''|&;<>()$`*?[]#~!{}^'' \<or> c = CHR 0x5C"

definition special_in_double :: "char \<Rightarrow> bool" where
  "special_in_double c \<longleftrightarrow> c = CHR ''$'' \<or> c = CHR ''`'' \<or> c = CHR 0x5C \<or> c = CHR ''!''"

fun shell_words :: "shell_state \<Rightarrow> string option \<Rightarrow> string \<Rightarrow> string list option" where
  "shell_words Unquoted word [] = Some (case word of None \<Rightarrow> [] | Some w \<Rightarrow> [w])"
| "shell_words InSingle word [] = None"
| "shell_words InDouble word [] = None"
| "shell_words Unquoted word (c # s) =
     (if c = single_quote then shell_words InSingle (Some (case word of None \<Rightarrow> [] | Some w \<Rightarrow> w)) s
      else if c = double_quote then shell_words InDouble (Some (case word of None \<Rightarrow> [] | Some w \<Rightarrow> w)) s
      else if blank c then
        (case word of
           None \<Rightarrow> shell_words Unquoted None s
         | Some w \<Rightarrow> map_option (Cons w) (shell_words Unquoted None s))
      else if special c then None
      else shell_words Unquoted (Some ((case word of None \<Rightarrow> [] | Some w \<Rightarrow> w) @ [c])) s)"
| "shell_words InSingle word (c # s) =
     (if c = single_quote then shell_words Unquoted word s
      else shell_words InSingle (Some ((case word of None \<Rightarrow> [] | Some w \<Rightarrow> w) @ [c])) s)"
| "shell_words InDouble word (c # s) =
     (if c = double_quote then shell_words Unquoted word s
      else if special_in_double c then None
      else shell_words InDouble (Some ((case word of None \<Rightarrow> [] | Some w \<Rightarrow> w) @ [c])) s)"

section \<open>Quoting is undone by the shell\<close>

lemma special_quoted: "c = single_quote \<or> c = double_quote \<or> blank c \<or> special c \<Longrightarrow> \<not> is_unquoted_byte c"
  unfolding is_unquoted_byte_def is_ascii_alphanumeric_def is_ascii_digit_def is_ascii_lowercase_def is_ascii_uppercase_def
  by (auto simp: single_quote_def double_quote_def blank_def special_def)

lemma unquoted_plain: "is_unquoted_byte c \<Longrightarrow> c \<noteq> single_quote \<and> c \<noteq> double_quote \<and> \<not> blank c \<and> \<not> special c"
  using special_quoted by blast

lemma words_plain:
  "list_all is_unquoted_byte v \<Longrightarrow>
   shell_words Unquoted (Some w) (v @ rest) = shell_words Unquoted (Some (w @ v)) rest"
  by (induction v arbitrary: w) (auto simp: unquoted_plain)

lemma words_single:
  "shell_words InSingle (Some w) (replace_char single_quote [single_quote, double_quote, single_quote, double_quote, single_quote] v @ single_quote # rest) =
   shell_words Unquoted (Some (w @ v)) rest"
  by (induction v arbitrary: w)
    (auto simp: replace_char_def single_quote_def double_quote_def special_in_double_def)

lemma words_quote: "shell_words Unquoted None (shell_quote v @ rest) = shell_words Unquoted (Some v) rest"
proof (cases "v = [] \<or> \<not> list_all is_unquoted_byte v")
  case True
  then show ?thesis using words_single [of "[]" v rest] by (auto simp: shell_quote_def)
next
  case False
  then obtain c u where v: "v = c # u" "is_unquoted_byte c" "list_all is_unquoted_byte u" by (cases v) auto
  then show ?thesis using words_plain [of u "[c]" rest] unquoted_plain [of c] by (simp add: shell_quote_def)
qed

text \<open>
  (C15) A shell reads back exactly the arguments. Whatever bytes the arguments have, empty ones included,
  the text that \<open>quote_command\<close> builds is split into these arguments, with no character of theirs
  taken for a separator, a quote or an operator of the shell. (An argument cannot hold the zero byte.)
\<close>

theorem shell_reads_arguments: "shell_words Unquoted None (quote_command arguments) = Some arguments"
proof (induction arguments rule: induct_list012)
  case (2 a)
  show ?case using words_quote [of a "[]"] by (simp add: quote_command_def)
next
  case (3 a b rest)
  have "quote_command (a # b # rest) = shell_quote a @ CHR '' '' # quote_command (b # rest)"
    by (simp add: quote_command_def)
  then show ?case
    using 3 words_quote [of a "CHR '' '' # quote_command (b # rest)"]
    by (simp add: blank_def single_quote_def double_quote_def)
qed (simp add: quote_command_def)

end
