(* ===== verification/Spec2Isabelle.thy ===== *)
theory Spec2Isabelle
  imports Volume_Eligibility Container_Spec Netlink Cluster_Domain Proxy_Backend Proxy_Route Proxy_Timeout Shell_Quote
begin

text \<open>
  A verification library for the container orchestrator in this repository, a port from Go to Rust of a
  program that joins machines into a cluster and deploys services on them. Paths below are relative to
  \<open>src/crates/\<close>.

  \<^bold>\<open>The program and its parts.\<close> Each machine runs a daemon. Its cluster service keeps the members of the
  cluster in a replicated SQLite database: it gives every machine an identifier, a name, a subnet and a
  management address, and it keeps the reserved DNS domain. The network component turns the members into
  peers of a WireGuard interface, with addresses and routes set through netlink. Clients talk to any
  machine; its API proxy forwards a call to the machines that the call names and collects their responses.
  A client plans a deployment with the scheduler, from specifications of services, volumes,
  configurations and ports that the API crate reads, validates and compares. Remote machines are set up
  with commands over SSH.

  \<^bold>\<open>How the code is modelled.\<close> A struct is a \<open>record\<close> with a prefix of its own for the fields, an enum a
  \<open>datatype\<close>, a function a definition of the same name where the name is free. A string is the list of
  the bytes of its UTF-8 encoding, so that \<open>len\<close> is \<open>length\<close>. Integers are words of their width where they
  wrap or are taken apart, natural numbers or integers with the bounds written out elsewhere. A fallible
  function returns \<open>Err\<close> or \<open>Ok\<close>; a panic is the error \<open>Panic\<close>, which callers pass on, so that "does
  not panic" is a statement about the result. A handler with effects takes the state and returns it, also
  when it fails. \<open>BTreeMap\<close> and \<open>BTreeSet\<close> are sorted lists; the order in which a hash map is visited is an
  argument where it can be observed. Code outside the repository (the database, the kernel, the random
  generator, JSON and base64, the address library, the metadata of gRPC, generated protobuf encoders) is
  an argument of the definitions, and what the code relies on of it is a locale.

  \<^bold>\<open>The theories and the code they model.\<close>

  \<^item> Foundations: \<open>Prelude\<close> (results, panics, words), \<open>Rust_Std\<close> (strings and numbers of the standard
    library), \<open>BTree\<close> (ordered collections), \<open>Utf8\<close> and \<open>Utf8_Char\<close> (decoding), \<open>Ip_Text\<close> (the text of
    addresses), \<open>Go_Printable\<close> and \<open>Go_Text\<close> (texts as Go writes them,
    \<open>ployz-internal-machine-cluster/src/go_printable.rs\<close>, \<open>service.rs\<close>, \<open>dns.rs\<close>).
  \<^item> Messages: \<open>Address\<close> (\<open>ployz-internal-machine-api-pb/src/lib.rs\<close>), \<open>Machine_Spec\<close>
    (\<open>ployz-pkg-api/src/machine.rs\<close>), \<open>Wire\<close> (\<open>wire.rs\<close>), \<open>Api_Error\<close> (\<open>error.rs\<close>).
  \<^item> Specifications (\<open>ployz-pkg-api/src\<close>): \<open>Volume_Spec\<close>, \<open>Config_Spec\<close>, \<open>Port_Spec\<close>, \<open>Service_Spec\<close>,
    \<open>Container_Spec\<close> (\<open>container.rs\<close> and the \<open>Service\<close> of \<open>service.rs\<close>), \<open>Civil_Time\<close>, \<open>Rfc3339\<close> and
    \<open>Go_Duration\<close> (times and durations of \<open>container.rs\<close>).
  \<^item> Scheduler (\<open>ployz-pkg-client-deploy-scheduler/src\<close>): \<open>Scheduler_State\<close> (\<open>state.rs\<close>, \<open>constraint.rs\<close>,
    \<open>service.rs\<close>), \<open>Volume_Scheduler\<close>, \<open>Volume_Placement\<close> and \<open>Volume_Eligibility\<close> (\<open>volume.rs\<close>).
  \<^item> Cluster (\<open>ployz-internal-machine-cluster/src\<close>): \<open>Ipam\<close> (\<open>ipam.rs\<close>), \<open>Machine_Name\<close> (\<open>machine.rs\<close>),
    \<open>Dns_Domain\<close> (\<open>dns.rs\<close> and \<open>ployz-internal-dns/src/api.rs\<close>), \<open>Secret\<close>
    (\<open>ployz-internal-secret/src\<close>), \<open>Machine_Json\<close>, \<open>Json_Text\<close> and \<open>Store\<close>
    (\<open>ployz-internal-machine-store/src/lib.rs\<close>), \<open>Cluster\<close> (the handlers of \<open>service.rs\<close>), \<open>Cluster_Run\<close>,
    \<open>Cluster_Safety\<close> and \<open>Cluster_Domain\<close> (runs of the handlers and their properties).
  \<^item> Network (\<open>ployz-internal-machine-network/src\<close>): \<open>Network\<close> (\<open>ip.rs\<close>, \<open>mtu.rs\<close>, \<open>address.rs\<close>,
    \<open>config.rs\<close>, \<open>wireguard.rs\<close>), \<open>Peer\<close> (\<open>peer.rs\<close>), \<open>Routes\<close>, \<open>Wireguard\<close> and \<open>Netlink\<close>
    (\<open>wireguard_linux.rs\<close>).
  \<^item> API proxy (\<open>ployz-internal-machine-api-proxy/src\<close>): \<open>Proxy_Mapper\<close> (\<open>mapper.rs\<close>), \<open>Proxy_Route\<close>
    (\<open>Director\<close> in \<open>lib.rs\<close>, \<open>Backend\<close> in \<open>backend.rs\<close>), \<open>Proxy_Payload\<close> (\<open>payload.rs\<close>),
    \<open>Proxy_Timeout\<close> (\<open>parse_grpc_timeout\<close> in \<open>lib.rs\<close>), \<open>Proxy_Backend\<close> (the connection state in
    \<open>backend.rs\<close>).
  \<^item> Remote commands: \<open>Shell_Quote\<close> (\<open>ployz-internal-sshexec/src/shell.rs\<close>).

  \<^bold>\<open>State and steps.\<close> The state of the cluster service is the record \<open>cluster\<close> over a state of the store;
  \<open>cluster_run\<close> in \<open>Cluster_Run\<close> is the inductive set of states that any sequence of requests reaches. Its
  last argument is a condition on the states in which machines are added: for the separation of machines
  that the listing arrives completely, for the absence of panics none. The state of the WireGuard control is the record of peers in \<open>Wireguard\<close>,
  again with an inductive set of reachable states; \<open>Netlink\<close> passes the state of the kernel, a type of its
  choice, through the calls that change links, addresses and routes. The connection of a proxy backend is the record
  \<open>connection_state\<close>, one function per critical section of its lock; \<open>backend_step\<close> in \<open>Proxy_Backend\<close>
  interleaves them with the calls, tasks and sockets in flight.

  \<^bold>\<open>Interfaces.\<close> The locales and their interpretations: \<open>ordered_map\<close> and \<open>ordered_set\<close> (on the sorted
  lists), \<open>notation_of\<close> (a text written piece by piece that a reader takes back; on JSON strings and on
  quoted names), \<open>subnet_allocator\<close> (on the allocator), \<open>ip_net_laws\<close> and \<open>ip_net_interval\<close> (the address
  library; on the prefixes of \<open>Ipam\<close>), \<open>ip_net_build\<close> (how prefixes are put together; on the same),
  \<open>link_kernel\<close> (what the kernel promises of addresses and routes; on a kernel in memory),
  \<open>configured_link\<close> (the last two together), \<open>codec_laws\<close> (JSON and base64; on the texts of \<open>Json_Text\<close>),
  \<open>database\<close> (the statements of the store; on tables in memory), \<open>cluster_store\<close> (what the cluster service
  relies on of the store, a sublocale of \<open>database\<close>), \<open>metadata_map\<close> (on lists of keys and values).

  \<^bold>\<open>What is shown.\<close>

  \<^item> Cluster: after any run stored machines have different identifiers and keys and disjoint subnets, as
    long as the listings that additions worked with were complete; with any listings, rows stay well
    typed and neither the listing nor an addition panics on them; the domain behaves as a variable. A listing that a broken stream cut
    short, and two additions that list before either creates, give two machines one subnet.
  \<^item> Proxy: a call on an open backend is never left without someone to bring the connection about, and a
    live channel can be reached from every open state that has none; closing is final; but a reconnecting
    task that registers late can leave a dead channel in place, from which no step but closing leads away. A broadcast reaches exactly the machines named, a forwarded call
    goes no further, the metadata of a machine end up inside its response, timeouts are read exactly, and
    names resolve to the machines that bear them.
  \<^item> Remote commands: a shell reads back the arguments.
  \<^item> Allocation: subnets are free, of the right length and first-fit, and the invariant of the allocator is
    kept.
  \<^item> Scheduler: propagation computes the greatest co-located placement, scheduling fails only with
    its documented refusals, and afterwards every service has an eligible machine, when identifiers of
    machines are unique and drivers of volumes have a name and options that are not \<open>nil\<close>.
  \<^item> API: what is printed is read back (ports whose host name and zone have no separators of the syntax,
    times, the stored domain, quoted names, machines in JSON), validation accepts exactly the documented
    specifications, the equivalence of container specifications is characterised field by field, durations
    are read as the sum of their digits in whole nanoseconds, containers are found by name before prefix, port conflicts are exact, random identifiers and
    free names are found.
  \<^item> Network: the endpoints of a silent peer are all tried, one per connection timeout, when they are
    distinct; routes are minimal, addresses of machines differ, absent keys come back as present; the
    device ends up exactly as configured, and the link with the management address alone, a route to each
    wanted prefix, no other route of the main table through the link, and the routes of other interfaces
    untouched.

  \<^bold>\<open>Bounds and fuel.\<close> Loops are structural or have a termination proof: the search of the allocator moves
  to larger addresses, constraint propagation shrinks the candidate sets, route compaction shortens the
  list, the search for a name is bounded by the number of names taken. The rejection loop for random
  identifiers may run for ever and is a \<open>partial_function\<close> with \<open>None\<close> for that, with a property that it
  returns when enough usable bytes come. The readers of JSON and of quoted
  texts, in \<open>Go_Text\<close>, \<open>Dns_Domain\<close> and \<open>Json_Text\<close>, are specifications with fuel: each step consumes a
  character, so that any number above the length of the text is enough, and the round trips show that the
  reader does return.

  \<^bold>\<open>Not modelled.\<close> HTTP and gRPC transport, sockets, processes, files and terminal output have no
  behaviour of their own in this code beyond calls of libraries: the tasks of the proxy that pump messages
  between streams, the tunnel, the Docker, DNS and metrics clients, the log and journal commands, SSH
  sessions and the container management of the database service. Generated protobuf and gRPC code is
  represented by the records that the modelled code uses. The back-off of reconnections and of Docker
  calls is computed in floating-point numbers. The JSON form of containers is derived by a library and its
  decoder is an argument. The subscriptions to changes in the store are streams of an HTTP client. The
  configuration written for the Caddy server is a text for another program, with no reader here to compare
  it with. The identity of shared references is modelled only where the code compares them (\<open>Peer\<close>).
  In \<open>Proxy_Backend\<close> sockets are dropped on threads of the runtime: elsewhere the code starts no task, and
  the backend would stay in its back-off.
\<close>

end
